theory Spec2Isabelle
  imports Complex_Main "HOL-Library.Word"
begin

text \<open>
  A model of the MCP client and of the chat orchestration of the application, and the
  properties proved of it.  The definitions follow the TypeScript sources and keep their
  names.  Line numbers refer to these files of the repository: \<open>services/mcp.ts\<close>
  (\<open>mcp.ts\<close>); the hook \<open>useChatActions\<close>, lines 216-615 of
  \<open>lib/validation.test.ts\<close> (\<open>use-chat-actions\<close>); the streaming utilities, lines
  392-552 of \<open>lib/chat-export.ts\<close> (\<open>chat-export\<close>); their tests
  \<open>lib/streaming.test.ts\<close> (\<open>streaming.test\<close>); the LLM service in
  \<open>components/layout/MainWindowContent.tsx\<close> (\<open>services/llm\<close>); the MCP store in
  \<open>unnamed/part_000\<close> (\<open>mcp-store.ts\<close>); \<open>store/chat-store.ts\<close> and
  \<open>lib/errors.ts\<close>.
\<close>



section \<open>JavaScript values\<close>

text \<open>
  A JavaScript string is a sequence of UTF-16 code units.  String literals of the
  source are written \<open>str ''...''\<close>.  A JavaScript number is kept as an exact
  rational; rounding to IEEE doubles is not modelled.
\<close>

type_synonym js_string = "16 word list"

definition str :: "string \<Rightarrow> js_string" where
  "str s = map of_char s"

datatype json =
    JNull
  | JBool bool
  | JNum rat
  | JStr js_string
  | JArr "json list"
  | JObj "(js_string \<times> json) list"

text \<open>
  Values that the source throws or rejects promises with: \<open>new Error(message)\<close>,
  a \<open>TypeError\<close> of the runtime, the \<open>AbortError\<close> of an aborted fetch, the
  repository's \<open>AppError(message, code, userMessage)\<close> (src/lib/errors.ts), and a
  thrown string (the host's \<open>invoke\<close> rejects with the string of the Rust error).
\<close>

datatype js_error =
    Error js_string
  | TypeError js_string
  | AbortError js_string
  | AppError js_string js_string js_string
  | ThrownString js_string

text \<open>\<open>error instanceof Error ? error.message : String(error)\<close>\<close>

fun errorMessage :: "js_error \<Rightarrow> js_string" where
  "errorMessage (Error m) = m"
| "errorMessage (TypeError m) = m"
| "errorMessage (AbortError m) = m"
| "errorMessage (AppError m c u) = m"
| "errorMessage (ThrownString s) = s"

section \<open>JSON-RPC and MCP types (types/mcp.ts)\<close>

text \<open>
  \<open>id: number | string\<close>.  \<open>NoId\<close> stands for every other value found in the
  \<open>id\<close> position of a parsed message (absent, null, a boolean, an object): none of
  them is ever a key of a pending-request map.
\<close>

datatype rpc_id = NumId rat | StrId js_string | NoId

record JsonRpcError =
  err_code :: rat
  err_message :: js_string
  err_data :: "json option"

record JsonRpcResponse =
  resp_id :: rpc_id
  resp_result :: "json option"
  resp_error :: "JsonRpcError option"

record JsonRpcRequest =
  req_id :: rpc_id
  req_method :: js_string
  req_params :: "json option"

datatype rpc_message = Request JsonRpcRequest | Notification js_string

datatype transport = Stdio | Http

record MCPTool =
  tool_name :: js_string
  tool_description :: js_string
  inputSchema :: json

datatype server_status = Disconnected | Connecting | Connected | ErrorStatus

record MCPServerState =
  ss_id :: js_string
  ss_status :: server_status
  ss_tools :: "MCPTool list"
  ss_error :: "js_string option"

record MCPServerConfig =
  cfg_id :: js_string
  cfg_name :: js_string
  cfg_enabled :: bool
  cfg_transport :: transport
  cfg_command :: js_string
  cfg_args :: "js_string list"
  cfg_url :: js_string

section \<open>Module state of services/mcp.ts\<close>

text \<open>
  \<open>MCPServerStateInternal\<close> with the fields of its two variants.  A pending entry
  \<open>{resolve, reject}\<close> is represented by the handle \<open>h\<close> of the request that stored
  it: its \<open>resolve\<close> is \<open>clearTimeout(timer h); originalResolve(value)\<close> on promise
  \<open>h\<close>, its \<open>reject\<close> is \<open>clearTimeout(timer h); reject(error)\<close> on promise \<open>h\<close>.
  The counter \<open>requestId\<close> is an unbounded natural number.
\<close>

record server_state =
  srv_transport :: transport
  requestId :: nat
  pendingRequests :: "rpc_id \<rightharpoonup> nat"
  buffer :: js_string
  eventSource :: bool
  sessionId :: "js_string option"
  srv_url :: js_string

text \<open>The server object, the request id and the method that the timer callback and
  the transport's \<open>.catch\<close> callback of one request capture.\<close>

record req_closure =
  cl_serverId :: js_string
  cl_server :: nat
  cl_id :: rpc_id
  cl_method :: js_string

datatype outcome = Pending | Resolved "json option" | Rejected js_error

text \<open>
  What the code does to the outside and to its promises, in order: calls of the host
  (\<open>invoke\<close>), of \<open>fetch\<close>, and the steps of the correlator.
\<close>

datatype effect =
    PendingDelete nat rpc_id
  | ClearTimeout nat
  | ResolveCalled nat "json option"
  | RejectCalled nat js_error
  | TimerFired nat
  | WriteStdin js_string rpc_message
  | FetchPost js_string rpc_message
  | SpawnServer js_string
  | KillServer js_string
  | NewEventSource js_string
  | CloseEventSource nat

text \<open>
  Server objects live in a store (\<open>heap\<close>), since the callbacks of a request keep a
  reference to the object they were created for; \<open>activeServers\<close> maps a server id to
  the reference of its object.  \<open>serverStates\<close> and \<open>servers\<close> are the two fields of
  the MCP store.  \<open>timers\<close> holds the armed timers, \<open>transports\<close> the requests whose
  write or POST has not completed, \<open>listeners\<close> the registered stdout listeners (by
  server object, with the \<open>config.id\<close> they filter on).
\<close>

record world =
  heap :: "nat \<rightharpoonup> server_state"
  activeServers :: "js_string \<rightharpoonup> nat"
  serverStates :: "js_string \<rightharpoonup> MCPServerState"
  servers :: "MCPServerConfig list"
  promises :: "nat \<rightharpoonup> outcome"
  timers :: "nat \<rightharpoonup> req_closure"
  transports :: "nat \<rightharpoonup> req_closure"
  listeners :: "nat \<rightharpoonup> js_string"
  nextRef :: nat
  nextHandle :: nat
  effects :: "effect list"

definition emit :: "effect list \<Rightarrow> world \<Rightarrow> world" where
  "emit es w = w\<lparr>effects := effects w @ es\<rparr>"

text \<open>A promise is settled by the first call of its resolve or reject; later calls
  do nothing.\<close>

definition settle :: "nat \<Rightarrow> outcome \<Rightarrow> world \<Rightarrow> world" where
  "settle h out w =
     (case promises w h of
        Some Pending \<Rightarrow> w\<lparr>promises := (promises w)(h \<mapsto> out)\<rparr>
      | _ \<Rightarrow> w)"

text \<open>\<open>server.pendingRequests.delete(id)\<close> on the server object \<open>r\<close>.\<close>

definition pendingDelete :: "nat \<Rightarrow> rpc_id \<Rightarrow> world \<Rightarrow> world" where
  "pendingDelete r i w =
     emit [PendingDelete r i]
       (case heap w r of
          None \<Rightarrow> w
        | Some sv \<Rightarrow>
            w\<lparr>heap := (heap w)(r \<mapsto> sv\<lparr>pendingRequests := (pendingRequests sv)(i := None)\<rparr>)\<rparr>)"

definition clearTimeout :: "nat \<Rightarrow> world \<Rightarrow> world" where
  "clearTimeout h w = emit [ClearTimeout h] (w\<lparr>timers := (timers w)(h := None)\<rparr>)"

text \<open>The wrapped \<open>resolve\<close> and \<open>reject\<close> stored in the pending entry
  (mcp.ts 256-265 and 455-464).\<close>

definition pendingResolve :: "nat \<Rightarrow> json option \<Rightarrow> world \<Rightarrow> world" where
  "pendingResolve h v w = settle h (Resolved v) (emit [ResolveCalled h v] (clearTimeout h w))"

definition pendingReject :: "nat \<Rightarrow> js_error \<Rightarrow> world \<Rightarrow> world" where
  "pendingReject h e w = settle h (Rejected e) (emit [RejectCalled h e] (clearTimeout h w))"

subsection \<open>Shared response handler\<close>

text \<open>\<open>handleResponse\<close> (mcp.ts 535-552).\<close>

definition handleResponse :: "js_string \<Rightarrow> JsonRpcResponse \<Rightarrow> world \<Rightarrow> world" where
  "handleResponse serverId response w =
     (case activeServers w serverId of
        None \<Rightarrow> w
      | Some r \<Rightarrow>
          (case heap w r of
             None \<Rightarrow> w
           | Some server \<Rightarrow>
               (case pendingRequests server (resp_id response) of
                  None \<Rightarrow> w
                | Some h \<Rightarrow>
                    (let w1 = pendingDelete r (resp_id response) w in
                     case resp_error response of
                       Some e \<Rightarrow> pendingReject h (Error (err_message e)) w1
                     | None \<Rightarrow> pendingResolve h (resp_result response) w1))))"

subsection \<open>Sending a request\<close>

text \<open>
  \<open>sendStdioRequest\<close> (mcp.ts 227-273) and \<open>sendHttpRequest\<close> (mcp.ts 426-496) have
  the same body up to the transport they check for and write to; \<open>sendVia\<close> is that
  body.  The result is the rejection of the returned promise when the function throws,
  and otherwise the handle of the promise it returns, which is settled later by a
  response, by the timer or by the failure of the write.
\<close>

definition notRunning :: "transport \<Rightarrow> js_string \<Rightarrow> js_string" where
  "notRunning t serverId =
     (case t of Stdio \<Rightarrow> str ''Stdio MCP server '' | Http \<Rightarrow> str ''HTTP MCP server '')
       @ serverId @ str '' is not running''"

definition sendVia ::
  "transport \<Rightarrow> js_string \<Rightarrow> js_string \<Rightarrow> json option \<Rightarrow> world \<Rightarrow> (js_error + nat) \<times> world" where
  "sendVia t serverId method params w =
     (case activeServers w serverId of
        None \<Rightarrow> (Inl (Error (notRunning t serverId)), w)
      | Some r \<Rightarrow>
          (case heap w r of
             None \<Rightarrow> (Inl (Error (notRunning t serverId)), w)
           | Some server \<Rightarrow>
               if srv_transport server \<noteq> t then (Inl (Error (notRunning t serverId)), w)
               else
                 (let i = NumId (of_nat (requestId server + 1));
                      request = \<lparr>req_id = i, req_method = method, req_params = params\<rparr>;
                      h = nextHandle w;
                      cl = \<lparr>cl_serverId = serverId, cl_server = r, cl_id = i, cl_method = method\<rparr>;
                      server' = server\<lparr>requestId := requestId server + 1,
                                        pendingRequests := (pendingRequests server)(i \<mapsto> h)\<rparr>;
                      w1 = w\<lparr>heap := (heap w)(r \<mapsto> server'),
                              promises := (promises w)(h \<mapsto> Pending),
                              timers := (timers w)(h \<mapsto> cl),
                              transports := (transports w)(h \<mapsto> cl),
                              nextHandle := h + 1\<rparr>
                  in (Inr h,
                      emit [case t of
                              Stdio \<Rightarrow> WriteStdin serverId (Request request)
                            | Http \<Rightarrow> FetchPost (srv_url server) (Request request)] w1))))"

definition sendStdioRequest ::
  "js_string \<Rightarrow> js_string \<Rightarrow> json option \<Rightarrow> world \<Rightarrow> (js_error + nat) \<times> world" where
  "sendStdioRequest = sendVia Stdio"

definition sendHttpRequest ::
  "js_string \<Rightarrow> js_string \<Rightarrow> json option \<Rightarrow> world \<Rightarrow> (js_error + nat) \<times> world" where
  "sendHttpRequest = sendVia Http"

subsection \<open>The callbacks of a request\<close>

text \<open>
  The timer callback (mcp.ts 250-253, 449-452).  The runtime runs it only while the
  timer is armed: a timer that was cleared, or has fired, never fires.
\<close>

definition timeoutFires :: "nat \<Rightarrow> world \<Rightarrow> world" where
  "timeoutFires h w =
     (case timers w h of
        None \<Rightarrow> w
      | Some cl \<Rightarrow>
          (let e = Error (str ''Request timeout for '' @ cl_method cl);
               w1 = emit [TimerFired h] (w\<lparr>timers := (timers w)(h := None)\<rparr>);
               w2 = pendingDelete (cl_server cl) (cl_id cl) w1
           in settle h (Rejected e) (emit [RejectCalled h e] w2)))"

text \<open>
  The \<open>.catch\<close> callback of the write to stdin (mcp.ts 268-271) and of the POST
  (mcp.ts 491-494): it calls the promise's own \<open>reject\<close>, which does not clear the
  timer.
\<close>

definition transportFails :: "nat \<Rightarrow> js_error \<Rightarrow> world \<Rightarrow> world" where
  "transportFails h e w =
     (case transports w h of
        None \<Rightarrow> w
      | Some cl \<Rightarrow>
          (let w1 = w\<lparr>transports := (transports w)(h := None)\<rparr>;
               w2 = pendingDelete (cl_server cl) (cl_id cl) w1
           in settle h (Rejected e) (emit [RejectCalled h e] w2)))"

text \<open>
  The write or the POST succeeds.  Over HTTP the body of the POST's response may be the
  JSON-RPC response itself (mcp.ts 485-490): \<open>direct\<close> is that body when it is a
  JSON-RPC 2.0 message, and it is handed to \<open>handleResponse\<close> when its id is the
  request's.
\<close>

definition transportDone :: "nat \<Rightarrow> JsonRpcResponse option \<Rightarrow> world \<Rightarrow> world" where
  "transportDone h direct w =
     (case transports w h of
        None \<Rightarrow> w
      | Some cl \<Rightarrow>
          (let w1 = w\<lparr>transports := (transports w)(h := None)\<rparr> in
           case heap w (cl_server cl) of
             None \<Rightarrow> w1
           | Some server \<Rightarrow>
               (case (srv_transport server, direct) of
                  (Http, Some d) \<Rightarrow>
                    if resp_id d = cl_id cl then handleResponse (cl_serverId cl) d w1 else w1
                | _ \<Rightarrow> w1)))"

subsection \<open>Sessions and runs of the correlator\<close>

text \<open>The fresh state object of \<open>startStdioServer\<close> (mcp.ts 128-133) and of
  \<open>startHttpServer\<close> (mcp.ts 314-320), and \<open>activeServers.set(config.id, serverState)\<close>.\<close>

definition newServerState :: "transport \<Rightarrow> js_string \<Rightarrow> server_state" where
  "newServerState t url =
     \<lparr>srv_transport = t, requestId = 0, pendingRequests = Map.empty, buffer = [],
      eventSource = False, sessionId = None, srv_url = url\<rparr>"

definition registerSession :: "js_string \<Rightarrow> server_state \<Rightarrow> world \<Rightarrow> world" where
  "registerSession serverId sv w =
     w\<lparr>heap := (heap w)(nextRef w \<mapsto> sv),
       activeServers := (activeServers w)(serverId \<mapsto> nextRef w),
       nextRef := nextRef w + 1\<rparr>"

definition initialWorld :: "MCPServerConfig list \<Rightarrow> world" where
  "initialWorld cfgs =
     \<lparr>heap = Map.empty, activeServers = Map.empty, serverStates = Map.empty,
      servers = cfgs, promises = Map.empty, timers = Map.empty, transports = Map.empty,
      listeners = Map.empty, nextRef = 0, nextHandle = 0, effects = []\<rparr>"

text \<open>
  What can happen to the correlators of the running sessions, one event at a time (the
  runtime is single-threaded): a session is registered under an id that has none, a
  request is sent the way \<open>callTool\<close> picks the sender (by the session's transport), a
  response is delivered to \<open>handleResponse\<close>, a timer fires, a write or POST fails or
  completes.
\<close>

datatype event =
    EvRegister js_string transport
  | EvSend js_string js_string "json option"
  | EvResponse js_string JsonRpcResponse
  | EvTimeout nat
  | EvTransportFail nat js_error
  | EvTransportDone nat "JsonRpcResponse option"

definition sendFn :: "js_string \<Rightarrow> js_string \<Rightarrow> json option \<Rightarrow> world \<Rightarrow> (js_error + nat) \<times> world" where
  "sendFn serverId method params w =
     (case activeServers w serverId of
        None \<Rightarrow> sendStdioRequest serverId method params w
      | Some r \<Rightarrow>
          (case heap w r of
             None \<Rightarrow> sendStdioRequest serverId method params w
           | Some server \<Rightarrow>
               if srv_transport server = Stdio then sendStdioRequest serverId method params w
               else sendHttpRequest serverId method params w))"

fun step :: "event \<Rightarrow> world \<Rightarrow> world" where
  "step (EvRegister serverId t) w =
     (if activeServers w serverId \<noteq> None then w
      else registerSession serverId (newServerState t []) w)"
| "step (EvSend serverId method params) w = snd (sendFn serverId method params w)"
| "step (EvResponse serverId response) w = handleResponse serverId response w"
| "step (EvTimeout h) w = timeoutFires h w"
| "step (EvTransportFail h e) w = transportFails h e w"
| "step (EvTransportDone h direct) w = transportDone h direct w"

definition run :: "event list \<Rightarrow> world \<Rightarrow> world" where
  "run evs w = foldl (\<lambda>w e. step e w) w evs"

section \<open>Server lifecycle (services/mcp.ts, store/mcp-store.ts)\<close>

subsection \<open>Runtime state in the MCP store\<close>

text \<open>
  The argument of \<open>setServerState\<close> is a \<open>Partial<MCPServerState>\<close>: each key may be
  absent.  The key \<open>error\<close> may also be present with the value \<open>undefined\<close>
  (\<open>Some None\<close>), which the spread copies over the old value.
\<close>

record state_update =
  upd_status :: "server_status option"
  upd_tools :: "MCPTool list option"
  upd_error :: "js_string option option"

definition noUpdate :: state_update where
  "noUpdate = \<lparr>upd_status = None, upd_tools = None, upd_error = None\<rparr>"

text \<open>\<open>setServerState\<close> and \<open>clearServerState\<close> (mcp-store.ts).\<close>

definition setServerState :: "js_string \<Rightarrow> state_update \<Rightarrow> world \<Rightarrow> world" where
  "setServerState i u w =
     (let currentState =
            (case serverStates w i of
               Some s \<Rightarrow> s
             | None \<Rightarrow> \<lparr>ss_id = i, ss_status = Disconnected, ss_tools = [], ss_error = None\<rparr>);
          merged = currentState
            \<lparr>ss_status := (case upd_status u of Some x \<Rightarrow> x | None \<Rightarrow> ss_status currentState),
             ss_tools := (case upd_tools u of Some x \<Rightarrow> x | None \<Rightarrow> ss_tools currentState),
             ss_error := (case upd_error u of Some x \<Rightarrow> x | None \<Rightarrow> ss_error currentState)\<rparr>
      in w\<lparr>serverStates := (serverStates w)(i \<mapsto> merged)\<rparr>)"

definition clearServerState :: "js_string \<Rightarrow> world \<Rightarrow> world" where
  "clearServerState i w = w\<lparr>serverStates := (serverStates w)(i := None)\<rparr>"

subsection \<open>Awaiting a request\<close>

text \<open>
  How a request that was sent ends.  The server replies with the request's id (a result,
  possibly absent, or an error object), or it never replies and the timer fires, or the
  write to the transport fails.
\<close>

datatype completion =
    Replied "json option" "JsonRpcError option"
  | TimedOut
  | TransportFailed js_error

text \<open>
  \<open>await sendFn(serverId, method, params)\<close>: the request is sent, the environment
  completes it, and the awaiting code continues with the value the promise was resolved
  with or with the error it was rejected with.  A reply is delivered after the write has
  completed.  (The promise is settled after each of the three completions, see
  \<open>awaitRequest_settled\<close> below; the last case of \<open>awaited\<close> is never taken.)
\<close>

definition completeRequest :: "js_string \<Rightarrow> nat \<Rightarrow> completion \<Rightarrow> world \<Rightarrow> world" where
  "completeRequest serverId h c w =
     (case c of
        Replied res err \<Rightarrow>
          (case timers w h of
             None \<Rightarrow> w
           | Some cl \<Rightarrow>
               handleResponse serverId
                 \<lparr>resp_id = cl_id cl, resp_result = res, resp_error = err\<rparr>
                 (transportDone h None w))
      | TimedOut \<Rightarrow> timeoutFires h (transportDone h None w)
      | TransportFailed e \<Rightarrow> transportFails h e w)"

definition awaited :: "world \<Rightarrow> nat \<Rightarrow> js_error + json option" where
  "awaited w h =
     (case promises w h of
        Some (Resolved v) \<Rightarrow> Inr v
      | Some (Rejected e) \<Rightarrow> Inl e
      | _ \<Rightarrow> Inl (Error (str ''unsettled'')))"

definition awaitRequest ::
  "transport \<Rightarrow> js_string \<Rightarrow> js_string \<Rightarrow> json option \<Rightarrow> completion \<Rightarrow> world
     \<Rightarrow> (js_error + json option) \<times> world" where
  "awaitRequest t serverId method params c w =
     (case sendVia t serverId method params w of
        (Inl e, w1) \<Rightarrow> (Inl e, w1)
      | (Inr h, w1) \<Rightarrow>
          (awaited (completeRequest serverId h c w1) h, completeRequest serverId h c w1))"

subsection \<open>Reading the tool list\<close>

text \<open>Property access \<open>v.key\<close> on a parsed JSON value that is not null: an object
  yields its last binding of the key; the keys read here are not properties of
  arrays, strings, numbers or booleans.\<close>

fun getProp :: "js_string \<Rightarrow> json \<Rightarrow> json option" where
  "getProp k (JObj kvs) = map_of (rev kvs) k"
| "getProp k v = None"

text \<open>JavaScript truthiness of a parsed JSON value.\<close>

fun truthy :: "json \<Rightarrow> bool" where
  "truthy JNull = False"
| "truthy (JBool b) = b"
| "truthy (JNum n) = (n \<noteq> 0)"
| "truthy (JStr s) = (s \<noteq> [])"
| "truthy (JArr xs) = True"
| "truthy (JObj kvs) = True"

text \<open>
  The unchecked cast of the \<open>tools\<close> value to \<open>MCPTool[]\<close>.  An array of objects is
  read field by field; a value outside the declared type is not represented and is
  taken as the empty list, a missing field as the empty string or object.
\<close>

definition asString :: "json option \<Rightarrow> js_string" where
  "asString v = (case v of Some (JStr s) \<Rightarrow> s | _ \<Rightarrow> [])"

definition asTool :: "json \<Rightarrow> MCPTool" where
  "asTool v =
     \<lparr>tool_name = asString (getProp (str ''name'') v),
      tool_description = asString (getProp (str ''description'') v),
      inputSchema = (case getProp (str ''inputSchema'') v of Some x \<Rightarrow> x | None \<Rightarrow> JObj [])\<rparr>"

definition asTools :: "json \<Rightarrow> MCPTool list" where
  "asTools v = (case v of JArr xs \<Rightarrow> map asTool xs | _ \<Rightarrow> [])"

text \<open>\<open>result?.tools || []\<close> (mcp.ts 295 and 528).\<close>

definition toolsOfResult :: "json option \<Rightarrow> MCPTool list" where
  "toolsOfResult result =
     (case result of
        None \<Rightarrow> []
      | Some JNull \<Rightarrow> []
      | Some v \<Rightarrow>
          (case getProp (str ''tools'') v of
             None \<Rightarrow> []
           | Some ts \<Rightarrow> if truthy ts then asTools ts else []))"

text \<open>\<open>listToolsStdio\<close> (mcp.ts 291-296) and \<open>listToolsHttp\<close> (mcp.ts 524-529).\<close>

definition listToolsStdio :: "js_string \<Rightarrow> completion \<Rightarrow> world \<Rightarrow> (js_error + MCPTool list) \<times> world" where
  "listToolsStdio serverId c w =
     (case awaitRequest Stdio serverId (str ''tools/list'') None c w of
        (Inl e, w1) \<Rightarrow> (Inl e, w1)
      | (Inr result, w1) \<Rightarrow> (Inr (toolsOfResult result), w1))"

definition listToolsHttp :: "js_string \<Rightarrow> completion \<Rightarrow> world \<Rightarrow> (js_error + MCPTool list) \<times> world" where
  "listToolsHttp serverId c w =
     (case awaitRequest Http serverId (str ''tools/list'') None c w of
        (Inl e, w1) \<Rightarrow> (Inl e, w1)
      | (Inr result, w1) \<Rightarrow> (Inr (toolsOfResult result), w1))"

subsection \<open>The handshake\<close>

text \<open>The parameters of \<open>initialize\<close> (mcp.ts 276-280), with
  \<open>MCP_PROTOCOL_VERSION\<close> and \<open>MCP_CLIENT_INFO\<close> of constants/mcp-defaults.ts 23-28.\<close>

definition initializeParams :: json where
  "initializeParams =
     JObj [(str ''protocolVersion'', JStr (str ''2024-11-05'')),
           (str ''capabilities'', JObj [(str ''tools'', JObj [])]),
           (str ''clientInfo'',
            JObj [(str ''name'', JStr (str ''ai-playground'')),
                  (str ''version'', JStr (str ''0.1.0-beta.1''))])]"

text \<open>\<open>initializeStdioServer\<close> (mcp.ts 275-289): the request, then the notification
  written to stdin; \<open>notify\<close> is the error of that write, if it fails.\<close>

definition initializeStdioServer ::
  "js_string \<Rightarrow> completion \<Rightarrow> js_error option \<Rightarrow> world \<Rightarrow> js_error option \<times> world" where
  "initializeStdioServer serverId c notify w =
     (case awaitRequest Stdio serverId (str ''initialize'') (Some initializeParams) c w of
        (Inl e, w1) \<Rightarrow> (Some e, w1)
      | (Inr v, w1) \<Rightarrow>
          (notify, emit [WriteStdin serverId (Notification (str ''notifications/initialized''))] w1))"

text \<open>\<open>initializeHttpServer\<close> (mcp.ts 498-522).\<close>

definition initializeHttpServer ::
  "js_string \<Rightarrow> completion \<Rightarrow> js_error option \<Rightarrow> world \<Rightarrow> js_error option \<times> world" where
  "initializeHttpServer serverId c notify w =
     (case awaitRequest Http serverId (str ''initialize'') (Some initializeParams) c w of
        (Inl e, w1) \<Rightarrow> (Some e, w1)
      | (Inr v, w1) \<Rightarrow>
          (case activeServers w1 serverId of
             None \<Rightarrow> (None, w1)
           | Some r \<Rightarrow>
               (case heap w1 r of
                  None \<Rightarrow> (None, w1)
                | Some server \<Rightarrow>
                    (notify,
                     emit [FetchPost (srv_url server)
                             (Notification (str ''notifications/initialized''))] w1))))"

subsection \<open>Starting a server\<close>

text \<open>
  What the host and the tool server answer during one call of \<open>startStdioServer\<close>, in
  the order the function awaits them: the two \<open>listen\<close> calls, the spawn, the
  \<open>initialize\<close> request, the write of the notification, the \<open>tools/list\<close> request.
\<close>

record stdio_env =
  listenStdout :: "js_error option"
  listenStderr :: "js_error option"
  spawn :: "js_error option"
  initReply :: completion
  notifyWrite :: "js_error option"
  toolsReply :: completion

text \<open>The \<open>catch\<close> block of \<open>startStdioServer\<close> (mcp.ts 189-202).\<close>

definition startStdioFailed :: "js_string \<Rightarrow> js_error \<Rightarrow> world \<Rightarrow> js_error option \<times> world" where
  "startStdioFailed i e w =
     (let w1 = setServerState i
                 (noUpdate\<lparr>upd_status := Some ErrorStatus, upd_error := Some (Some (errorMessage e))\<rparr>) w
      in (Some e,
          (case activeServers w1 i of
             None \<Rightarrow> w1
           | Some r \<Rightarrow>
               w1\<lparr>listeners := (listeners w1)(r := None),
                  activeServers := (activeServers w1)(i := None)\<rparr>)))"

text \<open>\<open>startStdioServer\<close> (mcp.ts 113-203).  The result is the error the returned
  promise is rejected with, if any.\<close>

definition startStdioServer :: "MCPServerConfig \<Rightarrow> stdio_env \<Rightarrow> world \<Rightarrow> js_error option \<times> world" where
  "startStdioServer config env w =
     (if activeServers w (cfg_id config) \<noteq> None then (None, w)
      else
        (let i = cfg_id config;
             w1 = setServerState i
                    (noUpdate\<lparr>upd_status := Some Connecting, upd_error := Some None\<rparr>) w;
             r = nextRef w1;
             w2 = w1\<lparr>heap := (heap w1)(r \<mapsto> newServerState Stdio []), nextRef := r + 1\<rparr>
         in case listenStdout env of
              Some e \<Rightarrow> startStdioFailed i e w2
            | None \<Rightarrow>
                (let w3 = w2\<lparr>listeners := (listeners w2)(r \<mapsto> i)\<rparr> in
                 case listenStderr env of
                   Some e \<Rightarrow> startStdioFailed i e w3
                 | None \<Rightarrow>
                     (let w4 = emit [SpawnServer i] (w3\<lparr>activeServers := (activeServers w3)(i \<mapsto> r)\<rparr>) in
                      case spawn env of
                        Some e \<Rightarrow> startStdioFailed i e w4
                      | None \<Rightarrow>
                          (case initializeStdioServer i (initReply env) (notifyWrite env) w4 of
                             (Some e, w5) \<Rightarrow> startStdioFailed i e w5
                           | (None, w5) \<Rightarrow>
                               (case listToolsStdio i (toolsReply env) w5 of
                                  (Inl e, w6) \<Rightarrow> startStdioFailed i e w6
                                | (Inr tools, w6) \<Rightarrow>
                                    (None,
                                     setServerState i
                                       (noUpdate\<lparr>upd_status := Some Connected,
                                                 upd_tools := Some tools\<rparr>) w6)))))))"

text \<open>
  How \<open>connectHttpSSE\<close> (mcp.ts 348-407) ends: the URL is rejected by \<open>new URL\<close>
  before an event source exists, or the event source opens, reports an error, or is
  closed by the connection timeout.
\<close>

datatype sse_outcome = SseBadUrl js_error | SseOpened | SseError | SseTimeout

record http_env =
  sse :: sse_outcome
  httpInitReply :: completion
  httpNotify :: "js_error option"
  httpToolsReply :: completion

definition connectHttpSSE :: "js_string \<Rightarrow> nat \<Rightarrow> sse_outcome \<Rightarrow> world \<Rightarrow> js_error option \<times> world" where
  "connectHttpSSE serverId r out w =
     (case out of
        SseBadUrl e \<Rightarrow> (Some e, w)
      | _ \<Rightarrow>
          (let w1 = emit [NewEventSource serverId]
                      (case heap w r of
                         None \<Rightarrow> w
                       | Some server \<Rightarrow> w\<lparr>heap := (heap w)(r \<mapsto> server\<lparr>eventSource := True\<rparr>)\<rparr>)
           in case out of
                SseOpened \<Rightarrow> (None, w1)
              | SseError \<Rightarrow> (Some (Error (str ''Failed to connect to SSE endpoint'')), w1)
              | _ \<Rightarrow> (Some (Error (str ''SSE connection timeout'')), emit [CloseEventSource r] w1)))"

text \<open>The \<open>catch\<close> block of \<open>startHttpServer\<close> (mcp.ts 333-345).\<close>

definition startHttpFailed :: "js_string \<Rightarrow> js_error \<Rightarrow> world \<Rightarrow> js_error option \<times> world" where
  "startHttpFailed i e w =
     (let w1 = setServerState i
                 (noUpdate\<lparr>upd_status := Some ErrorStatus, upd_error := Some (Some (errorMessage e))\<rparr>) w;
          w2 = (case activeServers w1 i of
                  None \<Rightarrow> w1
                | Some r \<Rightarrow>
                    (case heap w1 r of
                       None \<Rightarrow> w1
                     | Some server \<Rightarrow> if eventSource server then emit [CloseEventSource r] w1 else w1))
      in (Some e, w2\<lparr>activeServers := (activeServers w2)(i := None)\<rparr>))"

text \<open>\<open>startHttpServer\<close> (mcp.ts 302-346).\<close>

definition startHttpServer :: "MCPServerConfig \<Rightarrow> http_env \<Rightarrow> world \<Rightarrow> js_error option \<times> world" where
  "startHttpServer config env w =
     (if activeServers w (cfg_id config) \<noteq> None then (None, w)
      else
        (let i = cfg_id config;
             w1 = setServerState i
                    (noUpdate\<lparr>upd_status := Some Connecting, upd_error := Some None\<rparr>) w;
             r = nextRef w1;
             w2 = registerSession i (newServerState Http (cfg_url config)) w1
         in case connectHttpSSE i r (sse env) w2 of
              (Some e, w3) \<Rightarrow> startHttpFailed i e w3
            | (None, w3) \<Rightarrow>
                (case initializeHttpServer i (httpInitReply env) (httpNotify env) w3 of
                   (Some e, w4) \<Rightarrow> startHttpFailed i e w4
                 | (None, w4) \<Rightarrow>
                     (case listToolsHttp i (httpToolsReply env) w4 of
                        (Inl e, w5) \<Rightarrow> startHttpFailed i e w5
                      | (Inr tools, w5) \<Rightarrow>
                          (None,
                           setServerState i
                             (noUpdate\<lparr>upd_status := Some Connected, upd_tools := Some tools\<rparr>)
                             w5)))))"

text \<open>\<open>startMCPServer\<close> (mcp.ts 80-90); the two transports are all there are.\<close>

record start_env =
  stdioEnv :: stdio_env
  httpEnv :: http_env

definition startMCPServer :: "MCPServerConfig \<Rightarrow> start_env \<Rightarrow> world \<Rightarrow> js_error option \<times> world" where
  "startMCPServer config env w =
     (case cfg_transport config of
        Stdio \<Rightarrow> startStdioServer config (stdioEnv env) w
      | Http \<Rightarrow> startHttpServer config (httpEnv env) w)"

subsection \<open>Stopping a server\<close>

text \<open>\<open>stopStdioServer\<close> (mcp.ts 205-225); \<open>kill\<close> is the error of
  \<open>invoke('kill_mcp_server')\<close>, if it fails.\<close>

definition stopStdioServer :: "js_string \<Rightarrow> nat \<Rightarrow> js_error option \<Rightarrow> world \<Rightarrow> world" where
  "stopStdioServer serverId r kill w =
     (let w1 = emit [KillServer serverId] (w\<lparr>listeners := (listeners w)(r := None)\<rparr>) in
      case kill of
        None \<Rightarrow> clearServerState serverId (w1\<lparr>activeServers := (activeServers w1)(serverId := None)\<rparr>)
      | Some e \<Rightarrow>
          setServerState serverId
            (noUpdate\<lparr>upd_status := Some ErrorStatus, upd_error := Some (Some (errorMessage e))\<rparr>) w1)"

text \<open>\<open>stopHttpServer\<close> (mcp.ts 409-424).\<close>

definition stopHttpServer :: "js_string \<Rightarrow> nat \<Rightarrow> world \<Rightarrow> world" where
  "stopHttpServer serverId r w =
     (let w1 = (case heap w r of
                  None \<Rightarrow> w
                | Some server \<Rightarrow> if eventSource server then emit [CloseEventSource r] w else w)
      in clearServerState serverId (w1\<lparr>activeServers := (activeServers w1)(serverId := None)\<rparr>))"

text \<open>\<open>stopMCPServer\<close> (mcp.ts 95-107).\<close>

definition stopMCPServer :: "js_string \<Rightarrow> js_error option \<Rightarrow> world \<Rightarrow> world" where
  "stopMCPServer serverId kill w =
     (case activeServers w serverId of
        None \<Rightarrow> w
      | Some r \<Rightarrow>
          (case heap w r of
             None \<Rightarrow> w
           | Some server \<Rightarrow>
               if srv_transport server = Stdio then stopStdioServer serverId r kill w
               else stopHttpServer serverId r w))"

text \<open>\<open>isServerRunning\<close> and \<open>getRunningServerIds\<close> (mcp.ts 622-631).\<close>

definition isServerRunning :: "js_string \<Rightarrow> world \<Rightarrow> bool" where
  "isServerRunning serverId w = (activeServers w serverId \<noteq> None)"


section \<open>Calling tools (services/mcp.ts)\<close>

record MCPContent =
  c_type :: js_string
  c_text :: "js_string option"
  c_data :: "js_string option"
  c_mimeType :: "js_string option"

record MCPToolCallResult =
  content :: "MCPContent list"
  isError :: "bool option"

definition textContent :: "js_string \<Rightarrow> MCPContent" where
  "textContent s = \<lparr>c_type = str ''text'', c_text = Some s, c_data = None, c_mimeType = None\<rparr>"

text \<open>
  The unchecked cast of a request's result to \<open>MCPToolCallResult\<close>.  \<open>None\<close> stands
  for a value on which the caller's \<open>result.content.map(c => c.text ...)\<close> throws a
  \<open>TypeError\<close>: no object, no \<open>content\<close> array, or a null item in it.  Fields outside
  their declared types are not represented (taken as absent).
\<close>

definition asOptString :: "json option \<Rightarrow> js_string option" where
  "asOptString v = (case v of Some (JStr s) \<Rightarrow> Some s | _ \<Rightarrow> None)"

definition asContent :: "json \<Rightarrow> MCPContent option" where
  "asContent v =
     (case v of
        JNull \<Rightarrow> None
      | _ \<Rightarrow> Some \<lparr>c_type = asString (getProp (str ''type'') v),
                   c_text = asOptString (getProp (str ''text'') v),
                   c_data = asOptString (getProp (str ''data'') v),
                   c_mimeType = asOptString (getProp (str ''mimeType'') v)\<rparr>)"

definition asToolCallResult :: "json option \<Rightarrow> MCPToolCallResult option" where
  "asToolCallResult result =
     (case result of
        Some (JObj kvs) \<Rightarrow>
          (case getProp (str ''content'') (JObj kvs) of
             Some (JArr items) \<Rightarrow>
               if list_all (\<lambda>v. asContent v \<noteq> None) items
               then Some \<lparr>content = map (\<lambda>v. the (asContent v)) items,
                          isError = map_option truthy (getProp (str ''isError'') (JObj kvs))\<rparr>
               else None
           | _ \<Rightarrow> None)
      | _ \<Rightarrow> None)"

text \<open>\<open>callTool\<close> (mcp.ts 561-595); \<open>c\<close> is how the \<open>tools/call\<close> request ends if
  it is sent.\<close>

definition callTool ::
  "js_string \<Rightarrow> js_string \<Rightarrow> json \<Rightarrow> completion \<Rightarrow> world \<Rightarrow> MCPToolCallResult option \<times> world" where
  "callTool serverId toolName args c w =
     (case activeServers w serverId of
        None \<Rightarrow>
          (Some \<lparr>content = [textContent (str ''Error: Server '' @ serverId @ str '' not running'')],
                 isError = Some True\<rparr>, w)
      | Some r \<Rightarrow>
          (let t = (case heap w r of Some server \<Rightarrow> srv_transport server | None \<Rightarrow> Stdio) in
           case awaitRequest t serverId (str ''tools/call'')
                  (Some (JObj [(str ''name'', JStr toolName), (str ''arguments'', args)])) c w of
             (Inr result, w1) \<Rightarrow> (asToolCallResult result, w1)
           | (Inl e, w1) \<Rightarrow>
               (Some \<lparr>content = [textContent (str ''Error: '' @ errorMessage e)],
                      isError = Some True\<rparr>, w1)))"

text \<open>\<open>findToolServer\<close> (mcp.ts 636-649): the loop over the configured servers.\<close>

fun findToolServerIn ::
  "js_string \<Rightarrow> (js_string \<rightharpoonup> MCPServerState) \<Rightarrow> MCPServerConfig list \<Rightarrow> js_string option" where
  "findToolServerIn toolName states [] = None"
| "findToolServerIn toolName states (server # rest) =
     (if \<not> cfg_enabled server then findToolServerIn toolName states rest
      else
        (case states (cfg_id server) of
           None \<Rightarrow> findToolServerIn toolName states rest
         | Some state \<Rightarrow>
             if ss_status state = Connected \<and> list_ex (\<lambda>t. tool_name t = toolName) (ss_tools state)
             then Some (cfg_id server)
             else findToolServerIn toolName states rest))"

definition findToolServer :: "js_string \<Rightarrow> world \<Rightarrow> js_string option" where
  "findToolServer toolName w = findToolServerIn toolName (serverStates w) (servers w)"

section \<open>Tool-call orchestration (hooks/use-chat-actions, store/chat-store.ts)\<close>

subsection \<open>Chat store\<close>

datatype role = User | Assistant | System | Tool

datatype tool_status = StatusPending | StatusExecuting | StatusSuccess | StatusError

record ToolCall =
  tc_id :: js_string
  tc_name :: js_string
  tc_arguments :: json

record ToolCallData =
  tcd_id :: js_string
  tcd_name :: js_string
  tcd_arguments :: json
  tcd_status :: tool_status
  tcd_result :: "js_string option"

text \<open>A chat message.  Message ids are the random strings of \<open>generateId\<close>; they are
  modelled as fresh numbers.  Only textual content is modelled.\<close>

record ChatMessage =
  msg_id :: nat
  msg_role :: role
  msg_content :: js_string
  isStreaming :: "bool option"
  toolCalls :: "ToolCallData list option"
  toolCallId :: "js_string option"
  toolName :: "js_string option"

record LLMResponse =
  llm_content :: js_string
  llm_toolCalls :: "ToolCall list option"

record llm_request =
  rq_modelId :: js_string
  rq_messages :: "ChatMessage list"
  rq_systemPrompt :: js_string
  rq_tools :: "MCPTool list option"

text \<open>
  The state one user turn works on: the MCP module and store (\<open>mcp\<close>), the messages
  of the active conversation, the flag of the turn's \<open>AbortController\<close> signal, how
  many LLM calls and tool calls were made so far (they index the environment's answers),
  the requests that reached the LLM provider, and the store's \<open>isGenerating\<close> and
  \<open>error\<close>.
\<close>

record orch =
  mcp :: world
  messages :: "ChatMessage list"
  nextMessageId :: nat
  aborted :: bool
  llmCallCount :: nat
  toolCallCount :: nat
  llmRequests :: "llm_request list"
  isGenerating :: bool
  chatError :: "js_string option"

text \<open>\<open>addMessage\<close>, \<open>updateMessage\<close>, \<open>updateMessageToolCalls\<close>,
  \<open>updateToolCallStatus\<close>, \<open>setMessageStreaming\<close> and \<open>selectActiveMessages\<close>
  (chat-store.ts), on the active conversation.\<close>

definition addMessage :: "ChatMessage \<Rightarrow> orch \<Rightarrow> orch" where
  "addMessage m s =
     s\<lparr>messages := messages s @ [m\<lparr>msg_id := nextMessageId s\<rparr>],
       nextMessageId := nextMessageId s + 1\<rparr>"

definition updateMessage :: "nat \<Rightarrow> js_string \<Rightarrow> orch \<Rightarrow> orch" where
  "updateMessage i c s =
     s\<lparr>messages := map (\<lambda>m. if msg_id m = i then m\<lparr>msg_content := c\<rparr> else m) (messages s)\<rparr>"

definition updateMessageToolCalls :: "nat \<Rightarrow> ToolCallData list \<Rightarrow> orch \<Rightarrow> orch" where
  "updateMessageToolCalls i tcs s =
     s\<lparr>messages := map (\<lambda>m. if msg_id m = i then m\<lparr>toolCalls := Some tcs\<rparr> else m) (messages s)\<rparr>"

definition updateToolCallStatus ::
  "nat \<Rightarrow> js_string \<Rightarrow> tool_status \<Rightarrow> js_string option \<Rightarrow> orch \<Rightarrow> orch" where
  "updateToolCallStatus messageId tcId status result s =
     s\<lparr>messages :=
         map (\<lambda>m. case toolCalls m of
                     None \<Rightarrow> m
                   | Some tcs \<Rightarrow>
                       if msg_id m \<noteq> messageId then m
                       else m\<lparr>toolCalls :=
                              Some (map (\<lambda>tc. if tcd_id tc = tcId
                                               then tc\<lparr>tcd_status := status,
                                                      tcd_result := (case result of
                                                                       Some x \<Rightarrow> Some x
                                                                     | None \<Rightarrow> tcd_result tc)\<rparr>
                                               else tc) tcs)\<rparr>)
             (messages s)\<rparr>"

definition setMessageStreaming :: "nat \<Rightarrow> bool \<Rightarrow> orch \<Rightarrow> orch" where
  "setMessageStreaming i b s =
     s\<lparr>messages := map (\<lambda>m. if msg_id m = i then m\<lparr>isStreaming := Some b\<rparr> else m) (messages s)\<rparr>"

definition selectActiveMessages :: "orch \<Rightarrow> ChatMessage list" where
  "selectActiveMessages s = messages s"

subsection \<open>Errors (lib/errors.ts)\<close>

text \<open>\<open>isAbortError\<close> and \<open>handleError\<close>.\<close>

fun isAbortError :: "js_error \<Rightarrow> bool" where
  "isAbortError (AbortError m) = True"
| "isAbortError e = False"

definition truncate200 :: "js_string \<Rightarrow> js_string" where
  "truncate200 m = (if length m > 200 then take 200 m @ str ''...'' else m)"

fun handleError :: "js_error \<Rightarrow> js_string" where
  "handleError (AbortError m) = str ''Operation was cancelled.''"
| "handleError (AppError m c u) = u"
| "handleError (Error m) = truncate200 m"
| "handleError (TypeError m) = truncate200 m"
| "handleError (ThrownString x) = str ''An unexpected error occurred.''"

subsection \<open>The environment of one turn\<close>

text \<open>
  What the outside answers during a turn.  For the \<open>k\<close>-th call of
  \<open>sendChatRequestWithTools\<close>: an error thrown before the request is made (unknown
  model, missing API key), the chunks handed to \<open>onChunk\<close>, the response or the error
  of the request, and whether the user pressed stop while the request was in flight.
  For the \<open>k\<close>-th call of \<open>callTool\<close>: how its request ends, and whether the user
  pressed stop while it was awaited.  \<open>stringifyContent\<close> is \<open>JSON.stringify\<close> on a
  content item, \<open>typeErrorMessage\<close> the runtime's message of the \<open>TypeError\<close> for a
  result without a content array.
\<close>

record llm_env =
  llm_preflight :: "js_error option"
  llm_chunks :: "js_string list"
  llm_result :: "js_error + LLMResponse"
  llm_stopDuring :: bool

record tool_env =
  tool_completion :: completion
  tool_stopDuring :: bool

record turn_env =
  llmEnv :: "nat \<Rightarrow> llm_env"
  toolEnv :: "nat \<Rightarrow> tool_env"
  stringifyContent :: "MCPContent \<Rightarrow> js_string"
  typeErrorMessage :: js_string

subsection \<open>The LLM request\<close>

text \<open>
  \<open>sendChatRequestWithTools\<close> (services/llm), as far as the turn depends on it: the
  checks before the request, then \<open>fetch\<close> with the turn's signal.  A \<open>fetch\<close> whose
  signal is already aborted rejects with an \<open>AbortError\<close> without a request; one
  aborted in flight rejects with an \<open>AbortError\<close>.  \<open>onChunk\<close> is the callback of
  \<open>handleChatCompletion\<close>: it appends the chunk to \<open>fullResponse\<close> and writes that to
  the assistant message.
\<close>

fun onChunks :: "nat \<Rightarrow> js_string \<Rightarrow> js_string list \<Rightarrow> orch \<Rightarrow> orch" where
  "onChunks i fullResponse [] s = s"
| "onChunks i fullResponse (chunk # rest) s =
     onChunks i (fullResponse @ chunk) rest (updateMessage i (fullResponse @ chunk) s)"

definition sendChatRequestWithTools ::
  "turn_env \<Rightarrow> llm_request \<Rightarrow> nat \<Rightarrow> orch \<Rightarrow> (js_error + LLMResponse) \<times> orch" where
  "sendChatRequestWithTools env rq assistantId s =
     (let e = llmEnv env (llmCallCount s);
          s1 = s\<lparr>llmCallCount := llmCallCount s + 1\<rparr>
      in case llm_preflight e of
           Some err \<Rightarrow> (Inl err, s1)
         | None \<Rightarrow>
             if aborted s1 then (Inl (AbortError (str ''The operation was aborted.'')), s1)
             else
               (let s2 = onChunks assistantId [] (llm_chunks e)
                           (s1\<lparr>llmRequests := llmRequests s1 @ [rq]\<rparr>)
                in if llm_stopDuring e
                   then (Inl (AbortError (str ''The operation was aborted.'')), s2\<lparr>aborted := True\<rparr>)
                   else (llm_result e, s2)))"

subsection \<open>Executing tool calls\<close>

text \<open>\<open>result.content.map(c => c.text || JSON.stringify(c)).join('\n')\<close>\<close>

fun joinLines :: "js_string list \<Rightarrow> js_string" where
  "joinLines [] = []"
| "joinLines [x] = x"
| "joinLines (x # y # rest) = x @ [0x0A] @ joinLines (y # rest)"

definition resultText :: "turn_env \<Rightarrow> MCPToolCallResult \<Rightarrow> js_string" where
  "resultText env result =
     joinLines (map (\<lambda>c. case c_text c of
                            Some t \<Rightarrow> if t \<noteq> [] then t else stringifyContent env c
                          | None \<Rightarrow> stringifyContent env c) (content result))"

text \<open>One round of the loop of \<open>executeToolCalls\<close>.  The call of \<open>callTool\<close> is the
  only place where a request can leave; the user may press stop while it is awaited.\<close>

definition executeToolCall ::
  "turn_env \<Rightarrow> nat \<Rightarrow> ToolCall \<Rightarrow> orch \<Rightarrow> (js_string \<times> js_string \<times> js_string) \<times> orch" where
  "executeToolCall env messageId tc s =
     (let s1 = updateToolCallStatus messageId (tc_id tc) StatusExecuting None s in
      case findToolServer (tc_name tc) (mcp s1) of
        None \<Rightarrow>
          (let errorResult = str ''Error: Tool \"'' @ tc_name tc
                               @ str ''\" not found in any connected MCP server''
           in ((tc_id tc, tc_name tc, errorResult),
               updateToolCallStatus messageId (tc_id tc) StatusError (Some errorResult) s1))
      | Some serverId \<Rightarrow>
          (let te = toolEnv env (toolCallCount s1);
               (r, w1) = callTool serverId (tc_name tc) (tc_arguments tc) (tool_completion te) (mcp s1);
               s2 = s1\<lparr>mcp := w1, toolCallCount := toolCallCount s1 + 1,
                       aborted := (aborted s1 \<or> tool_stopDuring te)\<rparr>
           in case r of
                Some result \<Rightarrow>
                  (let txt = resultText env result in
                   ((tc_id tc, tc_name tc, txt),
                    updateToolCallStatus messageId (tc_id tc)
                      (if isError result = Some True then StatusError else StatusSuccess)
                      (Some txt) s2))
              | None \<Rightarrow>
                  (let errorResult = handleError (TypeError (typeErrorMessage env)) in
                   ((tc_id tc, tc_name tc, errorResult),
                    updateToolCallStatus messageId (tc_id tc) StatusError (Some errorResult) s2))))"

text \<open>\<open>executeToolCalls\<close> (use-chat-actions 282-324).\<close>

fun executeToolCalls ::
  "turn_env \<Rightarrow> nat \<Rightarrow> ToolCall list \<Rightarrow> orch \<Rightarrow> (js_string \<times> js_string \<times> js_string) list \<times> orch" where
  "executeToolCalls env messageId [] s = ([], s)"
| "executeToolCalls env messageId (tc # rest) s =
     (let (res, s1) = executeToolCall env messageId tc s;
          (ress, s2) = executeToolCalls env messageId rest s1
      in (res # ress, s2))"

subsection \<open>The loop of one turn\<close>

text \<open>\<open>getAvailableTools\<close> (use-chat-actions 266-279).\<close>

fun availableToolsIn :: "(js_string \<rightharpoonup> MCPServerState) \<Rightarrow> MCPServerConfig list \<Rightarrow> MCPTool list" where
  "availableToolsIn states [] = []"
| "availableToolsIn states (server # rest) =
     (if \<not> cfg_enabled server then availableToolsIn states rest
      else
        (case states (cfg_id server) of
           None \<Rightarrow> availableToolsIn states rest
         | Some state \<Rightarrow>
             if ss_status state = Connected then ss_tools state @ availableToolsIn states rest
             else availableToolsIn states rest))"

definition getAvailableTools :: "orch \<Rightarrow> MCPTool list" where
  "getAvailableTools s = availableToolsIn (serverStates (mcp s)) (servers (mcp s))"

definition maxIterations :: nat where
  "maxIterations = 10"

definition enhancedSystemPrompt :: "js_string \<Rightarrow> MCPTool list \<Rightarrow> js_string" where
  "enhancedSystemPrompt systemPrompt tools =
     (if tools = [] then systemPrompt
      else (if systemPrompt \<noteq> [] then systemPrompt else str ''You are a helpful assistant.'')
           @ [0x0A, 0x0A] @ str ''You have access to the following tools:'' @ [0x0A]
           @ joinLines (map (\<lambda>t. str ''- '' @ tool_name t @ str '': '' @ tool_description t) tools)
           @ [0x0A, 0x0A]
           @ str ''Use these tools when appropriate to help answer the user's questions.'')"

definition toolMessage :: "js_string \<times> js_string \<times> js_string \<Rightarrow> ChatMessage" where
  "toolMessage res =
     (case res of (i, n, r) \<Rightarrow>
        \<lparr>msg_id = 0, msg_role = Tool, msg_content = r, isStreaming = None, toolCalls = None,
         toolCallId = Some i, toolName = Some n\<rparr>)"

definition assistantPlaceholder :: ChatMessage where
  "assistantPlaceholder =
     \<lparr>msg_id = 0, msg_role = Assistant, msg_content = [], isStreaming = Some True,
      toolCalls = None, toolCallId = None, toolName = None\<rparr>"

definition pendingToolCall :: "ToolCall \<Rightarrow> ToolCallData" where
  "pendingToolCall tc =
     \<lparr>tcd_id = tc_id tc, tcd_name = tc_name tc, tcd_arguments = tc_arguments tc,
      tcd_status = StatusPending, tcd_result = None\<rparr>"

text \<open>
  The \<open>while\<close> loop of \<open>handleChatCompletion\<close> (use-chat-actions 430-489), entered
  with the current values of its variables.  The result is the error thrown out of the
  loop, if any, the final \<open>currentAssistantId\<close> and \<open>iterations\<close>, and the state.
\<close>

function chatLoop ::
  "turn_env \<Rightarrow> js_string \<Rightarrow> js_string \<Rightarrow> MCPTool list \<Rightarrow> ChatMessage list \<Rightarrow> nat \<Rightarrow> bool \<Rightarrow> nat
     \<Rightarrow> orch \<Rightarrow> js_error option \<times> nat \<times> nat \<times> orch" where
  "chatLoop env modelId prompt tools currentMessages currentAssistantId continueLoop iterations s =
     (if continueLoop \<and> iterations < maxIterations then
        (case sendChatRequestWithTools env
                \<lparr>rq_modelId = modelId, rq_messages = butlast currentMessages,
                 rq_systemPrompt = prompt,
                 rq_tools = (if tools \<noteq> [] then Some tools else None)\<rparr>
                currentAssistantId s of
           (Inl e, s1) \<Rightarrow> (Some e, currentAssistantId, iterations + 1, s1)
         | (Inr response, s1) \<Rightarrow>
             (let s2 = (if llm_content response \<noteq> []
                        then updateMessage currentAssistantId (llm_content response) s1 else s1)
              in case llm_toolCalls response of
                   None \<Rightarrow>
                     chatLoop env modelId prompt tools currentMessages currentAssistantId False
                       (iterations + 1) s2
                 | Some tcs \<Rightarrow>
                     if tcs = [] then
                       chatLoop env modelId prompt tools currentMessages currentAssistantId False
                         (iterations + 1) s2
                     else
                       (let s3 = setMessageStreaming currentAssistantId False
                                   (updateMessageToolCalls currentAssistantId
                                      (map pendingToolCall tcs) s2);
                            results = fst (executeToolCalls env currentAssistantId tcs s3);
                            s4 = snd (executeToolCalls env currentAssistantId tcs s3);
                            s5 = foldl (\<lambda>st res. addMessage (toolMessage res) st) s4 results;
                            s6 = addMessage assistantPlaceholder s5;
                            newMessages = selectActiveMessages s6;
                            newAssistantId = (if newMessages = [] then currentAssistantId
                                              else msg_id (last newMessages))
                        in chatLoop env modelId prompt tools newMessages newAssistantId True
                             (iterations + 1) s6)))
      else (None, currentAssistantId, iterations, s))"
  by pat_completeness auto
termination
  by (relation "measure (\<lambda>(env, modelId, prompt, tools, cm, ca, cl, iterations, s).
        maxIterations - iterations)") auto

declare chatLoop.simps [simp del]

text \<open>\<open>handleChatCompletion\<close> (use-chat-actions 399-494).\<close>

definition handleChatCompletion ::
  "turn_env \<Rightarrow> nat \<Rightarrow> js_string \<Rightarrow> js_string \<Rightarrow> orch \<Rightarrow> js_error option \<times> orch" where
  "handleChatCompletion env assistantMessageId selectedModelId systemPrompt s =
     (let tools = getAvailableTools s;
          prompt = enhancedSystemPrompt systemPrompt tools
      in case chatLoop env selectedModelId prompt tools (selectActiveMessages s)
                assistantMessageId True 0 s of
           (Some e, i, n, s1) \<Rightarrow> (Some e, s1)
         | (None, i, n, s1) \<Rightarrow> (None, setMessageStreaming i False s1))"

text \<open>
  \<open>sendMessage\<close> (use-chat-actions 497-570) for a chat model.  The warning sign of
  the error text is the two code units U+26A0 U+FE0F.
\<close>

definition userMessage :: "js_string \<Rightarrow> ChatMessage" where
  "userMessage c =
     \<lparr>msg_id = 0, msg_role = User, msg_content = c, isStreaming = None, toolCalls = None,
      toolCallId = None, toolName = None\<rparr>"

text \<open>The part of \<open>sendMessage\<close> before the \<open>try\<close>: the user message and the
  assistant placeholder are added, and a fresh \<open>AbortController\<close> is installed.\<close>

definition beginTurn :: "js_string \<Rightarrow> orch \<Rightarrow> nat \<times> orch" where
  "beginTurn c s =
     (let s1 = addMessage assistantPlaceholder (addMessage (userMessage c) s);
          s2 = s1\<lparr>isGenerating := True, chatError := None\<rparr>
      in (msg_id (last (selectActiveMessages s2)), s2\<lparr>aborted := False\<rparr>))"

text \<open>What follows \<open>await handleChatCompletion(...)\<close>: the rest of the \<open>try\<close>
  block, the \<open>catch\<close> block and the \<open>finally\<close> block.\<close>

definition finishTurn :: "nat \<Rightarrow> js_error option \<times> orch \<Rightarrow> orch" where
  "finishTurn currentAssistantId res =
     (case res of
        (None, s') \<Rightarrow> (setMessageStreaming currentAssistantId False s')\<lparr>isGenerating := False\<rparr>
      | (Some err, s') \<Rightarrow>
          (if isAbortError err then setMessageStreaming currentAssistantId False s'
           else
             (let errorMessage = handleError err in
              setMessageStreaming currentAssistantId False
                (updateMessage currentAssistantId
                   ([0x26A0, 0xFE0F] @ str '' Error: '' @ errorMessage)
                   (s'\<lparr>chatError := Some errorMessage\<rparr>))))\<lparr>isGenerating := False\<rparr>)"

definition sendMessage :: "turn_env \<Rightarrow> js_string \<Rightarrow> js_string \<Rightarrow> js_string \<Rightarrow> orch \<Rightarrow> orch" where
  "sendMessage env c selectedModelId systemPrompt s =
     (case beginTurn c s of
        (currentAssistantId, s1) \<Rightarrow>
          finishTurn currentAssistantId
            (handleChatCompletion env currentAssistantId selectedModelId systemPrompt s1))"

section \<open>Strings of the runtime\<close>

text \<open>\<open>String.prototype.split\<close> with a separator of one code unit: the segments between
  the separators, at least one.\<close>

fun splitOn :: "'a \<Rightarrow> 'a list \<Rightarrow> 'a list list" where
  "splitOn sep [] = [[]]"
| "splitOn sep (c # cs) =
     (if c = sep then [] # splitOn sep cs
      else (case splitOn sep cs of
              [] \<Rightarrow> [[c]]
            | l # ls \<Rightarrow> (c # l) # ls))"

text \<open>\<open>lines.pop() || ''\<close>.\<close>

definition popOr :: "js_string list \<Rightarrow> js_string" where
  "popOr lines = (if lines = [] then [] else if last lines \<noteq> [] then last lines else [])"

text \<open>\<open>String.prototype.trim\<close> removes white space and line terminators (ECMA-262,
  \<open>WhiteSpace\<close> and \<open>LineTerminator\<close>) from both ends.\<close>

definition isWhiteSpace :: "16 word \<Rightarrow> bool" where
  "isWhiteSpace c =
     (c \<in> set [0x09, 0x0A, 0x0B, 0x0C, 0x0D, 0x20, 0xA0, 0x1680, 0x2028, 0x2029, 0x202F,
               0x205F, 0x3000, 0xFEFF]
      \<or> (0x2000 \<le> c \<and> c \<le> 0x200A))"

definition jsTrim :: "js_string \<Rightarrow> js_string" where
  "jsTrim s = rev (dropWhile isWhiteSpace (rev (dropWhile isWhiteSpace s)))"

definition startsWith :: "js_string \<Rightarrow> js_string \<Rightarrow> bool" where
  "startsWith s p = (take (length p) s = p)"

section \<open>\<open>JSON.parse\<close>\<close>

text \<open>
  The grammar of ECMA-404, as \<open>JSON.parse\<close> reads it: \<open>None\<close> is the
  \<open>SyntaxError\<close>.  Numbers are kept as rationals (the rounding to a double is not
  represented).  The first argument of the mutually recursive functions bounds the depth
  of the recursion by the length of the text.
\<close>

definition isJsonSpace :: "16 word \<Rightarrow> bool" where
  "isJsonSpace c = (c = 0x20 \<or> c = 0x09 \<or> c = 0x0A \<or> c = 0x0D)"

definition skipSpace :: "js_string \<Rightarrow> js_string" where
  "skipSpace s = dropWhile isJsonSpace s"

definition isDigit :: "16 word \<Rightarrow> bool" where
  "isDigit c = (0x30 \<le> c \<and> c \<le> 0x39)"

definition digitsValue :: "js_string \<Rightarrow> nat" where
  "digitsValue ds = foldl (\<lambda>n c. 10 * n + (unat c - 48)) 0 ds"

definition hexValue :: "16 word \<Rightarrow> nat option" where
  "hexValue c =
     (if 0x30 \<le> c \<and> c \<le> 0x39 then Some (unat c - 48)
      else if 0x41 \<le> c \<and> c \<le> 0x46 then Some (unat c - 55)
      else if 0x61 \<le> c \<and> c \<le> 0x66 then Some (unat c - 87)
      else None)"

definition hex4 :: "js_string \<Rightarrow> 16 word option" where
  "hex4 s =
     (case map hexValue s of
        [Some a, Some b, Some c, Some d] \<Rightarrow> Some (of_nat (((a * 16 + b) * 16 + c) * 16 + d))
      | _ \<Rightarrow> None)"

definition escapeChar :: "16 word \<Rightarrow> 16 word option" where
  "escapeChar e =
     (if e = 0x22 \<or> e = 0x5C \<or> e = 0x2F then Some e
      else if e = 0x62 then Some 0x08
      else if e = 0x66 then Some 0x0C
      else if e = 0x6E then Some 0x0A
      else if e = 0x72 then Some 0x0D
      else if e = 0x74 then Some 0x09
      else None)"

text \<open>The characters of a string after its opening quote, up to the closing quote.\<close>

fun parseChars :: "js_string \<Rightarrow> js_string \<Rightarrow> (js_string \<times> js_string) option" where
  "parseChars acc [] = None"
| "parseChars acc (c # cs) =
     (if c = 0x22 then Some (rev acc, cs)
      else if c < 0x20 then None
      else if c = 0x5C then
        (case cs of
           [] \<Rightarrow> None
         | e # cs' \<Rightarrow>
             if e = 0x75 then
               (case hex4 (take 4 cs') of
                  None \<Rightarrow> None
                | Some u \<Rightarrow> parseChars (u # acc) (drop 4 cs'))
             else
               (case escapeChar e of
                  None \<Rightarrow> None
                | Some u \<Rightarrow> parseChars (u # acc) cs'))
      else parseChars (c # acc) cs)"

text \<open>A number: \<open>-? (0 | [1-9][0-9]*) (. [0-9]+)? ([eE] [+-]? [0-9]+)?\<close>.\<close>

definition parseNumber :: "js_string \<Rightarrow> (rat \<times> js_string) option" where
  "parseNumber s =
     (let neg = (s \<noteq> [] \<and> hd s = 0x2D);
          s1 = (if neg then tl s else s);
          ip = takeWhile isDigit s1;
          s2 = dropWhile isDigit s1
      in if ip = [] \<or> (length ip > 1 \<and> hd ip = 0x30) then None
         else
           (let hasFrac = (s2 \<noteq> [] \<and> hd s2 = 0x2E);
                fp = (if hasFrac then takeWhile isDigit (tl s2) else []);
                s3 = (if hasFrac then dropWhile isDigit (tl s2) else s2)
            in if hasFrac \<and> fp = [] then None
               else
                 (let hasExp = (s3 \<noteq> [] \<and> (hd s3 = 0x65 \<or> hd s3 = 0x45));
                      s4 = (if hasExp then tl s3 else s3);
                      eneg = (hasExp \<and> s4 \<noteq> [] \<and> hd s4 = 0x2D);
                      s5 = (if hasExp \<and> s4 \<noteq> [] \<and> (hd s4 = 0x2D \<or> hd s4 = 0x2B) then tl s4 else s4);
                      ep = (if hasExp then takeWhile isDigit s5 else []);
                      s6 = (if hasExp then dropWhile isDigit s5 else s3)
                  in if hasExp \<and> ep = [] then None
                     else
                       (let m = of_nat (digitsValue ip)
                                  + of_nat (digitsValue fp) / (10 ^ length fp);
                            x = (if eneg then m / (10 ^ digitsValue ep) else m * (10 ^ digitsValue ep))
                        in Some (if neg then - x else x, s6)))))"

fun parseValue :: "'f list \<Rightarrow> js_string \<Rightarrow> (json \<times> js_string) option"
and parseElements :: "'f list \<Rightarrow> json list \<Rightarrow> js_string \<Rightarrow> (json \<times> js_string) option"
and parseMembers :: "'f list \<Rightarrow> (js_string \<times> json) list \<Rightarrow> js_string \<Rightarrow> (json \<times> js_string) option"
where
  "parseValue [] s = None"
| "parseValue (f # fuel) s =
     (case skipSpace s of
        [] \<Rightarrow> None
      | c # cs \<Rightarrow>
          if c = 0x7B then
            (case skipSpace cs of
               [] \<Rightarrow> None
             | d # ds \<Rightarrow> if d = 0x7D then Some (JObj [], ds) else parseMembers fuel [] cs)
          else if c = 0x5B then
            (case skipSpace cs of
               [] \<Rightarrow> None
             | d # ds \<Rightarrow> if d = 0x5D then Some (JArr [], ds) else parseElements fuel [] cs)
          else if c = 0x22 then
            (case parseChars [] cs of
               None \<Rightarrow> None
             | Some (t, rest) \<Rightarrow> Some (JStr t, rest))
          else if take 4 (c # cs) = [0x74, 0x72, 0x75, 0x65] then Some (JBool True, drop 4 (c # cs))
          else if take 5 (c # cs) = [0x66, 0x61, 0x6C, 0x73, 0x65] then Some (JBool False, drop 5 (c # cs))
          else if take 4 (c # cs) = [0x6E, 0x75, 0x6C, 0x6C] then Some (JNull, drop 4 (c # cs))
          else
            (case parseNumber (c # cs) of
               None \<Rightarrow> None
             | Some (n, rest) \<Rightarrow> Some (JNum n, rest)))"
| "parseElements [] acc s = None"
| "parseElements (f # fuel) acc s =
     (case parseValue fuel s of
        None \<Rightarrow> None
      | Some (v, rest) \<Rightarrow>
          (case skipSpace rest of
             [] \<Rightarrow> None
           | c # cs \<Rightarrow>
               if c = 0x5D then Some (JArr (rev (v # acc)), cs)
               else if c = 0x2C then parseElements fuel (v # acc) cs
               else None))"
| "parseMembers [] acc s = None"
| "parseMembers (f # fuel) acc s =
     (case skipSpace s of
        [] \<Rightarrow> None
      | q # qs \<Rightarrow>
          if q \<noteq> 0x22 then None
          else
            (case parseChars [] qs of
               None \<Rightarrow> None
             | Some (k, rest) \<Rightarrow>
                 (case skipSpace rest of
                    [] \<Rightarrow> None
                  | c # cs \<Rightarrow>
                      if c \<noteq> 0x3A then None
                      else
                        (case parseValue fuel cs of
                           None \<Rightarrow> None
                         | Some (v, rest') \<Rightarrow>
                             (case skipSpace rest' of
                                [] \<Rightarrow> None
                              | e # es \<Rightarrow>
                                  if e = 0x7D then Some (JObj (rev ((k, v) # acc)), es)
                                  else if e = 0x2C then parseMembers fuel ((k, v) # acc) es
                                  else None)))))"

definition JSON_parse :: "js_string \<Rightarrow> json option" where
  "JSON_parse s =
     (case parseValue (s @ s @ [0, 0]) s of
        None \<Rightarrow> None
      | Some (v, rest) \<Rightarrow> if skipSpace rest = [] then Some v else None)"

section \<open>The stdout listener of a stdio session\<close>

text \<open>
  The parsed line is handed to \<open>handleResponse\<close> as a \<open>JsonRpcResponse\<close> without a
  check.  \<open>handleResponse\<close> reads \<open>id\<close>, \<open>error\<close>, \<open>error.message\<close> and
  \<open>result\<close>: reading a property of \<open>null\<close> throws (\<open>None\<close>; the listener catches
  it), an id that is neither a number nor a string is no key of the pending requests, an
  error that is not truthy counts as absent, and a message outside the declared type is
  taken as the empty string.
\<close>

definition asRpcId :: "json option \<Rightarrow> rpc_id" where
  "asRpcId v = (case v of Some (JNum n) \<Rightarrow> NumId n | Some (JStr s) \<Rightarrow> StrId s | _ \<Rightarrow> NoId)"

definition asRpcError :: "json option \<Rightarrow> JsonRpcError option" where
  "asRpcError v =
     (case v of
        None \<Rightarrow> None
      | Some e \<Rightarrow>
          if truthy e then
            Some \<lparr>err_code = (case getProp (str ''code'') e of Some (JNum n) \<Rightarrow> n | _ \<Rightarrow> 0),
                  err_message = asString (getProp (str ''message'') e),
                  err_data = getProp (str ''data'') e\<rparr>
          else None)"

definition asResponse :: "json \<Rightarrow> JsonRpcResponse option" where
  "asResponse v =
     (case v of
        JNull \<Rightarrow> None
      | _ \<Rightarrow> Some \<lparr>resp_id = asRpcId (getProp (str ''id'') v),
                    resp_result = getProp (str ''result'') v,
                    resp_error = asRpcError (getProp (str ''error'') v)\<rparr>)"

text \<open>The body of the loop over the lines (mcp.ts 147-156); \<open>parse\<close> is
  \<open>JSON.parse\<close>.\<close>

definition handleLine :: "(js_string \<Rightarrow> json option) \<Rightarrow> js_string \<Rightarrow> js_string \<Rightarrow> world \<Rightarrow> world" where
  "handleLine parse configId line w =
     (if jsTrim line = [] then w
      else
        (case parse line of
           None \<Rightarrow> w
         | Some v \<Rightarrow>
             (case asResponse v of
                None \<Rightarrow> w
              | Some response \<Rightarrow> handleResponse configId response w)))"

text \<open>
  The listener registered by \<open>startStdioServer\<close> for the events \<open>mcp-stdout\<close>
  (mcp.ts 136-158).  It closes over \<open>config.id\<close> and over the state object of the
  session, here the reference \<open>r\<close>; the payload of the event is the pair of
  \<open>server_id\<close> and \<open>data\<close>.
\<close>

definition stdoutListener ::
  "(js_string \<Rightarrow> json option) \<Rightarrow> js_string \<Rightarrow> nat \<Rightarrow> js_string \<times> js_string \<Rightarrow> world \<Rightarrow> world" where
  "stdoutListener parse configId r payload w =
     (if fst payload \<noteq> configId then w
      else
        (case heap w r of
           None \<Rightarrow> w
         | Some serverState \<Rightarrow>
             (let b = buffer serverState @ snd payload @ [0x0A];
                  lines = splitOn 0x0A b;
                  w1 = w\<lparr>heap := (heap w)(r \<mapsto> serverState\<lparr>buffer := popOr lines\<rparr>)\<rparr>
              in foldl (\<lambda>w line. handleLine parse configId line w) w1 (butlast lines))))"

section \<open>The decoder of streamed responses\<close>

subsection \<open>\<open>TextDecoder\<close>\<close>

text \<open>
  \<open>new TextDecoder()\<close> is the UTF-8 decoder of the Encoding Standard, not fatal, not
  ignoring the byte order mark.  Its state outlives the calls of \<open>decode\<close> with
  \<open>stream: true\<close>: the code point being assembled, the bytes seen and needed, the
  bounds of the next byte, and whether the first code point has been seen.
\<close>

record utf8_decoder =
  codePoint :: nat
  bytesSeen :: nat
  bytesNeeded :: nat
  lowerBoundary :: "8 word"
  upperBoundary :: "8 word"
  bomSeen :: bool

definition newTextDecoder :: utf8_decoder where
  "newTextDecoder =
     \<lparr>codePoint = 0, bytesSeen = 0, bytesNeeded = 0, lowerBoundary = 0x80,
      upperBoundary = 0xBF, bomSeen = False\<rparr>"

datatype handler_result = Continue | CodePoint nat | Malformed

text \<open>The handler of the UTF-8 decoder for one byte: its result, whether the byte is put
  back to be read again, and the new state.\<close>

definition utf8Handler :: "utf8_decoder \<Rightarrow> 8 word \<Rightarrow> handler_result \<times> bool \<times> utf8_decoder" where
  "utf8Handler d b =
     (if bytesNeeded d = 0 then
        (if b \<le> 0x7F then (CodePoint (unat b), False, d)
         else if 0xC2 \<le> b \<and> b \<le> 0xDF then
           (Continue, False, d\<lparr>bytesNeeded := 1, codePoint := unat b mod 32\<rparr>)
         else if 0xE0 \<le> b \<and> b \<le> 0xEF then
           (Continue, False,
            d\<lparr>lowerBoundary := (if b = 0xE0 then 0xA0 else lowerBoundary d),
              upperBoundary := (if b = 0xED then 0x9F else upperBoundary d),
              bytesNeeded := 2, codePoint := unat b mod 16\<rparr>)
         else if 0xF0 \<le> b \<and> b \<le> 0xF4 then
           (Continue, False,
            d\<lparr>lowerBoundary := (if b = 0xF0 then 0x90 else lowerBoundary d),
              upperBoundary := (if b = 0xF4 then 0x8F else upperBoundary d),
              bytesNeeded := 3, codePoint := unat b mod 8\<rparr>)
         else (Malformed, False, d))
      else if \<not> (lowerBoundary d \<le> b \<and> b \<le> upperBoundary d) then
        (Malformed, True,
         d\<lparr>codePoint := 0, bytesNeeded := 0, bytesSeen := 0, lowerBoundary := 0x80,
           upperBoundary := 0xBF\<rparr>)
      else
        (let d1 = d\<lparr>lowerBoundary := 0x80, upperBoundary := 0xBF,
                     codePoint := codePoint d * 64 + unat b mod 64,
                     bytesSeen := bytesSeen d + 1\<rparr>
         in if bytesSeen d1 \<noteq> bytesNeeded d1 then (Continue, False, d1)
            else (CodePoint (codePoint d1), False,
                  d1\<lparr>codePoint := 0, bytesNeeded := 0, bytesSeen := 0\<rparr>)))"

text \<open>The code units of a code point in a string.\<close>

definition codeUnits :: "nat \<Rightarrow> js_string" where
  "codeUnits cp =
     (if cp < 0x10000 then [of_nat cp]
      else [of_nat (0xD800 + (cp - 0x10000) div 0x400), of_nat (0xDC00 + (cp - 0x10000) mod 0x400)])"

text \<open>A code point is appended to the output, except a byte order mark that is the first
  code point of the stream.\<close>

definition serializeItem :: "utf8_decoder \<Rightarrow> nat \<Rightarrow> utf8_decoder \<times> js_string" where
  "serializeItem d cp =
     (if \<not> bomSeen d then (d\<lparr>bomSeen := True\<rparr>, if cp = 0xFEFF then [] else codeUnits cp)
      else (d, codeUnits cp))"

definition processResult :: "utf8_decoder \<Rightarrow> handler_result \<Rightarrow> utf8_decoder \<times> js_string" where
  "processResult d res =
     (case res of
        Continue \<Rightarrow> (d, [])
      | CodePoint cp \<Rightarrow> serializeItem d cp
      | Malformed \<Rightarrow> serializeItem d 0xFFFD)"

definition decodeByte :: "utf8_decoder \<Rightarrow> 8 word \<Rightarrow> utf8_decoder \<times> js_string" where
  "decodeByte d b =
     (case utf8Handler d b of
        (res, restore, d1) \<Rightarrow>
          (case processResult d1 res of
             (d2, out) \<Rightarrow>
               if restore then
                 (case utf8Handler d2 b of
                    (res', restore', d3) \<Rightarrow>
                      (case processResult d3 res' of (d4, out') \<Rightarrow> (d4, out @ out')))
               else (d2, out)))"

text \<open>\<open>decoder.decode(value, { stream: true })\<close>: the bytes are consumed one by one, and
  bytes of an unfinished code point stay in the state.\<close>

fun decode :: "utf8_decoder \<Rightarrow> 8 word list \<Rightarrow> utf8_decoder \<times> js_string" where
  "decode d [] = (d, [])"
| "decode d (b # bs) =
     (case decodeByte d b of
        (d1, out) \<Rightarrow> (case decode d1 bs of (d2, out') \<Rightarrow> (d2, out @ out')))"

subsection \<open>\<open>streamSSEResponse\<close>\<close>

text \<open>
  The variables of \<open>streamSSEResponse\<close> (chat-export 423-482, the file
  \<open>streaming.ts\<close>), and the texts handed to \<open>onChunk\<close> so far.
\<close>

record sse_state =
  decoder :: utf8_decoder
  fullText :: js_string
  lineBuffer :: js_string
  onChunkCalls :: "js_string list"

text \<open>
  What is done with a line, and after the loop with the rest of the buffer (chat-export
  443-457 and 461-476, the same statements).  \<open>parse\<close> is \<open>JSON.parse\<close> with its
  result taken as a \<open>T\<close>, \<open>extractText\<close> is the extractor; both may throw
  (\<open>None\<close>), which the \<open>catch\<close> swallows.  \<open>onChunk\<close> is a callback that returns.
\<close>

definition processLine ::
  "(js_string \<Rightarrow> 'a option) \<Rightarrow> ('a \<Rightarrow> js_string option) \<Rightarrow> js_string \<Rightarrow> sse_state \<Rightarrow> sse_state" where
  "processLine parse extractText line st =
     (if startsWith line (str ''data: '') then
        (let jsonStr = jsTrim (drop 6 line) in
         if jsonStr \<noteq> [] \<and> jsonStr \<noteq> str ''[DONE]'' then
           (case parse jsonStr of
              None \<Rightarrow> st
            | Some d \<Rightarrow>
                (case extractText d of
                   None \<Rightarrow> st
                 | Some t \<Rightarrow>
                     if t \<noteq> [] then
                       st\<lparr>fullText := fullText st @ t, onChunkCalls := onChunkCalls st @ [t]\<rparr>
                     else st))
         else st)
      else st)"

text \<open>One round of the loop with a chunk read (chat-export 439-458).\<close>

definition readChunk ::
  "(js_string \<Rightarrow> 'a option) \<Rightarrow> ('a \<Rightarrow> js_string option) \<Rightarrow> sse_state \<Rightarrow> 8 word list \<Rightarrow> sse_state" where
  "readChunk parse extractText st chunk =
     (case decode (decoder st) chunk of
        (d, t) \<Rightarrow>
          (let b = lineBuffer st @ t;
               lines = splitOn 0x0A b;
               st1 = st\<lparr>decoder := d, lineBuffer := popOr lines\<rparr>
           in foldl (\<lambda>st line. processLine parse extractText line st) st1 (butlast lines)))"

text \<open>
  The body is read until it is done or a read fails.  A failed read rejects the promise of
  \<open>streamSSEResponse\<close>; otherwise the rest of the buffer is processed and the
  accumulated text returned.  The second component of the result is the sequence of the
  calls of \<open>onChunk\<close>.
\<close>

datatype read_result = Chunk "8 word list" | ReadError js_error

fun readLoop ::
  "(js_string \<Rightarrow> 'a option) \<Rightarrow> ('a \<Rightarrow> js_string option) \<Rightarrow> sse_state \<Rightarrow> read_result list
     \<Rightarrow> js_error option \<times> sse_state" where
  "readLoop parse extractText st [] = (None, st)"
| "readLoop parse extractText st (Chunk c # body) =
     readLoop parse extractText (readChunk parse extractText st c) body"
| "readLoop parse extractText st (ReadError e # body) = (Some e, st)"

definition streamSSEResponse ::
  "(js_string \<Rightarrow> 'a option) \<Rightarrow> ('a \<Rightarrow> js_string option) \<Rightarrow> read_result list
     \<Rightarrow> (js_error + js_string) \<times> js_string list" where
  "streamSSEResponse parse extractText body =
     (let st0 = \<lparr>decoder = newTextDecoder, fullText = [], lineBuffer = [], onChunkCalls = []\<rparr> in
      case readLoop parse extractText st0 body of
        (Some e, st) \<Rightarrow> (Inl e, onChunkCalls st)
      | (None, st) \<Rightarrow>
          (let st1 = processLine parse extractText (lineBuffer st) st
           in (Inr (fullText st1), onChunkCalls st1)))"

subsection \<open>The extractors of the providers\<close>

record GooglePart =
  part_text :: "js_string option"

record GoogleContent =
  parts :: "GooglePart list option"

record GoogleCandidate =
  candidate_content :: "GoogleContent option"

record GoogleStreamData =
  candidates :: "GoogleCandidate list option"

record OpenAIDelta =
  delta_content :: "js_string option"

record OpenAIChoice =
  delta :: "OpenAIDelta option"

record OpenAIStreamData =
  choices :: "OpenAIChoice list option"

text \<open>\<open>data.candidates?.[0]?.content?.parts?.[0]?.text || ''\<close> (chat-export 507-509).\<close>

definition extractGoogleText :: "GoogleStreamData \<Rightarrow> js_string" where
  "extractGoogleText d =
     (case candidates d of
        None \<Rightarrow> []
      | Some cs \<Rightarrow>
          (case cs of
             [] \<Rightarrow> []
           | c # cs' \<Rightarrow>
               (case candidate_content c of
                  None \<Rightarrow> []
                | Some ct \<Rightarrow>
                    (case parts ct of
                       None \<Rightarrow> []
                     | Some ps \<Rightarrow>
                         (case ps of
                            [] \<Rightarrow> []
                          | p # ps' \<Rightarrow> (case part_text p of None \<Rightarrow> [] | Some t \<Rightarrow> t))))))"

text \<open>\<open>data.choices?.[0]?.delta?.content || ''\<close> (chat-export 512-514).\<close>

definition extractOpenAIText :: "OpenAIStreamData \<Rightarrow> js_string" where
  "extractOpenAIText d =
     (case choices d of
        None \<Rightarrow> []
      | Some cs \<Rightarrow>
          (case cs of
             [] \<Rightarrow> []
           | c # cs' \<Rightarrow>
               (case delta c of
                  None \<Rightarrow> []
                | Some dl \<Rightarrow> (case delta_content dl of None \<Rightarrow> [] | Some t \<Rightarrow> t))))"

definition extractGroqText :: "OpenAIStreamData \<Rightarrow> js_string" where
  "extractGroqText = extractOpenAIText"

definition streamGoogleResponse ::
  "(js_string \<Rightarrow> GoogleStreamData option) \<Rightarrow> read_result list \<Rightarrow> (js_error + js_string) \<times> js_string list" where
  "streamGoogleResponse parse body = streamSSEResponse parse (\<lambda>d. Some (extractGoogleText d)) body"

definition streamOpenAIResponse ::
  "(js_string \<Rightarrow> OpenAIStreamData option) \<Rightarrow> read_result list \<Rightarrow> (js_error + js_string) \<times> js_string list" where
  "streamOpenAIResponse parse body = streamSSEResponse parse (\<lambda>d. Some (extractOpenAIText d)) body"

definition streamGroqResponse ::
  "(js_string \<Rightarrow> OpenAIStreamData option) \<Rightarrow> read_result list \<Rightarrow> (js_error + js_string) \<times> js_string list" where
  "streamGroqResponse parse body = streamSSEResponse parse (\<lambda>d. Some (extractGroqText d)) body"

section \<open>Definitions of the verification\<close>

text \<open>
  The predicates and abbreviations in which the properties below are stated, and the
  concrete sessions, streams and turns on which they are instantiated.
\<close>

subsection \<open>The request correlator\<close>

text \<open>The lookup of \<open>handleResponse\<close> (mcp.ts 536-539): the server object registered
  under the id and the pending entry stored for the response's id.\<close>

definition pendingEntry :: "world \<Rightarrow> js_string \<Rightarrow> rpc_id \<Rightarrow> (nat \<times> nat) option" where
  "pendingEntry w serverId i =
     (case activeServers w serverId of
        None \<Rightarrow> None
      | Some r \<Rightarrow>
          (case heap w r of
             None \<Rightarrow> None
           | Some server \<Rightarrow> map_option (Pair r) (pendingRequests server i)))"

definition invEntries :: "world \<Rightarrow> bool" where
  "invEntries w \<longleftrightarrow>
     (\<forall>r sv i h. heap w r = Some sv \<longrightarrow> pendingRequests sv i = Some h \<longrightarrow>
        (\<exists>cl. timers w h = Some cl \<and> cl_server cl = r \<and> cl_id cl = i))"

definition invTimers :: "world \<Rightarrow> bool" where
  "invTimers w \<longleftrightarrow>
     (\<forall>h cl. timers w h = Some cl \<longrightarrow>
        h < nextHandle w \<and> TimerFired h \<notin> set (effects w) \<and> ClearTimeout h \<notin> set (effects w))"

definition invHistory :: "world \<Rightarrow> bool" where
  "invHistory w \<longleftrightarrow>
     (\<forall>h. TimerFired h \<in> set (effects w) \<or> ClearTimeout h \<in> set (effects w) \<longrightarrow> h < nextHandle w) \<and>
     (\<forall>h. TimerFired h \<in> set (effects w) \<longrightarrow> ClearTimeout h \<notin> set (effects w))"

definition completion :: "nat \<Rightarrow> JsonRpcResponse \<Rightarrow> effect" where
  "completion h response =
     (case resp_error response of
        Some e \<Rightarrow> RejectCalled h (Error (err_message e))
      | None \<Rightarrow> ResolveCalled h (resp_result response))"

definition completionOutcome :: "JsonRpcResponse \<Rightarrow> outcome" where
  "completionOutcome response =
     (case resp_error response of
        Some e \<Rightarrow> Rejected (Error (err_message e))
      | None \<Rightarrow> Resolved (resp_result response))"

definition invClosures :: "world \<Rightarrow> bool" where
  "invClosures w \<longleftrightarrow>
     (\<forall>h cl. timers w h = Some cl \<longrightarrow>
        activeServers w (cl_serverId cl) = Some (cl_server cl) \<and>
        (\<exists>sv k. heap w (cl_server cl) = Some sv \<and> cl_id cl = NumId (of_nat k) \<and> k \<le> requestId sv)) \<and>
     (\<forall>sid r. activeServers w sid = Some r \<longrightarrow> r < nextRef w)"

definition dropTransport :: "nat \<Rightarrow> world \<Rightarrow> world" where
  "dropTransport h w = w\<lparr>transports := (transports w)(h := None)\<rparr>"

definition invPromises :: "world \<Rightarrow> bool" where
  "invPromises w \<longleftrightarrow>
     (\<forall>r sv i h. heap w r = Some sv \<longrightarrow> pendingRequests sv i = Some h \<longrightarrow>
        promises w h = Some Pending)"

definition invTransports :: "world \<Rightarrow> bool" where
  "invTransports w \<longleftrightarrow>
     (\<forall>h cl. transports w h = Some cl \<longrightarrow>
        h < nextHandle w \<and> (\<forall>cl'. timers w h = Some cl' \<longrightarrow> cl' = cl))"

definition allInv :: "world \<Rightarrow> bool" where
  "allInv w \<longleftrightarrow> invEntries w \<and> invTimers w \<and> invHistory w \<and> invClosures w \<and>
     invPromises w \<and> invTransports w"

definition deadId :: "world \<Rightarrow> js_string \<Rightarrow> rpc_id \<Rightarrow> bool" where
  "deadId w sid i \<longleftrightarrow>
     (\<exists>r sv k. activeServers w sid = Some r \<and> r < nextRef w \<and> heap w r = Some sv \<and>
        i = NumId (of_nat k) \<and> k \<le> requestId sv \<and> pendingRequests sv i = None)"

text \<open>A session with one request in flight, and replies to it.\<close>

definition exampleServer :: js_string where
  "exampleServer = str ''cli-mcp-server''"

definition exampleRun :: world where
  "exampleRun = run [EvRegister exampleServer Stdio, EvSend exampleServer (str ''tools/list'') None]
                  (initialWorld [])"

definition exampleReply :: JsonRpcResponse where
  "exampleReply = \<lparr>resp_id = NumId 1, resp_result = Some (JObj []), resp_error = None\<rparr>"

definition exampleError :: "rat \<Rightarrow> JsonRpcResponse" where
  "exampleError c =
     \<lparr>resp_id = NumId 1, resp_result = None,
      resp_error = Some \<lparr>err_code = c, err_message = str ''Method not found'', err_data = None\<rparr>\<rparr>"

subsection \<open>The server lifecycle\<close>

text \<open>The runtime state the handshake ends in when the tool list is empty, and a
  stdio server with the answers of a host and a tool server that start it.\<close>

definition connectedWithNoTools :: "js_string \<Rightarrow> world \<Rightarrow> bool" where
  "connectedWithNoTools i w \<longleftrightarrow>
     activeServers w i \<noteq> None \<and>
     (case serverStates w i of
        None \<Rightarrow> False
      | Some st \<Rightarrow> ss_status st = Connected \<and> ss_tools st = [] \<and> ss_error st = None)"

definition exampleConfig :: MCPServerConfig where
  "exampleConfig =
     \<lparr>cfg_id = exampleServer, cfg_name = str ''CLI'', cfg_enabled = True, cfg_transport = Stdio,
      cfg_command = str ''uvx'', cfg_args = [], cfg_url = []\<rparr>"

definition exampleStdioEnv :: "json option \<Rightarrow> stdio_env" where
  "exampleStdioEnv res =
     \<lparr>listenStdout = None, listenStderr = None, spawn = None,
      initReply = Replied (Some (JObj [])) None, notifyWrite = None,
      toolsReply = Replied res None\<rparr>"

definition exampleHttpEnv :: http_env where
  "exampleHttpEnv =
     \<lparr>sse = SseOpened, httpInitReply = Replied (Some (JObj [])) None, httpNotify = None,
      httpToolsReply = Replied None None\<rparr>"

subsection \<open>The tool-call loop of a turn\<close>

text \<open>
  \<open>loopBound\<close>, \<open>loopFull\<close> and \<open>alwaysTools\<close> state the bound of the loop and the
  environment of a model that asks for tools in every response.  The other definitions are
  a concrete turn: the server of the example has been started and lists the tool
  \<open>echo\<close>; the model asks for the tool \<open>echo\<close> twice in every response; in
  \<open>stopEnv\<close> the user presses stop while the first tool call of the turn is awaited.
\<close>

definition loopBound :: "nat \<Rightarrow> orch \<Rightarrow> js_error option \<times> nat \<times> nat \<times> orch \<Rightarrow> bool" where
  "loopBound i s res =
     (case res of (err, ca', n, s') \<Rightarrow>
        i \<le> n \<and> n \<le> maxIterations \<and> llmCallCount s' = llmCallCount s + (n - i) \<and>
        length (llmRequests s') \<le> length (llmRequests s) + (n - i))"

definition alwaysTools :: "turn_env \<Rightarrow> bool" where
  "alwaysTools env =
     (\<forall>k. llm_preflight (llmEnv env k) = None \<and> \<not> llm_stopDuring (llmEnv env k) \<and>
          (case llm_result (llmEnv env k) of
             Inl e \<Rightarrow> False
           | Inr r \<Rightarrow> (case llm_toolCalls r of None \<Rightarrow> False | Some tcs \<Rightarrow> tcs \<noteq> [])) \<and>
          \<not> tool_stopDuring (toolEnv env k))"

definition loopFull :: "nat \<Rightarrow> orch \<Rightarrow> js_error option \<times> nat \<times> nat \<times> orch \<Rightarrow> bool" where
  "loopFull i s res =
     (case res of (err, ca', n, s') \<Rightarrow>
        err = None \<and> n = maxIterations \<and>
        length (llmRequests s') = length (llmRequests s) + (maxIterations - i))"


definition echoTool :: json where
  "echoTool = JObj [(str ''name'', JStr (str ''echo'')), (str ''description'', JStr []),
                    (str ''inputSchema'', JObj [(str ''type'', JStr (str ''object''))])]"

definition startedWorld :: world where
  "startedWorld =
     snd (startStdioServer exampleConfig
            (exampleStdioEnv (Some (JObj [(str ''tools'', JArr [echoTool])])))
            (initialWorld [exampleConfig]))"

definition echoCall :: "string \<Rightarrow> ToolCall" where
  "echoCall i = \<lparr>tc_id = str i, tc_name = str ''echo'', tc_arguments = JObj []\<rparr>"

definition echoReply :: "json option" where
  "echoReply = Some (JObj [(str ''content'',
                  JArr [JObj [(str ''type'', JStr (str ''text'')), (str ''text'', JStr (str ''ok''))]])])"

definition stopEnv :: turn_env where
  "stopEnv =
     \<lparr>llmEnv = (\<lambda>k. \<lparr>llm_preflight = None, llm_chunks = [],
                      llm_result = Inr \<lparr>llm_content = [],
                                        llm_toolCalls = Some [echoCall ''call_1'', echoCall ''call_2'']\<rparr>,
                      llm_stopDuring = False\<rparr>),
      toolEnv = (\<lambda>k. \<lparr>tool_completion = Replied echoReply None, tool_stopDuring = (k = 0)\<rparr>),
      stringifyContent = (\<lambda>c. []),
      typeErrorMessage = []\<rparr>"

definition loopingEnv :: turn_env where
  "loopingEnv = stopEnv\<lparr>toolEnv := (\<lambda>k. \<lparr>tool_completion = Replied echoReply None, tool_stopDuring = False\<rparr>)\<rparr>"

definition turnState :: "world \<Rightarrow> orch" where
  "turnState w =
     \<lparr>mcp = w, messages = [], nextMessageId = 0, aborted = False, llmCallCount = 0,
      toolCallCount = 0, llmRequests = [], isGenerating = False, chatError = None\<rparr>"






subsection \<open>The stdout listener\<close>

text \<open>The response to request 1 of the example, cut in two after \<open>"id":1,\<close>.\<close>

definition firstPart :: js_string where
  "firstPart = str ''{\"jsonrpc\":\"2.0\",\"id\":1,''"

definition secondPart :: js_string where
  "secondPart = str ''\"result\":{}}''"

subsection \<open>The decoder of streamed responses\<close>

text \<open>
  \<open>bytes\<close> is the encoding of a text of the Basic Latin block, as the mock stream of the
  tests makes it (streaming.test 14-28); \<open>textField\<close> is the extractor of these tests,
  \<open>(data) => data.text || ''\<close>, on data of its declared type (a text that is not a
  string is taken as the empty text).  \<open>decodedText\<close> is what a fresh decoder makes of
  all bytes of a stream.  \<open>lineDelta\<close> is the text that a line contributes, in the
  words of the specification, and \<open>deltas\<close> collects these texts over the lines;
  \<open>stateAfter\<close> is the state of the loop when the given bytes have been read.
  \<open>textOfLines\<close> is the text made of the given lines with a newline between them;
  \<open>blank\<close> is a text of white space only, \<open>trimmed\<close> a text that is not empty and
  neither starts nor ends with white space.
\<close>

definition bytes :: "string \<Rightarrow> 8 word list" where
  "bytes s = map of_char s"

definition textField :: "json \<Rightarrow> js_string option" where
  "textField d = (case d of JNull \<Rightarrow> None | _ \<Rightarrow> Some (asString (getProp (str ''text'') d)))"

definition decodedText :: "8 word list \<Rightarrow> js_string" where
  "decodedText bs = snd (decode newTextDecoder bs)"

definition lineDelta ::
  "(js_string \<Rightarrow> 'a option) \<Rightarrow> ('a \<Rightarrow> js_string option) \<Rightarrow> js_string \<Rightarrow> js_string option" where
  "lineDelta parse extractText line =
     (if startsWith line (str ''data: '') \<and> jsTrim (drop 6 line) \<noteq> []
         \<and> jsTrim (drop 6 line) \<noteq> str ''[DONE]''
      then (case Option.bind (parse (jsTrim (drop 6 line))) extractText of
              None \<Rightarrow> None
            | Some t \<Rightarrow> if t = [] then None else Some t)
      else None)"

definition deltas ::
  "(js_string \<Rightarrow> 'a option) \<Rightarrow> ('a \<Rightarrow> js_string option) \<Rightarrow> js_string list \<Rightarrow> js_string list" where
  "deltas parse extractText lines = List.map_filter (lineDelta parse extractText) lines"

definition stateAfter ::
  "(js_string \<Rightarrow> 'a option) \<Rightarrow> ('a \<Rightarrow> js_string option) \<Rightarrow> 8 word list \<Rightarrow> sse_state" where
  "stateAfter parse extractText bs =
     \<lparr>decoder = fst (decode newTextDecoder bs),
      fullText = concat (deltas parse extractText (butlast (splitOn 0x0A (decodedText bs)))),
      lineBuffer = last (splitOn 0x0A (decodedText bs)),
      onChunkCalls = deltas parse extractText (butlast (splitOn 0x0A (decodedText bs)))\<rparr>"

fun textOfLines :: "js_string list \<Rightarrow> js_string" where
  "textOfLines [] = []"
| "textOfLines [l] = l"
| "textOfLines (l # l' # ls) = l @ [0x0A] @ textOfLines (l' # ls)"

definition blank :: "js_string \<Rightarrow> bool" where
  "blank s \<longleftrightarrow> (\<forall>c \<in> set s. isWhiteSpace c)"

definition trimmed :: "js_string \<Rightarrow> bool" where
  "trimmed s \<longleftrightarrow> s \<noteq> [] \<and> \<not> isWhiteSpace (hd s) \<and> \<not> isWhiteSpace (last s)"

section \<open>Verification of the request correlator\<close>

subsection \<open>Effects of the operations on the fields of the world\<close>

lemma emit_fields [simp]:
  "heap (emit es w) = heap w" "activeServers (emit es w) = activeServers w"
  "serverStates (emit es w) = serverStates w" "servers (emit es w) = servers w"
  "promises (emit es w) = promises w" "timers (emit es w) = timers w"
  "transports (emit es w) = transports w" "listeners (emit es w) = listeners w"
  "nextRef (emit es w) = nextRef w" "nextHandle (emit es w) = nextHandle w"
  "effects (emit es w) = effects w @ es"
  by (simp_all add: emit_def)

lemma settle_fields [simp]:
  "heap (settle h out w) = heap w" "activeServers (settle h out w) = activeServers w"
  "serverStates (settle h out w) = serverStates w" "servers (settle h out w) = servers w"
  "timers (settle h out w) = timers w"
  "transports (settle h out w) = transports w" "listeners (settle h out w) = listeners w"
  "nextRef (settle h out w) = nextRef w" "nextHandle (settle h out w) = nextHandle w"
  "effects (settle h out w) = effects w"
  by (simp_all add: settle_def split: option.splits outcome.splits)

lemma settle_promises:
  "promises (settle h out w) h' =
     (if h' = h \<and> promises w h = Some Pending then Some out else promises w h')"
  by (simp add: settle_def split: option.splits outcome.splits)

lemma pendingDelete_fields [simp]:
  "activeServers (pendingDelete r i w) = activeServers w"
  "serverStates (pendingDelete r i w) = serverStates w" "servers (pendingDelete r i w) = servers w"
  "promises (pendingDelete r i w) = promises w" "timers (pendingDelete r i w) = timers w"
  "transports (pendingDelete r i w) = transports w" "listeners (pendingDelete r i w) = listeners w"
  "nextRef (pendingDelete r i w) = nextRef w" "nextHandle (pendingDelete r i w) = nextHandle w"
  "effects (pendingDelete r i w) = effects w @ [PendingDelete r i]"
  by (simp_all add: pendingDelete_def split: option.splits)

lemma pendingDelete_heap:
  "heap (pendingDelete r i w) r' =
     (if r' = r then map_option (\<lambda>sv. sv\<lparr>pendingRequests := (pendingRequests sv)(i := None)\<rparr>) (heap w r)
      else heap w r')"
  by (simp add: pendingDelete_def split: option.splits)

lemma clearTimeout_fields [simp]:
  "heap (clearTimeout h w) = heap w"
  "activeServers (clearTimeout h w) = activeServers w"
  "serverStates (clearTimeout h w) = serverStates w" "servers (clearTimeout h w) = servers w"
  "promises (clearTimeout h w) = promises w" "timers (clearTimeout h w) = (timers w)(h := None)"
  "transports (clearTimeout h w) = transports w" "listeners (clearTimeout h w) = listeners w"
  "nextRef (clearTimeout h w) = nextRef w" "nextHandle (clearTimeout h w) = nextHandle w"
  "effects (clearTimeout h w) = effects w @ [ClearTimeout h]"
  by (simp_all add: clearTimeout_def)

lemma handleResponse_none:
  "pendingEntry w sid (resp_id resp) = None \<Longrightarrow> handleResponse sid resp w = w"
  by (auto simp: pendingEntry_def handleResponse_def split: option.splits)

lemma invEntriesD:
  "invEntries w \<Longrightarrow> heap w r = Some sv \<Longrightarrow> pendingRequests sv i = Some h \<Longrightarrow>
     \<exists>cl. timers w h = Some cl \<and> cl_server cl = r \<and> cl_id cl = i"
  unfolding invEntries_def by blast

lemma entry_unique:
  assumes "invEntries w"
    and "heap w r = Some sv" "pendingRequests sv i = Some h"
    and "heap w r' = Some sv'" "pendingRequests sv' i' = Some h"
  shows "r' = r \<and> i' = i"
proof -
  obtain cl where 1: "timers w h = Some cl" "cl_server cl = r" "cl_id cl = i"
    using invEntriesD[OF assms(1-3)] by blast
  obtain cl' where 2: "timers w h = Some cl'" "cl_server cl' = r'" "cl_id cl' = i'"
    using invEntriesD[OF assms(1) assms(4,5)] by blast
  from 1 2 show ?thesis by simp
qed

lemma handleResponse_same [simp]:
  "activeServers (handleResponse sid resp w) = activeServers w"
  "serverStates (handleResponse sid resp w) = serverStates w"
  "servers (handleResponse sid resp w) = servers w"
  "transports (handleResponse sid resp w) = transports w"
  "listeners (handleResponse sid resp w) = listeners w"
  "nextRef (handleResponse sid resp w) = nextRef w"
  "nextHandle (handleResponse sid resp w) = nextHandle w"
  by (simp_all add: handleResponse_def pendingResolve_def pendingReject_def Let_def
        split: option.splits)

lemma handleResponse_some:
  assumes "pendingEntry w sid (resp_id resp) = Some (r, h)"
  shows "timers (handleResponse sid resp w) = (timers w)(h := None)"
    and "effects (handleResponse sid resp w) =
           effects w @ [PendingDelete r (resp_id resp), ClearTimeout h, completion h resp]"
    and "heap (handleResponse sid resp w) r' =
           (if r' = r
            then map_option (\<lambda>sv. sv\<lparr>pendingRequests := (pendingRequests sv)(resp_id resp := None)\<rparr>) (heap w r)
            else heap w r')"
    and "promises (handleResponse sid resp w) h' =
           (if h' = h \<and> promises w h = Some Pending then Some (completionOutcome resp)
            else promises w h')"
  using assms
  by (auto simp: pendingEntry_def handleResponse_def pendingResolve_def pendingReject_def Let_def
        completion_def completionOutcome_def pendingDelete_heap settle_promises
        split: option.splits)

lemma pendingEntry_SomeD:
  "pendingEntry w sid i = Some (r, h) \<Longrightarrow>
     activeServers w sid = Some r \<and> (\<exists>sv. heap w r = Some sv \<and> pendingRequests sv i = Some h)"
  by (auto simp: pendingEntry_def split: option.splits)

lemma invEntries_handleResponse:
  assumes "invEntries w"
  shows "invEntries (handleResponse sid resp w)"
proof (cases "pendingEntry w sid (resp_id resp)")
  case None
  then show ?thesis using assms by (simp add: handleResponse_none)
next
  case (Some p)
  obtain r h where p: "pendingEntry w sid (resp_id resp) = Some (r, h)" using Some by (cases p) auto
  from pendingEntry_SomeD[OF p] obtain sv where a: "heap w r = Some sv"
      "pendingRequests sv (resp_id resp) = Some h" by blast
  show ?thesis
    unfolding invEntries_def
  proof (intro allI impI)
    fix r' sv' i' h'
    assume h1: "heap (handleResponse sid resp w) r' = Some sv'"
      and h2: "pendingRequests sv' i' = Some h'"
    from h1 h2 a obtain sv0 where b: "heap w r' = Some sv0" "pendingRequests sv0 i' = Some h'"
        "\<not> (r' = r \<and> i' = resp_id resp)"
      by (auto simp: handleResponse_some[OF p] split: if_splits)
    from entry_unique[OF assms a b(1)] b have "h' \<noteq> h" by auto
    moreover from invEntriesD[OF assms b(1,2)]
    obtain cl where "timers w h' = Some cl \<and> cl_server cl = r' \<and> cl_id cl = i'" by blast
    ultimately show "\<exists>cl. timers (handleResponse sid resp w) h' = Some cl \<and> cl_server cl = r' \<and> cl_id cl = i'"
      by (simp add: handleResponse_some[OF p])
  qed
qed

lemma invTimers_handleResponse:
  assumes "invTimers w"
  shows "invTimers (handleResponse sid resp w)"
proof (cases "pendingEntry w sid (resp_id resp)")
  case None
  then show ?thesis using assms by (simp add: handleResponse_none)
next
  case (Some p)
  obtain r h where p: "pendingEntry w sid (resp_id resp) = Some (r, h)" using Some by (cases p) auto
  show ?thesis using assms
    unfolding invTimers_def
    by (auto simp: handleResponse_some[OF p] completion_def split: if_splits option.splits)
qed

lemma invHistory_handleResponse:
  assumes "invHistory w" "invEntries w" "invTimers w"
  shows "invHistory (handleResponse sid resp w)"
proof (cases "pendingEntry w sid (resp_id resp)")
  case None
  then show ?thesis using assms by (simp add: handleResponse_none)
next
  case (Some p)
  obtain r h where p: "pendingEntry w sid (resp_id resp) = Some (r, h)" using Some by (cases p) auto
  from pendingEntry_SomeD[OF p] obtain sv where a: "heap w r = Some sv"
      "pendingRequests sv (resp_id resp) = Some h" by blast
  from invEntriesD[OF assms(2) a] obtain cl where "timers w h = Some cl" by blast
  with assms(3) have "h < nextHandle w" "TimerFired h \<notin> set (effects w)"
    by (auto simp: invTimers_def)
  then show ?thesis using assms(1)
    unfolding invHistory_def
    by (auto simp: handleResponse_some[OF p] completion_def split: if_splits option.splits)
qed

lemma invClosures_handleResponse:
  assumes "invClosures w"
  shows "invClosures (handleResponse sid resp w)"
proof (cases "pendingEntry w sid (resp_id resp)")
  case None
  then show ?thesis using assms by (simp add: handleResponse_none)
next
  case (Some p)
  obtain r h where p: "pendingEntry w sid (resp_id resp) = Some (r, h)" using Some by (cases p) auto
  show ?thesis using assms
    unfolding invClosures_def
    by (fastforce simp: handleResponse_some[OF p] split: if_splits)
qed

lemma timeoutFires_none: "timers w h = None \<Longrightarrow> timeoutFires h w = w"
  by (simp add: timeoutFires_def)

lemma timeoutFires_same [simp]:
  "activeServers (timeoutFires h w) = activeServers w"
  "serverStates (timeoutFires h w) = serverStates w"
  "servers (timeoutFires h w) = servers w"
  "transports (timeoutFires h w) = transports w"
  "listeners (timeoutFires h w) = listeners w"
  "nextRef (timeoutFires h w) = nextRef w"
  "nextHandle (timeoutFires h w) = nextHandle w"
  by (simp_all add: timeoutFires_def Let_def split: option.splits)

lemma timeoutFires_some:
  assumes "timers w h = Some cl"
  shows "timers (timeoutFires h w) = (timers w)(h := None)"
    and "effects (timeoutFires h w) =
           effects w @ [TimerFired h, PendingDelete (cl_server cl) (cl_id cl),
             RejectCalled h (Error (str ''Request timeout for '' @ cl_method cl))]"
    and "heap (timeoutFires h w) r' =
           (if r' = cl_server cl
            then map_option (\<lambda>sv. sv\<lparr>pendingRequests := (pendingRequests sv)(cl_id cl := None)\<rparr>) (heap w r')
            else heap w r')"
    and "promises (timeoutFires h w) h' =
           (if h' = h \<and> promises w h = Some Pending
            then Some (Rejected (Error (str ''Request timeout for '' @ cl_method cl)))
            else promises w h')"
  using assms
  by (auto simp: timeoutFires_def Let_def pendingDelete_heap settle_promises)

lemma invEntries_timeoutFires:
  assumes "invEntries w"
  shows "invEntries (timeoutFires h w)"
proof (cases "timers w h")
  case None
  then show ?thesis using assms by (simp add: timeoutFires_none)
next
  case (Some cl)
  show ?thesis
    unfolding invEntries_def
  proof (intro allI impI)
    fix r' sv' i' h'
    assume h1: "heap (timeoutFires h w) r' = Some sv'"
      and h2: "pendingRequests sv' i' = Some h'"
    from h1 h2 obtain sv0 where b: "heap w r' = Some sv0" "pendingRequests sv0 i' = Some h'"
        "\<not> (r' = cl_server cl \<and> i' = cl_id cl)"
      by (auto simp: timeoutFires_some[OF Some] split: if_splits)
    from invEntriesD[OF assms b(1,2)]
    obtain cl' where c: "timers w h' = Some cl'" "cl_server cl' = r'" "cl_id cl' = i'" by blast
    with b(3) Some have "h' \<noteq> h" by auto
    with c show "\<exists>cl. timers (timeoutFires h w) h' = Some cl \<and> cl_server cl = r' \<and> cl_id cl = i'"
      by (simp add: timeoutFires_some[OF Some])
  qed
qed

lemma invTimers_timeoutFires:
  assumes "invTimers w"
  shows "invTimers (timeoutFires h w)"
proof (cases "timers w h")
  case None
  then show ?thesis using assms by (simp add: timeoutFires_none)
next
  case (Some cl)
  show ?thesis using assms
    unfolding invTimers_def
    by (auto simp: timeoutFires_some[OF Some] split: if_splits)
qed

lemma invHistory_timeoutFires:
  assumes "invHistory w" "invTimers w"
  shows "invHistory (timeoutFires h w)"
proof (cases "timers w h")
  case None
  then show ?thesis using assms by (simp add: timeoutFires_none)
next
  case (Some cl)
  with assms(2) have "h < nextHandle w" "ClearTimeout h \<notin> set (effects w)"
    by (auto simp: invTimers_def)
  then show ?thesis using assms(1)
    unfolding invHistory_def
    by (auto simp: timeoutFires_some[OF Some])
qed

lemma invClosures_timeoutFires:
  assumes "invClosures w"
  shows "invClosures (timeoutFires h w)"
proof (cases "timers w h")
  case None
  then show ?thesis using assms by (simp add: timeoutFires_none)
next
  case (Some cl)
  show ?thesis using assms
    unfolding invClosures_def
    by (fastforce simp: timeoutFires_some[OF Some] split: if_splits)
qed

lemma transportFails_none: "transports w h = None \<Longrightarrow> transportFails h e w = w"
  by (simp add: transportFails_def)

lemma transportFails_same [simp]:
  "activeServers (transportFails h e w) = activeServers w"
  "serverStates (transportFails h e w) = serverStates w"
  "servers (transportFails h e w) = servers w"
  "timers (transportFails h e w) = timers w"
  "listeners (transportFails h e w) = listeners w"
  "nextRef (transportFails h e w) = nextRef w"
  "nextHandle (transportFails h e w) = nextHandle w"
  by (simp_all add: transportFails_def Let_def split: option.splits)

lemma transportFails_some:
  assumes "transports w h = Some cl"
  shows "effects (transportFails h e w) =
           effects w @ [PendingDelete (cl_server cl) (cl_id cl), RejectCalled h e]"
    and "heap (transportFails h e w) r' =
           (if r' = cl_server cl
            then map_option (\<lambda>sv. sv\<lparr>pendingRequests := (pendingRequests sv)(cl_id cl := None)\<rparr>) (heap w r')
            else heap w r')"
  using assms
  by (auto simp: transportFails_def Let_def pendingDelete_heap)

lemma inv_transportFails:
  "invEntries w \<Longrightarrow> invEntries (transportFails h e w)"
  "invTimers w \<Longrightarrow> invTimers (transportFails h e w)"
  "invHistory w \<Longrightarrow> invHistory (transportFails h e w)"
  "invClosures w \<Longrightarrow> invClosures (transportFails h e w)"
proof -
  show "invEntries w \<Longrightarrow> invEntries (transportFails h e w)"
    by (cases "transports w h")
      (auto simp: transportFails_none transportFails_some invEntries_def split: if_splits)
  show "invTimers w \<Longrightarrow> invTimers (transportFails h e w)"
    by (cases "transports w h")
      (auto simp: transportFails_none transportFails_some invTimers_def split: if_splits)
  show "invHistory w \<Longrightarrow> invHistory (transportFails h e w)"
    by (cases "transports w h")
      (auto simp: transportFails_none transportFails_some invHistory_def split: if_splits)
  show "invClosures w \<Longrightarrow> invClosures (transportFails h e w)"
    by (cases "transports w h")
      (fastforce simp: transportFails_none transportFails_some invClosures_def split: if_splits)+
qed

lemma inv_dropTransport [simp]:
  "invEntries (dropTransport h w) = invEntries w"
  "invTimers (dropTransport h w) = invTimers w"
  "invHistory (dropTransport h w) = invHistory w"
  "invClosures (dropTransport h w) = invClosures w"
  by (simp_all add: dropTransport_def invEntries_def invTimers_def invHistory_def invClosures_def)

lemma transportDone_cases:
  "transportDone h direct w = w \<or> transportDone h direct w = dropTransport h w \<or>
   (\<exists>sid d. transportDone h direct w = handleResponse sid d (dropTransport h w))"
  by (auto simp: transportDone_def dropTransport_def Let_def split: option.splits transport.splits)

lemma invPromises_handleResponse:
  assumes "invPromises w" "invEntries w"
  shows "invPromises (handleResponse sid resp w)"
proof (cases "pendingEntry w sid (resp_id resp)")
  case None
  then show ?thesis using assms by (simp add: handleResponse_none)
next
  case (Some p)
  obtain r h where p: "pendingEntry w sid (resp_id resp) = Some (r, h)" using Some by (cases p) auto
  from pendingEntry_SomeD[OF p] obtain sv where a: "heap w r = Some sv"
      "pendingRequests sv (resp_id resp) = Some h" by blast
  show ?thesis
    unfolding invPromises_def
  proof (intro allI impI)
    fix r' sv' i' h'
    assume h1: "heap (handleResponse sid resp w) r' = Some sv'"
      and h2: "pendingRequests sv' i' = Some h'"
    from h1 h2 a obtain sv0 where b: "heap w r' = Some sv0" "pendingRequests sv0 i' = Some h'"
        "\<not> (r' = r \<and> i' = resp_id resp)"
      by (auto simp: handleResponse_some[OF p] split: if_splits)
    from entry_unique[OF assms(2) a b(1)] b have "h' \<noteq> h" by auto
    moreover from assms(1) b have "promises w h' = Some Pending" unfolding invPromises_def by blast
    ultimately show "promises (handleResponse sid resp w) h' = Some Pending"
      by (simp add: handleResponse_some[OF p])
  qed
qed

lemma invTransports_handleResponse:
  assumes "invTransports w"
  shows "invTransports (handleResponse sid resp w)"
proof (cases "pendingEntry w sid (resp_id resp)")
  case None
  then show ?thesis using assms by (simp add: handleResponse_none)
next
  case (Some p)
  obtain r h where p: "pendingEntry w sid (resp_id resp) = Some (r, h)" using Some by (cases p) auto
  show ?thesis using assms unfolding invTransports_def
    by (auto simp: handleResponse_some[OF p] split: if_splits)
qed

lemma invPromises_timeoutFires:
  assumes "invPromises w" "invEntries w"
  shows "invPromises (timeoutFires h w)"
proof (cases "timers w h")
  case None
  then show ?thesis using assms by (simp add: timeoutFires_none)
next
  case (Some cl)
  show ?thesis
    unfolding invPromises_def
  proof (intro allI impI)
    fix r' sv' i' h'
    assume h1: "heap (timeoutFires h w) r' = Some sv'"
      and h2: "pendingRequests sv' i' = Some h'"
    from h1 h2 obtain sv0 where b: "heap w r' = Some sv0" "pendingRequests sv0 i' = Some h'"
        "\<not> (r' = cl_server cl \<and> i' = cl_id cl)"
      by (auto simp: timeoutFires_some[OF Some] split: if_splits)
    from invEntriesD[OF assms(2) b(1,2)]
    obtain cl' where c: "timers w h' = Some cl'" "cl_server cl' = r'" "cl_id cl' = i'" by blast
    with b(3) Some have "h' \<noteq> h" by auto
    moreover from assms(1) b have "promises w h' = Some Pending" unfolding invPromises_def by blast
    ultimately show "promises (timeoutFires h w) h' = Some Pending"
      by (simp add: timeoutFires_some[OF Some])
  qed
qed

lemma invTransports_timeoutFires:
  assumes "invTransports w"
  shows "invTransports (timeoutFires h w)"
proof (cases "timers w h")
  case None
  then show ?thesis using assms by (simp add: timeoutFires_none)
next
  case (Some cl)
  show ?thesis using assms unfolding invTransports_def
    by (auto simp: timeoutFires_some[OF Some] split: if_splits)
qed

lemma transportFails_some2:
  assumes "transports w h = Some cl"
  shows "transports (transportFails h e w) = (transports w)(h := None)"
    and "promises (transportFails h e w) h' =
           (if h' = h \<and> promises w h = Some Pending then Some (Rejected e) else promises w h')"
  using assms
  by (auto simp: transportFails_def Let_def settle_promises)

lemma invPromises_transportFails:
  assumes "invPromises w" "invEntries w" "invTransports w"
  shows "invPromises (transportFails h e w)"
proof (cases "transports w h")
  case None
  then show ?thesis using assms by (simp add: transportFails_none)
next
  case (Some cl)
  show ?thesis
    unfolding invPromises_def
  proof (intro allI impI)
    fix r' sv' i' h'
    assume h1: "heap (transportFails h e w) r' = Some sv'"
      and h2: "pendingRequests sv' i' = Some h'"
    from h1 h2 obtain sv0 where b: "heap w r' = Some sv0" "pendingRequests sv0 i' = Some h'"
        "\<not> (r' = cl_server cl \<and> i' = cl_id cl)"
      by (auto simp: transportFails_some[OF Some] split: if_splits)
    from invEntriesD[OF assms(2) b(1,2)]
    obtain cl' where c: "timers w h' = Some cl'" "cl_server cl' = r'" "cl_id cl' = i'" by blast
    have "h' \<noteq> h"
    proof
      assume "h' = h"
      with c Some assms(3) have "cl' = cl" unfolding invTransports_def by blast
      with c b(3) show False by simp
    qed
    moreover from assms(1) b have "promises w h' = Some Pending" unfolding invPromises_def by blast
    ultimately show "promises (transportFails h e w) h' = Some Pending"
      by (simp add: transportFails_some2[OF Some])
  qed
qed

lemma invTransports_transportFails:
  assumes "invTransports w"
  shows "invTransports (transportFails h e w)"
proof (cases "transports w h")
  case None
  then show ?thesis using assms by (simp add: transportFails_none)
next
  case (Some cl)
  show ?thesis using assms unfolding invTransports_def
    by (auto simp: transportFails_some2[OF Some] split: if_splits)
qed

lemma inv_dropTransport2:
  "invPromises (dropTransport h w) = invPromises w"
  "invTransports w \<Longrightarrow> invTransports (dropTransport h w)"
  by (auto simp: dropTransport_def invPromises_def invTransports_def)

lemma allInv_initial: "allInv (initialWorld cfgs)"
  by (simp add: allInv_def invEntries_def invTimers_def invHistory_def invClosures_def
        invPromises_def invTransports_def initialWorld_def)

lemma allInv_handleResponse: "allInv w \<Longrightarrow> allInv (handleResponse sid resp w)"
  by (simp add: allInv_def invEntries_handleResponse invTimers_handleResponse
        invHistory_handleResponse invClosures_handleResponse invPromises_handleResponse
        invTransports_handleResponse)

lemma allInv_timeoutFires: "allInv w \<Longrightarrow> allInv (timeoutFires h w)"
  by (simp add: allInv_def invEntries_timeoutFires invTimers_timeoutFires
        invHistory_timeoutFires invClosures_timeoutFires invPromises_timeoutFires
        invTransports_timeoutFires)

lemma allInv_transportFails: "allInv w \<Longrightarrow> allInv (transportFails h e w)"
  by (simp add: allInv_def inv_transportFails invPromises_transportFails
        invTransports_transportFails)

lemma allInv_dropTransport: "allInv w \<Longrightarrow> allInv (dropTransport h w)"
  by (simp add: allInv_def inv_dropTransport2)

lemma allInv_transportDone: "allInv w \<Longrightarrow> allInv (transportDone h direct w)"
  using transportDone_cases[of h direct w] allInv_handleResponse[of "dropTransport h w"]
    allInv_dropTransport[of w h]
  by auto

lemma sendVia_fail:
  "fst (sendVia t sid m p w) = Inl e \<Longrightarrow> snd (sendVia t sid m p w) = w"
  by (auto simp: sendVia_def Let_def split: option.splits if_splits)

lemma sendVia_ok:
  assumes "fst (sendVia t sid m p w) = Inr h"
  obtains r sv k cl x where
    "activeServers w sid = Some r" "heap w r = Some sv" "srv_transport sv = t"
    "h = nextHandle w" "k = Suc (requestId sv)"
    "cl = \<lparr>cl_serverId = sid, cl_server = r, cl_id = NumId (of_nat k), cl_method = m\<rparr>"
    "heap (snd (sendVia t sid m p w)) =
       (heap w)(r \<mapsto> sv\<lparr>requestId := k,
                          pendingRequests := (pendingRequests sv)(NumId (of_nat k) \<mapsto> h)\<rparr>)"
    "timers (snd (sendVia t sid m p w)) = (timers w)(h \<mapsto> cl)"
    "transports (snd (sendVia t sid m p w)) = (transports w)(h \<mapsto> cl)"
    "promises (snd (sendVia t sid m p w)) = (promises w)(h \<mapsto> Pending)"
    "nextHandle (snd (sendVia t sid m p w)) = Suc h"
    "nextRef (snd (sendVia t sid m p w)) = nextRef w"
    "activeServers (snd (sendVia t sid m p w)) = activeServers w"
    "effects (snd (sendVia t sid m p w)) = effects w @ [x]"
    "x = (case t of
            Stdio \<Rightarrow> WriteStdin sid (Request \<lparr>req_id = NumId (of_nat k), req_method = m, req_params = p\<rparr>)
          | Http \<Rightarrow> FetchPost (srv_url sv) (Request \<lparr>req_id = NumId (of_nat k), req_method = m, req_params = p\<rparr>))"
  using assms
  by (auto simp: sendVia_def Let_def simp del: of_nat_Suc split: option.splits if_splits)

lemma allInv_sendVia:
  assumes "allInv w"
  shows "allInv (snd (sendVia t sid m p w))"
proof (cases "fst (sendVia t sid m p w)")
  case (Inl e)
  then show ?thesis using assms by (simp add: sendVia_fail)
next
  case (Inr h)
  show ?thesis
  proof (rule sendVia_ok[OF Inr], goal_cases)
    case (1 r sv k cl x)
    define w' where "w' = snd (sendVia t sid m p w)"
    note a = 1(1,2,4,5)
    have cl: "cl_server cl = r" "cl_id cl = NumId (of_nat k)" "cl_serverId cl = sid"
      using 1(6) by simp_all
    note heap' = 1(7)[folded w'_def]
    note timers' = 1(8)[folded w'_def]
    note rest = 1(11,12,13)[folded w'_def]
    note eff = 1(14)[folded w'_def]
    have x': "\<And>j. x \<noteq> TimerFired j" "\<And>j. x \<noteq> ClearTimeout j"
      using 1(15) by (auto split: transport.splits)
    from assms have I: "invEntries w" "invTimers w" "invHistory w" "invClosures w"
        "invPromises w" "invTransports w"
      by (simp_all add: allInv_def)
    note transports' = 1(9)[folded w'_def]
    note promises' = 1(10)[folded w'_def]
    have fresh: "timers w h = None" using I(2) a(3) by (cases "timers w h") (auto simp: invTimers_def)
    have nofire: "TimerFired h \<notin> set (effects w)" "ClearTimeout h \<notin> set (effects w)"
      using I(3) a(3) by (auto simp: invHistory_def)
    have i1: "invEntries w'"
      unfolding invEntries_def
    proof (intro allI impI)
      fix r' sv' i' h'
      assume h1: "heap w' r' = Some sv'" and h2: "pendingRequests sv' i' = Some h'"
      show "\<exists>cl. timers w' h' = Some cl \<and> cl_server cl = r' \<and> cl_id cl = i'"
      proof (cases "r' = r \<and> i' = NumId (of_nat k)")
        case True
        with h1 h2 cl show ?thesis by (auto simp: heap' timers')
      next
        case False
        with h1 h2 a obtain sv0 where b: "heap w r' = Some sv0" "pendingRequests sv0 i' = Some h'"
          by (auto simp: heap' split: if_splits)
        from invEntriesD[OF I(1) b] obtain c where c: "timers w h' = Some c" "cl_server c = r'" "cl_id c = i'" by blast
        with fresh have "h' \<noteq> h" by auto
        with c show ?thesis by (simp add: timers')
      qed
    qed
    have i2: "invTimers w'"
      using I(2) nofire x' a(3) unfolding invTimers_def
      by (auto simp: timers' rest eff less_Suc_eq split: if_splits)
    have i3: "invHistory w'"
      using I(3) x' unfolding invHistory_def
      by (auto simp: rest eff less_Suc_eq a(3))
    have i4: "invClosures w'"
      unfolding invClosures_def
    proof (intro conjI allI impI)
      fix h' c assume t: "timers w' h' = Some c"
      show "activeServers w' (cl_serverId c) = Some (cl_server c)"
        using t I(4) a cl by (auto simp: timers' rest invClosures_def split: if_splits)
      show "\<exists>sv k. heap w' (cl_server c) = Some sv \<and> cl_id c = NumId (of_nat k) \<and> k \<le> requestId sv"
      proof (cases "h' = h")
        case True
        with t cl show ?thesis by (auto simp: timers' heap')
      next
        case False
        with t have "timers w h' = Some c" by (simp add: timers')
        with I(4) obtain sv0 k0 where "heap w (cl_server c) = Some sv0" "cl_id c = NumId (of_nat k0)" "k0 \<le> requestId sv0"
          unfolding invClosures_def by blast
        with a show ?thesis by (auto simp: heap')
      qed
    next
      fix sid' r' assume "activeServers w' sid' = Some r'"
      with I(4) show "r' < nextRef w'" by (auto simp: rest invClosures_def)
    qed
    have i5: "invPromises w'"
      unfolding invPromises_def
    proof (intro allI impI)
      fix r' sv' i' h'
      assume h1: "heap w' r' = Some sv'" and h2: "pendingRequests sv' i' = Some h'"
      show "promises w' h' = Some Pending"
      proof (cases "h' = h")
        case True
        then show ?thesis by (simp add: promises')
      next
        case False
        with h1 h2 a obtain sv0 where b: "heap w r' = Some sv0" "pendingRequests sv0 i' = Some h'"
          by (auto simp: heap' split: if_splits)
        with I(5) have "promises w h' = Some Pending" unfolding invPromises_def by blast
        with False show ?thesis by (simp add: promises')
      qed
    qed
    have i6: "invTransports w'"
      using I(6) fresh a(3) unfolding invTransports_def
      by (auto simp: transports' timers' rest less_Suc_eq split: if_splits)
    from i1 i2 i3 i4 i5 i6 show ?thesis by (simp add: allInv_def w'_def)
  qed
qed

lemma allInv_sendFn: "allInv w \<Longrightarrow> allInv (snd (sendFn sid m p w))"
  by (auto simp: sendFn_def sendStdioRequest_def sendHttpRequest_def allInv_sendVia
        split: option.splits)

lemma allInv_register:
  assumes "allInv w" "activeServers w sid = None"
  shows "allInv (registerSession sid (newServerState t u) w)"
proof -
  from assms have I: "invEntries w" "invTimers w" "invHistory w" "invClosures w"
      "invPromises w" "invTransports w"
    by (simp_all add: allInv_def)
  have 5: "invPromises (registerSession sid (newServerState t u) w)"
    using I(5) unfolding invPromises_def
    by (auto simp: registerSession_def newServerState_def split: if_splits)
  have 6: "invTransports (registerSession sid (newServerState t u) w)"
    using I(6) unfolding invTransports_def by (auto simp: registerSession_def)
  have 1: "invEntries (registerSession sid (newServerState t u) w)"
    using I(1) unfolding invEntries_def
    by (auto simp: registerSession_def newServerState_def split: if_splits)
  have 2: "invTimers (registerSession sid (newServerState t u) w)"
    using I(2) unfolding invTimers_def by (auto simp: registerSession_def)
  have 3: "invHistory (registerSession sid (newServerState t u) w)"
    using I(3) unfolding invHistory_def by (auto simp: registerSession_def)
  have 4: "invClosures (registerSession sid (newServerState t u) w)"
    unfolding invClosures_def
  proof (intro conjI allI impI)
    fix h c assume "timers (registerSession sid (newServerState t u) w) h = Some c"
    then have t: "timers w h = Some c" by (simp add: registerSession_def)
    with I(4) obtain sv0 k0 where c: "activeServers w (cl_serverId c) = Some (cl_server c)"
        "heap w (cl_server c) = Some sv0" "cl_id c = NumId (of_nat k0)" "k0 \<le> requestId sv0"
      unfolding invClosures_def by blast
    from c(1) I(4) have lt: "cl_server c < nextRef w" unfolding invClosures_def by blast
    from c(1) assms(2) have ne: "cl_serverId c \<noteq> sid" by auto
    show "activeServers (registerSession sid (newServerState t u) w) (cl_serverId c) = Some (cl_server c)"
      using c(1) ne by (simp add: registerSession_def)
    show "\<exists>sv k. heap (registerSession sid (newServerState t u) w) (cl_server c) = Some sv \<and>
             cl_id c = NumId (of_nat k) \<and> k \<le> requestId sv"
      using c lt by (auto simp: registerSession_def)
  next
    fix sid' r' assume "activeServers (registerSession sid (newServerState t u) w) sid' = Some r'"
    then show "r' < nextRef (registerSession sid (newServerState t u) w)"
      using I(4) unfolding invClosures_def
      by (auto simp: registerSession_def less_Suc_eq split: if_splits)
  qed
  from 1 2 3 4 5 6 show ?thesis by (simp add: allInv_def)
qed

lemma allInv_step: "allInv w \<Longrightarrow> allInv (step ev w)"
proof (cases ev)
  case (EvRegister sid t)
  then show "allInv w \<Longrightarrow> allInv (step ev w)"
    using allInv_register[of w sid t "[]"] by (cases "activeServers w sid") simp_all
qed (simp_all add: allInv_sendFn allInv_handleResponse allInv_timeoutFires
       allInv_transportFails allInv_transportDone)

lemma allInv_run: "allInv w \<Longrightarrow> allInv (run evs w)"
  unfolding run_def by (induction evs arbitrary: w) (simp_all add: allInv_step)

lemma effects_handleResponse: "set (effects w) \<subseteq> set (effects (handleResponse sid d w))"
  by (cases "pendingEntry w sid (resp_id d)")
    (auto simp: handleResponse_none handleResponse_some)

lemma effects_step: "set (effects w) \<subseteq> set (effects (step ev w))"
proof (cases ev)
  case (EvRegister sid t)
  then show ?thesis by (simp add: registerSession_def)
next
  case (EvSend sid m p)
  have "\<And>t. set (effects w) \<subseteq> set (effects (snd (sendVia t sid m p w)))"
    by (auto simp: sendVia_def Let_def split: option.splits)
  then show ?thesis using EvSend
    by (simp add: sendFn_def sendStdioRequest_def sendHttpRequest_def split: option.splits)
next
  case (EvResponse sid resp)
  then show ?thesis
    by (cases "pendingEntry w sid (resp_id resp)")
      (auto simp: handleResponse_none handleResponse_some)
next
  case (EvTimeout h)
  then show ?thesis
    by (cases "timers w h") (auto simp: timeoutFires_none timeoutFires_some)
next
  case (EvTransportFail h e)
  then show ?thesis
    by (cases "transports w h") (auto simp: transportFails_none transportFails_some)
next
  case (EvTransportDone h direct)
  have "effects (dropTransport h w) = effects w" by (simp add: dropTransport_def)
  with effects_handleResponse[of "dropTransport h w"] show ?thesis
    using EvTransportDone transportDone_cases[of h direct w] by fastforce
qed

lemma effects_run: "set (effects w) \<subseteq> set (effects (run evs w))"
  unfolding run_def
proof (induction evs arbitrary: w)
  case Nil
  show ?case by simp
next
  case (Cons ev evs)
  from effects_step[of w ev] Cons[of "step ev w"] show ?case by auto
qed

lemma deadId_discard:
  "deadId w sid (resp_id resp) \<Longrightarrow> handleResponse sid resp w = w"
  by (rule handleResponse_none) (auto simp: deadId_def pendingEntry_def)

lemma deadId_handleResponse:
  assumes "deadId w sid i" shows "deadId (handleResponse sid' resp w) sid i"
proof (cases "pendingEntry w sid' (resp_id resp)")
  case None
  then show ?thesis using assms by (simp add: handleResponse_none)
next
  case (Some p)
  obtain r h where p: "pendingEntry w sid' (resp_id resp) = Some (r, h)" using Some by (cases p) auto
  show ?thesis using assms unfolding deadId_def
    by (auto simp: handleResponse_some[OF p])
qed

lemma deadId_sendVia:
  assumes "deadId w sid i" shows "deadId (snd (sendVia t sid' m p w)) sid i"
proof (cases "fst (sendVia t sid' m p w)")
  case (Inl e)
  then show ?thesis using assms by (simp add: sendVia_fail)
next
  case (Inr h)
  show ?thesis
  proof (rule sendVia_ok[OF Inr], goal_cases)
    case (1 r sv k cl x)
    from assms obtain r0 sv0 k0 where d: "activeServers w sid = Some r0" "r0 < nextRef w"
      "heap w r0 = Some sv0" "i = NumId (of_nat k0)" "k0 \<le> requestId sv0" "pendingRequests sv0 i = None"
      unfolding deadId_def by blast
    show ?thesis
    proof (cases "r0 = r")
      case True
      with d 1(2,5) have "k0 \<noteq> k" by auto
      then have "(of_nat k0 :: rat) \<noteq> of_nat k" by simp
      with d True 1(2,5) show ?thesis
        unfolding deadId_def
        by (auto simp: 1(7,12,13) intro!: exI[of _ k0])
    next
      case False
      with d show ?thesis unfolding deadId_def by (auto simp: 1(7,12,13))
    qed
  qed
qed

lemma deadId_step:
  assumes "deadId w sid i" shows "deadId (step ev w) sid i"
proof (cases ev)
  case (EvRegister sid' t)
  from assms obtain r sv k where d: "activeServers w sid = Some r" "r < nextRef w"
      "heap w r = Some sv" "i = NumId (of_nat k)" "k \<le> requestId sv" "pendingRequests sv i = None"
    unfolding deadId_def by blast
  show ?thesis
  proof (cases "activeServers w sid' = None")
    case True
    with d have "sid \<noteq> sid'" by auto
    with d True EvRegister show ?thesis unfolding deadId_def
      by (auto simp: registerSession_def less_Suc_eq intro!: exI[of _ r])
  next
    case False
    with EvRegister assms show ?thesis by simp
  qed
next
  case (EvSend sid' m p)
  then show ?thesis using assms
    by (auto simp: sendFn_def sendStdioRequest_def sendHttpRequest_def deadId_sendVia
          split: option.splits)
next
  case (EvResponse sid' resp)
  then show ?thesis using assms by (simp add: deadId_handleResponse)
next
  case (EvTimeout h)
  then show ?thesis using assms unfolding deadId_def
    by (cases "timers w h") (auto simp: timeoutFires_none timeoutFires_some)
next
  case (EvTransportFail h e)
  then show ?thesis using assms unfolding deadId_def
    by (cases "transports w h") (auto simp: transportFails_none transportFails_some)
next
  case (EvTransportDone h direct)
  have "deadId (dropTransport h w) sid i" using assms by (simp add: deadId_def dropTransport_def)
  then show ?thesis using EvTransportDone transportDone_cases[of h direct w] assms
    by (auto simp: deadId_handleResponse)
qed

lemma deadId_run: "deadId w sid i \<Longrightarrow> deadId (run evs w) sid i"
  unfolding run_def by (induction evs arbitrary: w) (simp_all add: deadId_step)

lemma deadId_after_timeout:
  assumes "allInv w" "timers w h = Some cl"
  shows "deadId (timeoutFires h w) (cl_serverId cl) (cl_id cl)"
proof -
  from assms have "invClosures w" by (simp add: allInv_def)
  with assms(2) obtain sv k where c: "activeServers w (cl_serverId cl) = Some (cl_server cl)"
      "heap w (cl_server cl) = Some sv" "cl_id cl = NumId (of_nat k)" "k \<le> requestId sv"
      "cl_server cl < nextRef w"
    unfolding invClosures_def by blast
  then show ?thesis unfolding deadId_def
    by (auto simp: timeoutFires_some[OF assms(2)])
qed

lemma pendingEntry_after:
  assumes "pendingEntry w sid (resp_id resp) = Some (r, h)"
  shows "pendingEntry (handleResponse sid resp w) sid i =
           (if i = resp_id resp then None else pendingEntry w sid i)"
  using pendingEntry_SomeD[OF assms]
  by (auto simp: pendingEntry_def handleResponse_some[OF assms] split: option.splits)

subsection \<open>At-most-once completion\<close>

text \<open>
  \<^bold>\<open>Claim C1.\<close>  In every world reached by any sequence of events from the initial
  state, and for every response handed to \<open>handleResponse\<close>:
  \<^item> when the response's id has no pending entry in the session, the world is unchanged
    (the response is discarded, no promise is touched);
  \<^item> otherwise exactly one request \<open>h\<close> is completed: the entry is deleted first, then the
    timer is cleared, then the promise's resolve or reject is called; the promise was
    pending and gets the response's outcome; no other promise changes; the entry is gone, so
    a second delivery of the same response is discarded; the timer of \<open>h\<close> has not fired
    and never fires afterwards;
  \<^item> no request has both its timer fired and its entry completed by a response;
  \<^item> once the timer of a request has fired, a response with that request's id delivered
    to its session at any later time is discarded.
\<close>
theorem correlator_response_at_most_once:
  "let w = run evs (initialWorld cfgs); w' = handleResponse serverId response w in
     (case pendingEntry w serverId (resp_id response) of
        None \<Rightarrow> w' = w
      | Some (r, h) \<Rightarrow>
          effects w' = effects w @
            [PendingDelete r (resp_id response), ClearTimeout h, completion h response] \<and>
          promises w h = Some Pending \<and>
          promises w' h = Some (completionOutcome response) \<and>
          (\<forall>h'. h' \<noteq> h \<longrightarrow> promises w' h' = promises w h') \<and>
          pendingEntry w' serverId (resp_id response) = None \<and>
          TimerFired h \<notin> set (effects w) \<and>
          (\<forall>evs'. TimerFired h \<notin> set (effects (run evs' w')))) \<and>
     (\<forall>h. \<not> (TimerFired h \<in> set (effects w) \<and> ClearTimeout h \<in> set (effects w))) \<and>
     (\<forall>h cl evs'. timers w h = Some cl \<longrightarrow> resp_id response = cl_id cl \<longrightarrow>
        (let w2 = run evs' (timeoutFires h w)
         in handleResponse (cl_serverId cl) response w2 = w2))"
proof -
  define w where "w = run evs (initialWorld cfgs)"
  define w' where "w' = handleResponse serverId response w"
  have inv: "allInv w" unfolding w_def by (rule allInv_run[OF allInv_initial])
  have inv': "allInv w'" unfolding w'_def by (rule allInv_handleResponse[OF inv])
  have A: "case pendingEntry w serverId (resp_id response) of
        None \<Rightarrow> w' = w
      | Some (r, h) \<Rightarrow>
          effects w' = effects w @
            [PendingDelete r (resp_id response), ClearTimeout h, completion h response] \<and>
          promises w h = Some Pending \<and>
          promises w' h = Some (completionOutcome response) \<and>
          (\<forall>h'. h' \<noteq> h \<longrightarrow> promises w' h' = promises w h') \<and>
          pendingEntry w' serverId (resp_id response) = None \<and>
          TimerFired h \<notin> set (effects w) \<and>
          (\<forall>evs'. TimerFired h \<notin> set (effects (run evs' w')))"
  proof (cases "pendingEntry w serverId (resp_id response)")
    case None
    then show ?thesis by (simp add: w'_def handleResponse_none)
  next
    case (Some p)
    obtain r h where p: "pendingEntry w serverId (resp_id response) = Some (r, h)"
      using Some by (cases p) auto
    from pendingEntry_SomeD[OF p] obtain sv where a: "heap w r = Some sv"
      "pendingRequests sv (resp_id response) = Some h" by blast
    from inv a have pend: "promises w h = Some Pending"
      unfolding allInv_def invPromises_def by blast
    from inv a obtain cl where "timers w h = Some cl"
      unfolding allInv_def invEntries_def by blast
    with inv have nf: "TimerFired h \<notin> set (effects w)"
      unfolding allInv_def invTimers_def by blast
    have later: "TimerFired h \<notin> set (effects (run evs' w'))" for evs'
    proof -
      have "allInv (run evs' w')" by (rule allInv_run[OF inv'])
      moreover have "ClearTimeout h \<in> set (effects w')"
        by (simp add: w'_def handleResponse_some[OF p])
      then have "ClearTimeout h \<in> set (effects (run evs' w'))"
        using effects_run[of w' evs'] by blast
      ultimately show ?thesis unfolding allInv_def invHistory_def by blast
    qed
    show ?thesis
      using pend nf later
      by (simp add: p w'_def handleResponse_some[OF p] pendingEntry_after[OF p])
  qed
  have B: "\<forall>h. \<not> (TimerFired h \<in> set (effects w) \<and> ClearTimeout h \<in> set (effects w))"
    using inv unfolding allInv_def invHistory_def by blast
  have C: "\<forall>h cl evs'. timers w h = Some cl \<longrightarrow> resp_id response = cl_id cl \<longrightarrow>
        (let w2 = run evs' (timeoutFires h w)
         in handleResponse (cl_serverId cl) response w2 = w2)"
  proof (intro allI impI)
    fix h cl evs'
    assume t: "timers w h = Some cl" and i: "resp_id response = cl_id cl"
    from deadId_run[OF deadId_after_timeout[OF inv t], of evs']
    show "let w2 = run evs' (timeoutFires h w)
         in handleResponse (cl_serverId cl) response w2 = w2"
      by (simp add: Let_def deadId_discard i)
  qed
  show ?thesis
    unfolding Let_def
    using A[unfolded w'_def w_def] B[unfolded w_def] C[unfolded w_def Let_def]
    by (intro conjI)
qed

lemma exampleRun_fields:
  "activeServers exampleRun = [exampleServer \<mapsto> 0]"
  "heap exampleRun = [0 \<mapsto> \<lparr>srv_transport = Stdio, requestId = 1,
       pendingRequests = [NumId 1 \<mapsto> 0], buffer = [], eventSource = False,
       sessionId = None, srv_url = []\<rparr>]"
  "promises exampleRun = [0 \<mapsto> Pending]"
  "timers exampleRun = [0 \<mapsto> \<lparr>cl_serverId = exampleServer, cl_server = 0, cl_id = NumId 1,
       cl_method = str ''tools/list''\<rparr>]"
  by (simp_all add: exampleRun_def run_def initialWorld_def registerSession_def newServerState_def
        sendFn_def sendStdioRequest_def sendVia_def Let_def emit_def)

lemma exampleRun_entry:
  "pendingEntry exampleRun exampleServer (resp_id exampleReply) = Some (0, 0)"
  by (simp add: pendingEntry_def exampleRun_fields exampleReply_def)

theorem correlator_response_at_most_once_witness:
  "pendingEntry exampleRun exampleServer (NumId 1) = Some (0, 0) \<and>
   promises (handleResponse exampleServer exampleReply exampleRun) 0 =
     Some (Resolved (Some (JObj []))) \<and>
   TimerFired 0 \<notin> set (effects (run [EvTimeout 0]
     (handleResponse exampleServer exampleReply exampleRun))) \<and>
   handleResponse exampleServer exampleReply (run [] (timeoutFires 0 exampleRun)) =
     run [] (timeoutFires 0 exampleRun)"
proof -
  note T = correlator_response_at_most_once
    [of "[EvRegister exampleServer Stdio, EvSend exampleServer (str ''tools/list'') None]" "[]"
        exampleServer exampleReply, folded exampleRun_def, unfolded Let_def exampleRun_entry]
  have 1: "pendingEntry exampleRun exampleServer (NumId 1) = Some (0, 0)"
    using exampleRun_entry by (simp add: exampleReply_def)
  have 2: "promises (handleResponse exampleServer exampleReply exampleRun) 0 =
     Some (Resolved (Some (JObj [])))"
    using T by (simp add: completionOutcome_def exampleReply_def)
  have 3: "TimerFired 0 \<notin> set (effects (run [EvTimeout 0]
     (handleResponse exampleServer exampleReply exampleRun)))"
    using T by simp
  have 4: "handleResponse exampleServer exampleReply (run [] (timeoutFires 0 exampleRun)) =
     run [] (timeoutFires 0 exampleRun)"
    using T[THEN conjunct2, THEN conjunct2, rule_format,
        of 0 "\<lparr>cl_serverId = exampleServer, cl_server = 0, cl_id = NumId 1,
                cl_method = str ''tools/list''\<rparr>" "[]"]
    by (simp add: exampleRun_fields(4) exampleReply_def)
  from 1 2 3 4 show ?thesis by blast
qed

subsection \<open>Protocol errors\<close>

text \<open>
  \<^bold>\<open>Claim C7 (as amended).\<close>  When a response with a JSON-RPC error object arrives for
  a pending request, exactly that request's promise is rejected, with a plain
  \<open>Error\<close> whose message is the protocol error's message; the promises and timers of all
  other requests and the other pending entries of the session are unchanged.  The
  protocol error's code is not part of the rejection.
\<close>
theorem protocol_error_rejects_with_message:
  "let w = run evs (initialWorld cfgs); w' = handleResponse serverId response w in
     \<forall>r h e. pendingEntry w serverId (resp_id response) = Some (r, h) \<longrightarrow>
       resp_error response = Some e \<longrightarrow>
         promises w h = Some Pending \<and>
         promises w' h = Some (Rejected (Error (err_message e))) \<and>
         effects w' = effects w @
           [PendingDelete r (resp_id response), ClearTimeout h,
            RejectCalled h (Error (err_message e))] \<and>
         (\<forall>h'. h' \<noteq> h \<longrightarrow> promises w' h' = promises w h' \<and> timers w' h' = timers w h') \<and>
         (\<forall>i. i \<noteq> resp_id response \<longrightarrow> pendingEntry w' serverId i = pendingEntry w serverId i)"
proof -
  define w where "w = run evs (initialWorld cfgs)"
  have inv: "allInv w" unfolding w_def by (rule allInv_run[OF allInv_initial])
  have "\<forall>r h e. pendingEntry w serverId (resp_id response) = Some (r, h) \<longrightarrow>
       resp_error response = Some e \<longrightarrow>
         promises w h = Some Pending \<and>
         promises (handleResponse serverId response w) h = Some (Rejected (Error (err_message e))) \<and>
         effects (handleResponse serverId response w) = effects w @
           [PendingDelete r (resp_id response), ClearTimeout h,
            RejectCalled h (Error (err_message e))] \<and>
         (\<forall>h'. h' \<noteq> h \<longrightarrow> promises (handleResponse serverId response w) h' = promises w h' \<and>
             timers (handleResponse serverId response w) h' = timers w h') \<and>
         (\<forall>i. i \<noteq> resp_id response \<longrightarrow>
             pendingEntry (handleResponse serverId response w) serverId i = pendingEntry w serverId i)"
  proof (intro allI impI)
    fix r h e
    assume p: "pendingEntry w serverId (resp_id response) = Some (r, h)"
      and e: "resp_error response = Some e"
    from pendingEntry_SomeD[OF p] obtain sv where a: "heap w r = Some sv"
      "pendingRequests sv (resp_id response) = Some h" by blast
    from inv a have pend: "promises w h = Some Pending"
      unfolding allInv_def invPromises_def by blast
    show "promises w h = Some Pending \<and>
         promises (handleResponse serverId response w) h = Some (Rejected (Error (err_message e))) \<and>
         effects (handleResponse serverId response w) = effects w @
           [PendingDelete r (resp_id response), ClearTimeout h,
            RejectCalled h (Error (err_message e))] \<and>
         (\<forall>h'. h' \<noteq> h \<longrightarrow> promises (handleResponse serverId response w) h' = promises w h' \<and>
             timers (handleResponse serverId response w) h' = timers w h') \<and>
         (\<forall>i. i \<noteq> resp_id response \<longrightarrow>
             pendingEntry (handleResponse serverId response w) serverId i = pendingEntry w serverId i)"
      using pend e
      by (simp add: handleResponse_some[OF p] pendingEntry_after[OF p] completion_def
            completionOutcome_def)
  qed
  then show ?thesis unfolding Let_def w_def .
qed

text \<open>
  The claim as stated fails: two responses that differ only in the error code leave the
  correlator in the same state, with the same rejection, so the rejection does not carry
  the code.
\<close>
theorem protocol_error_code_dropped:
  "promises (handleResponse exampleServer (exampleError (- 32601)) exampleRun) 0 =
     Some (Rejected (Error (str ''Method not found''))) \<and>
   handleResponse exampleServer (exampleError (- 32000)) exampleRun =
     handleResponse exampleServer (exampleError (- 32601)) exampleRun \<and>
   exampleError (- 32000) \<noteq> exampleError (- 32601)"
  by (simp add: handleResponse_def exampleRun_fields exampleError_def pendingDelete_def
        pendingReject_def clearTimeout_def emit_def settle_def Let_def)

theorem protocol_error_rejects_with_message_witness:
  "promises (handleResponse exampleServer (exampleError (- 32601)) exampleRun) 0 =
     Some (Rejected (Error (str ''Method not found''))) \<and>
   effects (handleResponse exampleServer (exampleError (- 32601)) exampleRun) =
     effects exampleRun @ [PendingDelete 0 (NumId 1), ClearTimeout 0,
        RejectCalled 0 (Error (str ''Method not found''))]"
proof -
  have p: "pendingEntry exampleRun exampleServer (resp_id (exampleError (- 32601))) = Some (0, 0)"
    by (simp add: pendingEntry_def exampleRun_fields exampleError_def)
  have e: "resp_error (exampleError (- 32601)) =
      Some \<lparr>err_code = - 32601, err_message = str ''Method not found'', err_data = None\<rparr>"
    by (simp add: exampleError_def)
  from protocol_error_rejects_with_message
    [of "[EvRegister exampleServer Stdio, EvSend exampleServer (str ''tools/list'') None]" "[]"
        exampleServer "exampleError (- 32601)", folded exampleRun_def, unfolded Let_def,
     rule_format, OF p e]
  show ?thesis by (simp add: exampleError_def)
qed

section \<open>Verification of the server lifecycle\<close>

subsection \<open>Lemmas and theorems\<close>

lemma sendVia_frame:
  "activeServers (snd (sendVia t sid m p w)) = activeServers w"
  "serverStates (snd (sendVia t sid m p w)) = serverStates w"
  "servers (snd (sendVia t sid m p w)) = servers w"
  "listeners (snd (sendVia t sid m p w)) = listeners w"
  "nextRef (snd (sendVia t sid m p w)) = nextRef w"
  by (auto simp: sendVia_def Let_def split: option.splits)

lemma transportDone_frame:
  "activeServers (transportDone h d w) = activeServers w"
  "serverStates (transportDone h d w) = serverStates w"
  "servers (transportDone h d w) = servers w"
  "listeners (transportDone h d w) = listeners w"
  "nextRef (transportDone h d w) = nextRef w"
  by (auto simp: transportDone_def Let_def split: option.splits transport.splits)

lemma completeRequest_frame:
  "activeServers (completeRequest sid h c w) = activeServers w"
  "serverStates (completeRequest sid h c w) = serverStates w"
  "servers (completeRequest sid h c w) = servers w"
  "listeners (completeRequest sid h c w) = listeners w"
  "nextRef (completeRequest sid h c w) = nextRef w"
  by (auto simp: completeRequest_def transportDone_frame split: completion.splits option.splits)

lemma awaitRequest_frame:
  "activeServers (snd (awaitRequest t sid m p c w)) = activeServers w"
  "serverStates (snd (awaitRequest t sid m p c w)) = serverStates w"
  "servers (snd (awaitRequest t sid m p c w)) = servers w"
  "listeners (snd (awaitRequest t sid m p c w)) = listeners w"
  "nextRef (snd (awaitRequest t sid m p c w)) = nextRef w"
  using sendVia_frame[of t sid m p w]
  by (auto simp: awaitRequest_def completeRequest_frame split: prod.splits sum.splits)

lemma setServerState_frame [simp]:
  "activeServers (setServerState i u w) = activeServers w"
  "heap (setServerState i u w) = heap w"
  "servers (setServerState i u w) = servers w"
  "listeners (setServerState i u w) = listeners w"
  "nextRef (setServerState i u w) = nextRef w"
  "nextHandle (setServerState i u w) = nextHandle w"
  "promises (setServerState i u w) = promises w"
  "timers (setServerState i u w) = timers w"
  "transports (setServerState i u w) = transports w"
  "effects (setServerState i u w) = effects w"
  by (simp_all add: setServerState_def Let_def)

lemma clearServerState_frame [simp]:
  "activeServers (clearServerState i w) = activeServers w"
  "heap (clearServerState i w) = heap w"
  "servers (clearServerState i w) = servers w"
  "listeners (clearServerState i w) = listeners w"
  "nextRef (clearServerState i w) = nextRef w"
  "effects (clearServerState i w) = effects w"
  by (simp_all add: clearServerState_def)

lemma startFailed_result [simp]:
  "fst (startStdioFailed i e w) = Some e"
  "fst (startHttpFailed i e w) = Some e"
  by (simp_all add: startStdioFailed_def startHttpFailed_def Let_def)

lemma initializeStdioServer_active:
  "activeServers (snd (initializeStdioServer i c n w)) = activeServers w"
  using awaitRequest_frame(1)[of Stdio i "str ''initialize''" "Some initializeParams" c w]
  by (auto simp: initializeStdioServer_def split: prod.splits sum.splits)

lemma initializeHttpServer_active:
  "activeServers (snd (initializeHttpServer i c n w)) = activeServers w"
  using awaitRequest_frame(1)[of Http i "str ''initialize''" "Some initializeParams" c w]
  by (auto simp: initializeHttpServer_def split: prod.splits sum.splits option.splits)

lemma listTools_active:
  "activeServers (snd (listToolsStdio i c w)) = activeServers w"
  "activeServers (snd (listToolsHttp i c w)) = activeServers w"
  using awaitRequest_frame(1)[of Stdio i "str ''tools/list''" None c w]
    awaitRequest_frame(1)[of Http i "str ''tools/list''" None c w]
  by (auto simp: listToolsStdio_def listToolsHttp_def split: prod.splits sum.splits)

lemma connectHttpSSE_active:
  "activeServers (snd (connectHttpSSE i r out w)) = activeServers w"
  by (auto simp: connectHttpSSE_def Let_def split: sse_outcome.splits option.splits)

lemma startFailed_NoneD:
  "startStdioFailed i e w = (None, w') \<Longrightarrow> False"
  "startHttpFailed i e w = (None, w') \<Longrightarrow> False"
  by (simp_all add: startStdioFailed_def startHttpFailed_def Let_def)

lemma activeD:
  "initializeStdioServer i c n w = (r, w') \<Longrightarrow> activeServers w' = activeServers w"
  "initializeHttpServer i c n w = (r, w') \<Longrightarrow> activeServers w' = activeServers w"
  "listToolsStdio i c w = (x, w') \<Longrightarrow> activeServers w' = activeServers w"
  "listToolsHttp i c w = (x, w') \<Longrightarrow> activeServers w' = activeServers w"
  "connectHttpSSE i k out w = (r, w') \<Longrightarrow> activeServers w' = activeServers w"
  using initializeStdioServer_active[of i c n w] initializeHttpServer_active[of i c n w]
    listTools_active[of i c w] connectHttpSSE_active[of i k out w]
  by auto

lemma startStdioServer_success_active:
  assumes "startStdioServer config env w = (None, w')"
  shows "activeServers w' (cfg_id config) \<noteq> None"
  using assms
  by (auto simp: startStdioServer_def Let_def
        split: option.splits prod.splits sum.splits if_splits
        dest!: activeD startFailed_NoneD)

lemma startHttpServer_success_active:
  assumes "startHttpServer config env w = (None, w')"
  shows "activeServers w' (cfg_id config) \<noteq> None"
  using assms
  by (auto simp: startHttpServer_def Let_def registerSession_def
        split: option.splits prod.splits sum.splits if_splits
        dest!: activeD startFailed_NoneD)

lemma startMCPServer_success_active:
  "startMCPServer config env w = (None, w') \<Longrightarrow> activeServers w' (cfg_id config) \<noteq> None"
  using startStdioServer_success_active[of config "stdioEnv env" w w']
    startHttpServer_success_active[of config "httpEnv env" w w']
  by (cases "cfg_transport config") (simp_all add: startMCPServer_def)

lemma startMCPServer_running:
  "activeServers w (cfg_id config) \<noteq> None \<Longrightarrow> startMCPServer config env w = (None, w)"
  by (simp add: startMCPServer_def startStdioServer_def startHttpServer_def split: transport.splits)

lemma stopMCPServer_stopped:
  "activeServers w serverId = None \<Longrightarrow> stopMCPServer serverId kill w = w"
  by (simp add: stopMCPServer_def)

lemma stopMCPServer_twice:
  "stopMCPServer serverId kill (stopMCPServer serverId None w) = stopMCPServer serverId None w"
  by (auto simp: stopMCPServer_def stopStdioServer_def stopHttpServer_def Let_def
        split: option.splits)

text \<open>
  \<^bold>\<open>Claim C9.\<close>  Stopping a server id that has no active session leaves the whole
  state unchanged, so a second stop after a stop whose kill succeeded does nothing.
  Starting a server id that already has an active session returns without an error and
  leaves the whole state unchanged: no second session object is created, and the id
  still maps to its one session.  In particular a start that succeeded is followed by
  starts that do nothing.
\<close>
theorem start_stop_idempotent:
  "(activeServers w serverId = None \<longrightarrow> stopMCPServer serverId kill w = w) \<and>
   stopMCPServer serverId kill (stopMCPServer serverId None w) = stopMCPServer serverId None w \<and>
   (activeServers w (cfg_id config) \<noteq> None \<longrightarrow> startMCPServer config env w = (None, w)) \<and>
   (fst (startMCPServer config env w) = None \<longrightarrow>
      activeServers (snd (startMCPServer config env w)) (cfg_id config) \<noteq> None \<and>
      startMCPServer config env' (snd (startMCPServer config env w)) =
        (None, snd (startMCPServer config env w)))"
proof -
  have "fst (startMCPServer config env w) = None \<longrightarrow>
      activeServers (snd (startMCPServer config env w)) (cfg_id config) \<noteq> None"
    using startMCPServer_success_active[of config env w "snd (startMCPServer config env w)"]
    by (cases "startMCPServer config env w") auto
  then show ?thesis
    using startMCPServer_running stopMCPServer_stopped stopMCPServer_twice by blast
qed

lemma awaitRequest_replied:
  assumes "activeServers w sid = Some r" "heap w r = Some sv" "srv_transport sv = t"
  shows "fst (awaitRequest t sid m p (Replied res None) w) = Inr res"
    and "\<exists>sv'. heap (snd (awaitRequest t sid m p (Replied res None) w)) r = Some sv' \<and>
           srv_transport sv' = t \<and> srv_url sv' = srv_url sv \<and> eventSource sv' = eventSource sv"
  using assms
  by (auto simp: awaitRequest_def sendVia_def completeRequest_def transportDone_def
        handleResponse_def awaited_def pendingDelete_def pendingResolve_def clearTimeout_def
        settle_def emit_def Let_def split: transport.splits)

lemma toolsOfResult_empty:
  "toolsOfResult None = []"
  "toolsOfResult (Some JNull) = []"
  "getProp (str ''tools'') v = None \<Longrightarrow> toolsOfResult (Some v) = []"
  by (auto simp: toolsOfResult_def split: json.splits)

lemma initializeStdioServer_ok:
  assumes "activeServers w sid = Some r" "heap w r = Some sv" "srv_transport sv = Stdio"
  shows "fst (initializeStdioServer sid (Replied res None) None w) = None"
    and "\<exists>sv'. heap (snd (initializeStdioServer sid (Replied res None) None w)) r = Some sv' \<and>
           srv_transport sv' = Stdio"
    and "activeServers (snd (initializeStdioServer sid (Replied res None) None w)) = activeServers w"
    and "serverStates (snd (initializeStdioServer sid (Replied res None) None w)) = serverStates w"
  using awaitRequest_replied[OF assms, of "str ''initialize''" "Some initializeParams" res]
    awaitRequest_frame(1,2)[of Stdio sid "str ''initialize''" "Some initializeParams" "Replied res None" w]
  by (auto simp: initializeStdioServer_def split: prod.splits sum.splits)

lemma initializeHttpServer_ok:
  assumes "activeServers w sid = Some r" "heap w r = Some sv" "srv_transport sv = Http"
  shows "fst (initializeHttpServer sid (Replied res None) None w) = None"
    and "\<exists>sv'. heap (snd (initializeHttpServer sid (Replied res None) None w)) r = Some sv' \<and>
           srv_transport sv' = Http"
    and "activeServers (snd (initializeHttpServer sid (Replied res None) None w)) = activeServers w"
    and "serverStates (snd (initializeHttpServer sid (Replied res None) None w)) = serverStates w"
  using awaitRequest_replied[OF assms, of "str ''initialize''" "Some initializeParams" res]
    awaitRequest_frame(1,2)[of Http sid "str ''initialize''" "Some initializeParams" "Replied res None" w]
  by (auto simp: initializeHttpServer_def split: prod.splits sum.splits option.splits)

lemma listTools_ok:
  assumes "activeServers w sid = Some r" "heap w r = Some sv"
  shows "srv_transport sv = Stdio \<Longrightarrow>
           fst (listToolsStdio sid (Replied res None) w) = Inr (toolsOfResult res) \<and>
           activeServers (snd (listToolsStdio sid (Replied res None) w)) = activeServers w \<and>
           serverStates (snd (listToolsStdio sid (Replied res None) w)) = serverStates w"
    and "srv_transport sv = Http \<Longrightarrow>
           fst (listToolsHttp sid (Replied res None) w) = Inr (toolsOfResult res) \<and>
           activeServers (snd (listToolsHttp sid (Replied res None) w)) = activeServers w \<and>
           serverStates (snd (listToolsHttp sid (Replied res None) w)) = serverStates w"
  using awaitRequest_replied(1)[OF assms, of _ "str ''tools/list''" None res]
    awaitRequest_frame(1,2)[of Stdio sid "str ''tools/list''" None "Replied res None" w]
    awaitRequest_frame(1,2)[of Http sid "str ''tools/list''" None "Replied res None" w]
  by (auto simp: listToolsStdio_def listToolsHttp_def split: prod.splits sum.splits)

lemma startStdioServer_empty_tools:
  assumes "activeServers w (cfg_id config) = None"
    and "listenStdout env = None" "listenStderr env = None" "spawn env = None"
    and "initReply env = Replied r0 None" "notifyWrite env = None"
    and "toolsReply env = Replied res None" "toolsOfResult res = []"
  shows "fst (startStdioServer config env w) = None \<and>
         connectedWithNoTools (cfg_id config) (snd (startStdioServer config env w))"
proof -
  define i where "i = cfg_id config"
  define w4 where "w4 = emit [SpawnServer i]
     (setServerState i (noUpdate\<lparr>upd_status := Some Connecting, upd_error := Some None\<rparr>) w
        \<lparr>heap := (heap w)(nextRef w \<mapsto> newServerState Stdio []), nextRef := nextRef w + 1,
          listeners := (listeners w)(nextRef w \<mapsto> i),
          activeServers := (activeServers w)(i \<mapsto> nextRef w)\<rparr>)"
  have a4: "activeServers w4 i = Some (nextRef w)" "heap w4 (nextRef w) = Some (newServerState Stdio [])"
    "srv_transport (newServerState Stdio []) = Stdio"
    by (simp_all add: w4_def newServerState_def)
  have s4: "\<exists>st. serverStates w4 i = Some st \<and> ss_error st = None"
    by (simp add: w4_def setServerState_def Let_def noUpdate_def)
  define w5 where "w5 = snd (initializeStdioServer i (Replied r0 None) None w4)"
  note I = initializeStdioServer_ok[OF a4, of r0, folded w5_def]
  from I(2) obtain sv5 where h5: "heap w5 (nextRef w) = Some sv5" "srv_transport sv5 = Stdio" by blast
  have a5: "activeServers w5 i = Some (nextRef w)" using I(3) a4(1) by simp
  define w6 where "w6 = snd (listToolsStdio i (Replied res None) w5)"
  note L = listTools_ok(1)[OF a5 h5(1) h5(2), of res, folded w6_def]
  have start: "startStdioServer config env w =
      (None, setServerState i (noUpdate\<lparr>upd_status := Some Connected, upd_tools := Some []\<rparr>) w6)"
    using assms I(1) L
    by (simp add: startStdioServer_def Let_def i_def[symmetric] case_prod_beta
          w6_def w5_def w4_def)
  have "serverStates w6 = serverStates w4" using L I(4) by simp
  with s4 a5 L show ?thesis
    by (auto simp: start connectedWithNoTools_def i_def[symmetric] setServerState_def Let_def
          noUpdate_def)
qed

lemma startHttpServer_empty_tools:
  assumes "activeServers w (cfg_id config) = None"
    and "sse env = SseOpened"
    and "httpInitReply env = Replied r0 None" "httpNotify env = None"
    and "httpToolsReply env = Replied res None" "toolsOfResult res = []"
  shows "fst (startHttpServer config env w) = None \<and>
         connectedWithNoTools (cfg_id config) (snd (startHttpServer config env w))"
proof -
  define i where "i = cfg_id config"
  define w3 where "w3 = snd (connectHttpSSE i (nextRef w) SseOpened
     (registerSession i (newServerState Http (cfg_url config))
        (setServerState i (noUpdate\<lparr>upd_status := Some Connecting, upd_error := Some None\<rparr>) w)))"
  have c3: "fst (connectHttpSSE i (nextRef w) SseOpened
     (registerSession i (newServerState Http (cfg_url config))
        (setServerState i (noUpdate\<lparr>upd_status := Some Connecting, upd_error := Some None\<rparr>) w))) = None"
    by (simp add: connectHttpSSE_def Let_def)
  have a3: "activeServers w3 i = Some (nextRef w)"
    "heap w3 (nextRef w) = Some ((newServerState Http (cfg_url config))\<lparr>eventSource := True\<rparr>)"
    "srv_transport ((newServerState Http (cfg_url config))\<lparr>eventSource := True\<rparr>) = Http"
    by (simp_all add: w3_def connectHttpSSE_def registerSession_def newServerState_def Let_def)
  have s3: "\<exists>st. serverStates w3 i = Some st \<and> ss_error st = None"
    by (simp add: w3_def connectHttpSSE_def registerSession_def setServerState_def Let_def
          noUpdate_def split: option.splits)
  define w4 where "w4 = snd (initializeHttpServer i (Replied r0 None) None w3)"
  note I = initializeHttpServer_ok[OF a3, of r0, folded w4_def]
  from I(2) obtain sv4 where h4: "heap w4 (nextRef w) = Some sv4" "srv_transport sv4 = Http" by blast
  have a4: "activeServers w4 i = Some (nextRef w)" using I(3) a3(1) by simp
  define w5 where "w5 = snd (listToolsHttp i (Replied res None) w4)"
  note L = listTools_ok(2)[OF a4 h4(1) h4(2), of res, folded w5_def]
  have start: "startHttpServer config env w =
      (None, setServerState i (noUpdate\<lparr>upd_status := Some Connected, upd_tools := Some []\<rparr>) w5)"
    using assms I(1) L c3
    by (simp add: startHttpServer_def Let_def i_def[symmetric] case_prod_beta
          w5_def w4_def w3_def)
  have "serverStates w5 = serverStates w3" using L I(4) by simp
  with s3 a4 L show ?thesis
    by (auto simp: start connectedWithNoTools_def i_def[symmetric] setServerState_def Let_def
          noUpdate_def)
qed

text \<open>
  \<^bold>\<open>Claim C10.\<close>  \<open>result?.tools || []\<close> is the empty list when the result is
  undefined or null or has no \<open>tools\<close> field; with such a result the tool-list
  helpers resolve with the empty list, and a start whose other steps succeed ends
  without an error, with the session active and its runtime state \<open>connected\<close> with
  zero tools and no error message.
\<close>
theorem empty_tools_result_connects:
  "toolsOfResult None = [] \<and> toolsOfResult (Some JNull) = [] \<and>
   (getProp (str ''tools'') v = None \<longrightarrow> toolsOfResult (Some v) = []) \<and>
   (activeServers w serverId = Some r \<and> heap w r = Some sv \<and> toolsOfResult res = [] \<longrightarrow>
      (srv_transport sv = Stdio \<longrightarrow> fst (listToolsStdio serverId (Replied res None) w) = Inr []) \<and>
      (srv_transport sv = Http \<longrightarrow> fst (listToolsHttp serverId (Replied res None) w) = Inr [])) \<and>
   (activeServers w (cfg_id config) = None \<and>
    listenStdout senv = None \<and> listenStderr senv = None \<and> spawn senv = None \<and>
    initReply senv = Replied r0 None \<and> notifyWrite senv = None \<and>
    toolsReply senv = Replied res None \<and> toolsOfResult res = [] \<longrightarrow>
      fst (startStdioServer config senv w) = None \<and>
      connectedWithNoTools (cfg_id config) (snd (startStdioServer config senv w))) \<and>
   (activeServers w (cfg_id config) = None \<and> sse henv = SseOpened \<and>
    httpInitReply henv = Replied r0 None \<and> httpNotify henv = None \<and>
    httpToolsReply henv = Replied res None \<and> toolsOfResult res = [] \<longrightarrow>
      fst (startHttpServer config henv w) = None \<and>
      connectedWithNoTools (cfg_id config) (snd (startHttpServer config henv w)))"
  using toolsOfResult_empty(1,2) toolsOfResult_empty(3)[of v] listTools_ok[of w serverId r sv res]
    startStdioServer_empty_tools[of w config senv r0 res]
    startHttpServer_empty_tools[of w config henv r0 res]
  by simp

theorem empty_tools_result_connects_witness:
  "fst (startStdioServer exampleConfig (exampleStdioEnv (Some JNull)) (initialWorld [exampleConfig])) = None \<and>
   connectedWithNoTools exampleServer
     (snd (startStdioServer exampleConfig (exampleStdioEnv (Some JNull)) (initialWorld [exampleConfig]))) \<and>
   toolsOfResult (Some (JObj [(str ''nextCursor'', JNull)])) = []"
  using empty_tools_result_connects[where v="JObj [(str ''nextCursor'', JNull)]"
      and w="initialWorld [exampleConfig]" and res="Some JNull" and config=exampleConfig
      and senv="exampleStdioEnv (Some JNull)" and ?r0.0="Some (JObj [])"]
  by (simp add: initialWorld_def exampleConfig_def exampleStdioEnv_def toolsOfResult_def
        str_def)

theorem start_stop_idempotent_witness:
  "stopMCPServer exampleServer None (initialWorld [exampleConfig]) = initialWorld [exampleConfig] \<and>
   fst (startMCPServer exampleConfig
          \<lparr>stdioEnv = exampleStdioEnv None, httpEnv = exampleHttpEnv\<rparr>
          (initialWorld [exampleConfig])) = None \<and>
   startMCPServer exampleConfig \<lparr>stdioEnv = exampleStdioEnv None, httpEnv = exampleHttpEnv\<rparr>
     (snd (startMCPServer exampleConfig
             \<lparr>stdioEnv = exampleStdioEnv None, httpEnv = exampleHttpEnv\<rparr>
             (initialWorld [exampleConfig]))) =
     (None, snd (startMCPServer exampleConfig
             \<lparr>stdioEnv = exampleStdioEnv None, httpEnv = exampleHttpEnv\<rparr>
             (initialWorld [exampleConfig])))"
proof -
  have 1: "activeServers (initialWorld [exampleConfig]) exampleServer = None"
    by (simp add: initialWorld_def)
  have 2: "fst (startMCPServer exampleConfig
          \<lparr>stdioEnv = exampleStdioEnv None, httpEnv = exampleHttpEnv\<rparr>
          (initialWorld [exampleConfig])) = None"
    using startStdioServer_empty_tools[of "initialWorld [exampleConfig]" exampleConfig
        "exampleStdioEnv None" "Some (JObj [])" None]
    by (simp add: startMCPServer_def exampleConfig_def exampleStdioEnv_def initialWorld_def
          toolsOfResult_def)
  from start_stop_idempotent[of "initialWorld [exampleConfig]" exampleServer None exampleConfig
      "\<lparr>stdioEnv = exampleStdioEnv None, httpEnv = exampleHttpEnv\<rparr>"
      "\<lparr>stdioEnv = exampleStdioEnv None, httpEnv = exampleHttpEnv\<rparr>"] 1 2
  show ?thesis by simp
qed

subsection \<open>An awaited request is always settled\<close>

lemma sendVia_InrD:
  assumes "sendVia t serverId m p w = (Inr h, w1)"
  shows "\<exists>r sv cl. activeServers w1 serverId = Some r \<and> heap w1 r = Some sv \<and>
           pendingRequests sv (cl_id cl) = Some h \<and> timers w1 h = Some cl \<and>
           transports w1 h = Some cl \<and> cl_server cl = r \<and> promises w1 h = Some Pending"
  using assms
  by (auto simp: sendVia_def Let_def emit_def split: option.splits if_splits)

lemma transportDone_None:
  "transportDone h None w = (if transports w h = None then w else dropTransport h w)"
  by (auto simp: transportDone_def dropTransport_def Let_def split: option.splits transport.splits)

lemma awaitRequest_settled:
  assumes "sendVia t serverId m p w = (Inr h, w1)"
  shows "promises (completeRequest serverId h c w1) h \<noteq> None \<and>
         promises (completeRequest serverId h c w1) h \<noteq> Some Pending"
proof -
  from sendVia_InrD[OF assms] obtain r sv cl where
    a: "activeServers w1 serverId = Some r" "heap w1 r = Some sv"
       "pendingRequests sv (cl_id cl) = Some h" "timers w1 h = Some cl"
       "transports w1 h = Some cl" "cl_server cl = r" "promises w1 h = Some Pending"
    by blast
  show ?thesis
  proof (cases c)
    case (Replied res err)
    have p: "pendingEntry (dropTransport h w1) serverId
               (resp_id \<lparr>resp_id = cl_id cl, resp_result = res, resp_error = err\<rparr>) = Some (r, h)"
      using a by (simp add: pendingEntry_def dropTransport_def)
    show ?thesis
      using a Replied handleResponse_some(4)[OF p, of h]
      by (simp add: completeRequest_def transportDone_None dropTransport_def completionOutcome_def
            split: option.splits)
  next
    case TimedOut
    have t: "timers (dropTransport h w1) h = Some cl" using a by (simp add: dropTransport_def)
    show ?thesis
      using a TimedOut timeoutFires_some(4)[OF t, of h]
      by (simp add: completeRequest_def transportDone_None dropTransport_def)
  next
    case (TransportFailed e)
    show ?thesis
      using a TransportFailed transportFails_some2(2)[OF a(5), of e h]
      by (simp add: completeRequest_def)
  qed
qed

section \<open>Verification of the tool-call loop\<close>

subsection \<open>Lemmas and theorems\<close>

lemma updateToolCallStatus_frame [simp]:
  "mcp (updateToolCallStatus m i st r s) = mcp s"
  "aborted (updateToolCallStatus m i st r s) = aborted s"
  "llmCallCount (updateToolCallStatus m i st r s) = llmCallCount s"
  "toolCallCount (updateToolCallStatus m i st r s) = toolCallCount s"
  "llmRequests (updateToolCallStatus m i st r s) = llmRequests s"
  "chatError (updateToolCallStatus m i st r s) = chatError s"
  by (simp_all add: updateToolCallStatus_def)

lemma updateMessage_frame [simp]:
  "mcp (updateMessage i c s) = mcp s"
  "aborted (updateMessage i c s) = aborted s"
  "llmCallCount (updateMessage i c s) = llmCallCount s"
  "toolCallCount (updateMessage i c s) = toolCallCount s"
  "llmRequests (updateMessage i c s) = llmRequests s"
  "chatError (updateMessage i c s) = chatError s"
  by (simp_all add: updateMessage_def)

lemma updateMessageToolCalls_frame [simp]:
  "mcp (updateMessageToolCalls i c s) = mcp s"
  "aborted (updateMessageToolCalls i c s) = aborted s"
  "llmCallCount (updateMessageToolCalls i c s) = llmCallCount s"
  "toolCallCount (updateMessageToolCalls i c s) = toolCallCount s"
  "llmRequests (updateMessageToolCalls i c s) = llmRequests s"
  "chatError (updateMessageToolCalls i c s) = chatError s"
  by (simp_all add: updateMessageToolCalls_def)

lemma setMessageStreaming_frame [simp]:
  "mcp (setMessageStreaming i c s) = mcp s"
  "aborted (setMessageStreaming i c s) = aborted s"
  "llmCallCount (setMessageStreaming i c s) = llmCallCount s"
  "toolCallCount (setMessageStreaming i c s) = toolCallCount s"
  "llmRequests (setMessageStreaming i c s) = llmRequests s"
  "chatError (setMessageStreaming i c s) = chatError s"
  by (simp_all add: setMessageStreaming_def)

lemma addMessage_frame [simp]:
  "mcp (addMessage m s) = mcp s"
  "aborted (addMessage m s) = aborted s"
  "llmCallCount (addMessage m s) = llmCallCount s"
  "toolCallCount (addMessage m s) = toolCallCount s"
  "llmRequests (addMessage m s) = llmRequests s"
  "chatError (addMessage m s) = chatError s"
  by (simp_all add: addMessage_def)

lemma addMessages_frame [simp]:
  "mcp (foldl (\<lambda>st res. addMessage (f res) st) s rs) = mcp s"
  "aborted (foldl (\<lambda>st res. addMessage (f res) st) s rs) = aborted s"
  "llmCallCount (foldl (\<lambda>st res. addMessage (f res) st) s rs) = llmCallCount s"
  "toolCallCount (foldl (\<lambda>st res. addMessage (f res) st) s rs) = toolCallCount s"
  "llmRequests (foldl (\<lambda>st res. addMessage (f res) st) s rs) = llmRequests s"
  "chatError (foldl (\<lambda>st res. addMessage (f res) st) s rs) = chatError s"
  by (induction rs arbitrary: s; simp)+

lemma onChunks_frame [simp]:
  "mcp (onChunks i f cs s) = mcp s"
  "aborted (onChunks i f cs s) = aborted s"
  "llmCallCount (onChunks i f cs s) = llmCallCount s"
  "toolCallCount (onChunks i f cs s) = toolCallCount s"
  "llmRequests (onChunks i f cs s) = llmRequests s"
  "chatError (onChunks i f cs s) = chatError s"
  by (induction cs arbitrary: f s; simp)+

lemma sendChat_frame:
  "mcp (snd (sendChatRequestWithTools env rq a s)) = mcp s"
  "llmCallCount (snd (sendChatRequestWithTools env rq a s)) = llmCallCount s + 1"
  "toolCallCount (snd (sendChatRequestWithTools env rq a s)) = toolCallCount s"
  "chatError (snd (sendChatRequestWithTools env rq a s)) = chatError s"
  "aborted s \<Longrightarrow> aborted (snd (sendChatRequestWithTools env rq a s))"
  "aborted s \<Longrightarrow> llmRequests (snd (sendChatRequestWithTools env rq a s)) = llmRequests s"
  "llmRequests (snd (sendChatRequestWithTools env rq a s)) = llmRequests s \<or>
   llmRequests (snd (sendChatRequestWithTools env rq a s)) = llmRequests s @ [rq]"
  by (auto simp: sendChatRequestWithTools_def Let_def split: option.splits)


lemma executeToolCall_frame:
  "llmCallCount (snd (executeToolCall env m tc s)) = llmCallCount s"
  "llmRequests (snd (executeToolCall env m tc s)) = llmRequests s"
  "chatError (snd (executeToolCall env m tc s)) = chatError s"
  "aborted s \<Longrightarrow> aborted (snd (executeToolCall env m tc s))"
  by (auto simp: executeToolCall_def Let_def split: option.splits prod.splits)

lemma executeToolCalls_frame:
  "llmCallCount (snd (executeToolCalls env m tcs s)) = llmCallCount s"
  "llmRequests (snd (executeToolCalls env m tcs s)) = llmRequests s"
  "chatError (snd (executeToolCalls env m tcs s)) = chatError s"
  "aborted s \<Longrightarrow> aborted (snd (executeToolCalls env m tcs s))"
  by (induction tcs arbitrary: s; simp add: case_prod_beta Let_def executeToolCall_frame)+

lemma chatLoop_stop:
  assumes "\<not> (cl \<and> i < maxIterations)"
  shows "chatLoop env mo p tls cm ca cl i s = (None, ca, i, s)"
  by (subst chatLoop.simps) (rule if_not_P[OF assms])

lemma chatLoop_go:
  assumes "cl \<and> i < maxIterations"
  shows "chatLoop env mo p tls cm ca cl i s =
     (case sendChatRequestWithTools env
                \<lparr>rq_modelId = mo, rq_messages = butlast cm, rq_systemPrompt = p,
                 rq_tools = (if tls \<noteq> [] then Some tls else None)\<rparr> ca s of
           (Inl e, s1) \<Rightarrow> (Some e, ca, i + 1, s1)
         | (Inr response, s1) \<Rightarrow>
             (let s2 = (if llm_content response \<noteq> []
                        then updateMessage ca (llm_content response) s1 else s1)
              in case llm_toolCalls response of
                   None \<Rightarrow> chatLoop env mo p tls cm ca False (i + 1) s2
                 | Some tcs \<Rightarrow>
                     if tcs = [] then chatLoop env mo p tls cm ca False (i + 1) s2
                     else
                       (let s3 = setMessageStreaming ca False
                                   (updateMessageToolCalls ca (map pendingToolCall tcs) s2);
                            results = fst (executeToolCalls env ca tcs s3);
                            s4 = snd (executeToolCalls env ca tcs s3);
                            s5 = foldl (\<lambda>st res. addMessage (toolMessage res) st) s4 results;
                            s6 = addMessage assistantPlaceholder s5;
                            newMessages = selectActiveMessages s6;
                            newAssistantId = (if newMessages = [] then ca
                                              else msg_id (last newMessages))
                        in chatLoop env mo p tls newMessages newAssistantId True (i + 1) s6)))"
  by (subst chatLoop.simps) (rule if_P[OF assms])

lemma loopBound_step:
  assumes "loopBound (Suc i) y res" "llmCallCount y = Suc (llmCallCount s)"
    "length (llmRequests y) \<le> Suc (length (llmRequests s))"
  shows "loopBound i s res"
  using assms by (auto simp: loopBound_def split: prod.splits)

lemma chatLoop_bound:
  "i \<le> maxIterations \<Longrightarrow> loopBound i s (chatLoop env mo p tls cm ca cl i s)"
proof (induction env mo p tls cm ca cl i s rule: chatLoop.induct)
  case (1 env mo p tls cm ca cl i s)
  show ?case
  proof (cases "cl \<and> i < maxIterations")
    case False
    then show ?thesis using "1.prems" by (simp add: chatLoop_stop[OF False] loopBound_def)
  next
    case True
    define rq where "rq = \<lparr>rq_modelId = mo, rq_messages = butlast cm, rq_systemPrompt = p,
             rq_tools = if tls \<noteq> [] then Some tls else None\<rparr>"
    obtain x y where xy: "(x, y) = sendChatRequestWithTools env rq ca s"
      by (cases "sendChatRequestWithTools env rq ca s") auto
    have y1: "llmCallCount y = Suc (llmCallCount s)"
      using sendChat_frame(2)[of env rq ca s] xy[symmetric] by simp
    have y2: "length (llmRequests y) \<le> Suc (length (llmRequests s))"
      using sendChat_frame(7)[of env rq ca s] xy[symmetric] by auto
    from True have lt: "Suc i \<le> maxIterations" by simp
    show ?thesis
    proof (cases x)
      case (Inl e)
      then show ?thesis using xy[symmetric] y1 y2 lt
        by (simp add: chatLoop_go[OF True] rq_def[symmetric] loopBound_def)
    next
      case (Inr b)
      define xa where "xa = (if llm_content b \<noteq> [] then updateMessage ca (llm_content b) y else y)"
      have xa1: "llmCallCount xa = Suc (llmCallCount s)"
        "length (llmRequests xa) \<le> Suc (length (llmRequests s))"
        using y1 y2 by (simp_all add: xa_def)
      show ?thesis
      proof (cases "llm_toolCalls b")
        case None
        have "loopBound (Suc i) xa (chatLoop env mo p tls cm ca False (Suc i) xa)"
          using lt by (simp add: chatLoop_stop[of False] loopBound_def)
        from loopBound_step[OF this xa1] show ?thesis
          using xy[symmetric] Inr None
          by (simp add: chatLoop_go[OF True] rq_def[symmetric] xa_def[symmetric])
      next
        case (Some tcs)
        show ?thesis
        proof (cases "tcs = []")
          case True2: True
          have "loopBound (Suc i) xa (chatLoop env mo p tls cm ca False (Suc i) xa)"
            using lt by (simp add: chatLoop_stop[of False] loopBound_def)
          from loopBound_step[OF this xa1] show ?thesis
            using xy[symmetric] Inr Some True2
            by (simp add: chatLoop_go[OF True] rq_def[symmetric] xa_def[symmetric])
        next
          case False
          define xb where "xb = setMessageStreaming ca False
             (updateMessageToolCalls ca (map pendingToolCall tcs) xa)"
          define xc where "xc = fst (executeToolCalls env ca tcs xb)"
          define xd where "xd = snd (executeToolCalls env ca tcs xb)"
          define xe where "xe = foldl (\<lambda>st res. addMessage (toolMessage res) st) xd xc"
          define xf where "xf = addMessage assistantPlaceholder xe"
          define xg where "xg = selectActiveMessages xf"
          define xh where "xh = (if xg = [] then ca else msg_id (last xg))"
          have IH: "loopBound (Suc i) xf (chatLoop env mo p tls xg xh True (Suc i) xf)"
            using "1.IH"(3)[OF True xy[unfolded rq_def] Inr xa_def Some False xb_def xc_def xd_def
                xe_def xf_def xg_def xh_def] lt by simp
          have xf1: "llmCallCount xf = Suc (llmCallCount s)"
            "length (llmRequests xf) \<le> Suc (length (llmRequests s))"
            using xa1 by (simp_all add: xf_def xe_def xd_def xb_def executeToolCalls_frame)
          from loopBound_step[OF IH xf1] show ?thesis
            using xy[symmetric] Inr Some False
            by (simp add: chatLoop_go[OF True] rq_def[symmetric] xa_def[symmetric] Let_def xb_def[symmetric]
                 xc_def[symmetric] xd_def[symmetric] xe_def[symmetric] xf_def[symmetric]
                 xg_def[symmetric] xh_def split: if_splits)
        qed
      qed
    qed
  qed
qed

lemma alwaysToolsD:
  assumes "alwaysTools env"
  obtains b tcs where "llm_preflight (llmEnv env k) = None" "\<not> llm_stopDuring (llmEnv env k)"
    "llm_result (llmEnv env k) = Inr b" "llm_toolCalls b = Some tcs" "tcs \<noteq> []"
proof -
  from assms have a: "llm_preflight (llmEnv env k) = None \<and> \<not> llm_stopDuring (llmEnv env k) \<and>
          (case llm_result (llmEnv env k) of
             Inl e \<Rightarrow> False
           | Inr r \<Rightarrow> (case llm_toolCalls r of None \<Rightarrow> False | Some tcs \<Rightarrow> tcs \<noteq> []))"
    unfolding alwaysTools_def by blast
  show thesis
  proof (cases "llm_result (llmEnv env k)")
    case (Inl e)
    with a show ?thesis by simp
  next
    case (Inr r)
    with a that show ?thesis by (cases "llm_toolCalls r") auto
  qed
qed

lemma executeToolCalls_not_aborted:
  "\<forall>k. \<not> tool_stopDuring (toolEnv env k) \<Longrightarrow>
     aborted (snd (executeToolCalls env m tcs s)) = aborted s"
proof (induction tcs arbitrary: s)
  case Nil
  show ?case by simp
next
  case (Cons tc tcs)
  have "aborted (snd (executeToolCall env m tc s)) = aborted s"
    using Cons.prems
    by (auto simp: executeToolCall_def Let_def split: option.splits prod.splits)
  with Cons show ?case by (simp add: case_prod_beta Let_def)
qed

lemma chatLoop_always:
  "alwaysTools env \<Longrightarrow> \<not> aborted s \<Longrightarrow> i \<le> maxIterations \<Longrightarrow>
     loopFull i s (chatLoop env mo p tls cm ca True i s)"
proof (induction env mo p tls cm ca "True" i s rule: chatLoop.induct)
  case (1 env mo p tls cm ca i s)
  show ?case
  proof (cases "i < maxIterations")
    case False
    then have "\<not> (True \<and> i < maxIterations)" by simp
    from chatLoop_stop[OF this] False "1.prems" show ?thesis by (simp add: loopFull_def)
  next
    case True
    then have T: "True \<and> i < maxIterations" by simp
    define rq where "rq = \<lparr>rq_modelId = mo, rq_messages = butlast cm, rq_systemPrompt = p,
             rq_tools = if tls \<noteq> [] then Some tls else None\<rparr>"
    obtain x y where xy: "(x, y) = sendChatRequestWithTools env rq ca s"
      by (cases "sendChatRequestWithTools env rq ca s") auto
    from alwaysToolsD[OF "1.prems"(1), of "llmCallCount s"] obtain b tcs where env:
      "llm_preflight (llmEnv env (llmCallCount s)) = None"
      "\<not> llm_stopDuring (llmEnv env (llmCallCount s))"
      "llm_result (llmEnv env (llmCallCount s)) = Inr b" "llm_toolCalls b = Some tcs" "tcs \<noteq> []"
      by blast
    have x: "x = Inr b" and y: "llmRequests y = llmRequests s @ [rq]" "\<not> aborted y"
      using xy env "1.prems"(2)
      by (auto simp: sendChatRequestWithTools_def Let_def)
    define xa where "xa = (if llm_content b \<noteq> [] then updateMessage ca (llm_content b) y else y)"
    define xb where "xb = setMessageStreaming ca False
       (updateMessageToolCalls ca (map pendingToolCall tcs) xa)"
    define xc where "xc = fst (executeToolCalls env ca tcs xb)"
    define xd where "xd = snd (executeToolCalls env ca tcs xb)"
    define xe where "xe = foldl (\<lambda>st res. addMessage (toolMessage res) st) xd xc"
    define xf where "xf = addMessage assistantPlaceholder xe"
    define xg where "xg = selectActiveMessages xf"
    define xh where "xh = (if xg = [] then ca else msg_id (last xg))"
    have nostop: "\<forall>k. \<not> tool_stopDuring (toolEnv env k)"
      using "1.prems"(1) unfolding alwaysTools_def by blast
    have xf1: "\<not> aborted xf" "llmRequests xf = llmRequests s @ [rq]"
      using y executeToolCalls_not_aborted[OF nostop, of ca tcs xb]
      by (simp_all add: xf_def xe_def xd_def xb_def xa_def executeToolCalls_frame)
    from True have lt: "Suc i \<le> maxIterations" by simp
    have IH: "loopFull (Suc i) xf (chatLoop env mo p tls xg xh True (Suc i) xf)"
      using "1.hyps"(3)[OF T xy[unfolded rq_def] x xa_def env(4,5) xb_def xc_def xd_def
          xe_def xf_def xg_def xh_def "1.prems"(1) xf1(1)] lt by simp
    then have "loopFull i s (chatLoop env mo p tls xg xh True (Suc i) xf)"
      using xf1(2) lt by (auto simp: loopFull_def split: prod.splits)
    then show ?thesis
      using xy[symmetric] x env(4,5)
      by (simp add: chatLoop_go[OF T] rq_def[symmetric] xa_def[symmetric] Let_def xb_def[symmetric]
            xc_def[symmetric] xd_def[symmetric] xe_def[symmetric] xf_def[symmetric]
            xg_def[symmetric] xh_def split: if_splits)
  qed
qed





text \<open>
  Claim C4.  \<open>chatLoop\<close> is a total function (its termination is proved above with the
  measure \<open>maxIterations - iterations\<close>), so the loop of \<open>handleChatCompletion\<close>
  returns for every sequence of LLM responses.  The constant is 10; entered with
  \<open>continueLoop = true\<close> and \<open>iterations = 0\<close> the loop ends with at most 10
  iterations, having called \<open>sendChatRequestWithTools\<close> exactly once per iteration, so
  that a turn sends at most 10 LLM requests.  When the model returns tool calls on every
  iteration and nobody cancels, the loop makes exactly 10 iterations and then returns
  without an error.
\<close>

theorem tool_loop_bounded:
  "maxIterations = 10 \<and>
   (case chatLoop env mo p tls cm ca True 0 s of
      (err, ca', n, s') \<Rightarrow>
        n \<le> 10 \<and> llmCallCount s' = llmCallCount s + n \<and>
        length (llmRequests s') \<le> length (llmRequests s) + n) \<and>
   llmCallCount (snd (handleChatCompletion env a mo sp s)) \<le> llmCallCount s + 10 \<and>
   length (llmRequests (snd (handleChatCompletion env a mo sp s))) \<le> length (llmRequests s) + 10 \<and>
   (alwaysTools env \<and> \<not> aborted s \<longrightarrow>
      (case chatLoop env mo p tls cm ca True 0 s of
         (err, ca', n, s') \<Rightarrow>
           err = None \<and> n = 10 \<and> length (llmRequests s') = length (llmRequests s) + 10))"
proof -
  have m: "maxIterations = 10" by (simp add: maxIterations_def)
  have b: "loopBound 0 s (chatLoop env mo p tls cm ca True 0 s)" for mo p tls cm ca
    by (rule chatLoop_bound) simp
  have 1: "case chatLoop env mo p tls cm ca True 0 s of
      (err, ca', n, s') \<Rightarrow>
        n \<le> 10 \<and> llmCallCount s' = llmCallCount s + n \<and>
        length (llmRequests s') \<le> length (llmRequests s) + n"
    using b[of mo p tls cm ca] by (auto simp: loopBound_def m split: prod.splits)
  have 2: "llmCallCount (snd (handleChatCompletion env a mo sp s)) \<le> llmCallCount s + 10 \<and>
   length (llmRequests (snd (handleChatCompletion env a mo sp s))) \<le> length (llmRequests s) + 10"
    using b[of mo "enhancedSystemPrompt sp (getAvailableTools s)" "getAvailableTools s"
        "selectActiveMessages s" a]
    by (auto simp: handleChatCompletion_def Let_def loopBound_def m split: prod.splits option.splits)
  have 3: "alwaysTools env \<and> \<not> aborted s \<longrightarrow>
      (case chatLoop env mo p tls cm ca True 0 s of
         (err, ca', n, s') \<Rightarrow>
           err = None \<and> n = 10 \<and> length (llmRequests s') = length (llmRequests s) + 10)"
    using chatLoop_always[where env=env and s=s and i=0 and mo=mo and p=p and tls=tls and cm=cm and ca=ca]
    by (auto simp: loopFull_def m split: prod.splits)
  from m 1 2 3 show ?thesis by blast
qed















text \<open>The bound is reached: with a model that asks for the tool \<open>echo\<close> in every
  response, the loop stops after exactly 10 requests.\<close>

theorem tool_loop_bounded_witness:
  "alwaysTools loopingEnv \<and> \<not> aborted (turnState startedWorld) \<and>
   (case chatLoop loopingEnv [] [] [] [] 0 True 0 (turnState startedWorld) of
      (err, ca', n, s') \<Rightarrow>
        err = None \<and> n = 10 \<and> llmCallCount s' = 10 \<and> length (llmRequests s') = 10)"
proof -
  have a: "alwaysTools loopingEnv"
    by (simp add: alwaysTools_def loopingEnv_def stopEnv_def)
  have b: "\<not> aborted (turnState startedWorld)"
    by (simp add: turnState_def)
  have c: "llmCallCount (turnState startedWorld) = 0" "llmRequests (turnState startedWorld) = []"
    by (simp_all add: turnState_def)
  show ?thesis
    using tool_loop_bounded[where env=loopingEnv and s="turnState startedWorld" and mo="[]"
        and p="[]" and tls="[]" and cm="[]" and ca=0] a b c
    by (auto simp: case_prod_beta)
qed


section \<open>Verification of the stdout listener\<close>

subsection \<open>Lemmas and theorems\<close>

lemma splitOn_ne [simp]: "splitOn sep xs \<noteq> []"
  by (induction xs) (auto split: list.splits)

lemma splitOn_snoc_sep: "splitOn sep (xs @ [sep]) = splitOn sep xs @ [[]]"
  by (induction xs) (auto split: list.splits)

lemma popOr_last: "popOr ls = (if ls = [] then [] else last ls)"
  by (simp add: popOr_def)

lemma handleResponse_buffer:
  "map_option buffer (heap (handleResponse sid resp w) r) = map_option buffer (heap w r)"
proof (cases "pendingEntry w sid (resp_id resp)")
  case None
  then show ?thesis by (simp add: handleResponse_none)
next
  case (Some p)
  obtain r' h where p: "pendingEntry w sid (resp_id resp) = Some (r', h)" using Some by (cases p) auto
  show ?thesis by (simp add: handleResponse_some(3)[OF p] option.map_comp comp_def)
qed

lemma handleLine_buffer:
  "map_option buffer (heap (handleLine parse cid line w) r) = map_option buffer (heap w r)"
  by (simp add: handleLine_def handleResponse_buffer split: option.splits)

lemma handleLines_buffer:
  "map_option buffer (heap (foldl (\<lambda>w line. handleLine parse cid line w) w ls) r) =
     map_option buffer (heap w r)"
  by (induction ls arbitrary: w) (simp_all add: handleLine_buffer)

lemma stdoutListener_buffer:
  assumes "heap w r = Some sv"
  shows "map_option buffer (heap (stdoutListener parse cid r (cid, d) w) r) = Some []"
  using assms
  by (simp add: stdoutListener_def Let_def handleLines_buffer popOr_last splitOn_snoc_sep
        append_assoc[symmetric] del: append_assoc)

lemma stdoutListener_lines:
  assumes "heap w r = Some sv" "buffer sv = []"
  shows "stdoutListener parse cid r (cid, d) w =
           foldl (\<lambda>w line. handleLine parse cid line w) w (splitOn 0x0A d)"
proof -
  have "sv\<lparr>buffer := []\<rparr> = sv" using assms(2) by simp
  then have "w\<lparr>heap := (heap w)(r \<mapsto> sv\<lparr>buffer := []\<rparr>)\<rparr> = w"
    using assms(1) by (simp add: map_upd_triv)
  then show ?thesis
    using assms
    by (simp add: stdoutListener_def Let_def popOr_last splitOn_snoc_sep)
qed

lemma JSON_parse_whole:
  "JSON_parse (firstPart @ secondPart) =
     Some (JObj [(str ''jsonrpc'', JStr (str ''2.0'')), (str ''id'', JNum 1), (str ''result'', JObj [])])"
  by (simp add: JSON_parse_def firstPart_def secondPart_def str_def skipSpace_def isJsonSpace_def
        parseNumber_def isDigit_def digitsValue_def Let_def)

lemma JSON_parse_parts:
  "JSON_parse firstPart = None" "JSON_parse secondPart = None"
  by (simp_all add: JSON_parse_def firstPart_def secondPart_def str_def skipSpace_def isJsonSpace_def
        parseNumber_def isDigit_def digitsValue_def Let_def)

lemma firstPart_not_blank: "jsTrim firstPart \<noteq> []" "jsTrim secondPart \<noteq> []"
  "jsTrim (firstPart @ secondPart) \<noteq> []"
  by (simp_all add: jsTrim_def firstPart_def secondPart_def str_def isWhiteSpace_def)

lemma splitOn_parts:
  "splitOn 0x0A firstPart = [firstPart]" "splitOn 0x0A secondPart = [secondPart]"
  "splitOn 0x0A (firstPart @ secondPart) = [firstPart @ secondPart]"
  by (simp_all add: firstPart_def secondPart_def str_def)

lemma exampleRun_heap0:
  "heap exampleRun 0 = Some \<lparr>srv_transport = Stdio, requestId = 1,
       pendingRequests = [NumId 1 \<mapsto> 0], buffer = [], eventSource = False,
       sessionId = None, srv_url = []\<rparr>"
  by (simp add: exampleRun_fields)

text \<open>
  Claim C3 does not hold as stated.  The listener appends a newline to the data of every
  event before it splits the buffer, so the last segment is always empty and nothing is
  held back.  In the session of the example the request 1 is pending.  Delivered in one
  event, the response resolves it.  Delivered in two events, cut after \<open>"id":1,\<close>,
  each part is parsed on its own and dropped: the buffer is empty after the first event,
  and after the second event the world is what it was, the request still pending.
\<close>

theorem split_message_is_dropped:
  "promises exampleRun 0 = Some Pending \<and>
   promises (stdoutListener JSON_parse exampleServer 0 (exampleServer, firstPart @ secondPart)
               exampleRun) 0 = Some (Resolved (Some (JObj []))) \<and>
   map_option buffer
     (heap (stdoutListener JSON_parse exampleServer 0 (exampleServer, firstPart) exampleRun) 0) =
     Some [] \<and>
   stdoutListener JSON_parse exampleServer 0 (exampleServer, secondPart)
     (stdoutListener JSON_parse exampleServer 0 (exampleServer, firstPart) exampleRun) = exampleRun"
proof -
  have 1: "promises exampleRun 0 = Some Pending" by (simp add: exampleRun_fields)
  have a: "stdoutListener JSON_parse exampleServer 0 (exampleServer, firstPart) exampleRun = exampleRun"
    by (simp add: stdoutListener_lines[OF exampleRun_heap0] splitOn_parts handleLine_def
          firstPart_not_blank JSON_parse_parts)
  have b: "stdoutListener JSON_parse exampleServer 0 (exampleServer, secondPart) exampleRun = exampleRun"
    by (simp add: stdoutListener_lines[OF exampleRun_heap0] splitOn_parts handleLine_def
          firstPart_not_blank JSON_parse_parts)
  have r: "asResponse (JObj [(str ''jsonrpc'', JStr (str ''2.0'')), (str ''id'', JNum 1),
              (str ''result'', JObj [])]) = Some exampleReply"
    by (simp add: asResponse_def asRpcId_def asRpcError_def exampleReply_def str_def)
  have c: "stdoutListener JSON_parse exampleServer 0 (exampleServer, firstPart @ secondPart) exampleRun
             = handleResponse exampleServer exampleReply exampleRun"
    by (simp add: stdoutListener_lines[OF exampleRun_heap0] splitOn_parts handleLine_def
          firstPart_not_blank JSON_parse_whole r)
  have 2: "promises (stdoutListener JSON_parse exampleServer 0 (exampleServer, firstPart @ secondPart)
               exampleRun) 0 = Some (Resolved (Some (JObj [])))"
    unfolding c handleResponse_some(4)[OF exampleRun_entry]
    by (simp add: exampleRun_fields completionOutcome_def exampleReply_def)
  have 3: "map_option buffer
     (heap (stdoutListener JSON_parse exampleServer 0 (exampleServer, firstPart) exampleRun) 0) = Some []"
    unfolding a by (simp add: exampleRun_fields)
  from 1 2 3 a b show ?thesis by simp
qed

text \<open>
  Claim C3, as the code has it.  The listener takes the data of every stdout event of its
  server as whole lines: after every event the buffer is empty, and with an empty buffer
  the lines handled are exactly the segments of the data of the event between its
  newlines.  A line that is not blank and parses is handed to \<open>handleResponse\<close>; a
  blank line and a line that does not parse change nothing.  Events of other servers are
  ignored.
\<close>

theorem stdout_event_is_whole_lines:
  "(heap w r = Some sv \<longrightarrow>
      map_option buffer (heap (stdoutListener parse configId r (configId, d) w) r) = Some []) \<and>
   (heap w r = Some sv \<and> buffer sv = [] \<longrightarrow>
      stdoutListener parse configId r (configId, d) w =
        foldl (\<lambda>w line. handleLine parse configId line w) w (splitOn 0x0A d)) \<and>
   (jsTrim line \<noteq> [] \<and> parse line = Some v \<and> asResponse v = Some response \<longrightarrow>
      handleLine parse configId line w = handleResponse configId response w) \<and>
   (jsTrim line = [] \<or> parse line = None \<longrightarrow> handleLine parse configId line w = w) \<and>
   (sid \<noteq> configId \<longrightarrow> stdoutListener parse configId r (sid, d) w = w)"
  using stdoutListener_buffer[where w=w and r=r and sv=sv and parse=parse and cid=configId and d=d]
    stdoutListener_lines[where w=w and r=r and sv=sv and parse=parse and cid=configId and d=d]
  by (auto simp: handleLine_def stdoutListener_def)

text \<open>The response to the pending request of the example, delivered in one event.\<close>

theorem stdout_event_is_whole_lines_witness:
  "heap exampleRun 0 \<noteq> None \<and>
   map_option buffer
     (heap (stdoutListener JSON_parse exampleServer 0 (exampleServer, firstPart @ secondPart)
              exampleRun) 0) = Some [] \<and>
   stdoutListener JSON_parse exampleServer 0 (exampleServer, firstPart @ secondPart) exampleRun =
     handleLine JSON_parse exampleServer (firstPart @ secondPart) exampleRun \<and>
   handleLine JSON_parse exampleServer firstPart exampleRun = exampleRun \<and>
   stdoutListener JSON_parse exampleServer 0 (str ''other-server'', firstPart @ secondPart)
     exampleRun = exampleRun"
proof -
  note T = stdout_event_is_whole_lines[where w=exampleRun and r=0 and parse=JSON_parse
      and configId=exampleServer and d="firstPart @ secondPart" and line=firstPart
      and sid="str ''other-server''"
      and sv="\<lparr>srv_transport = Stdio, requestId = 1,
       pendingRequests = [NumId 1 \<mapsto> 0], buffer = [], eventSource = False,
       sessionId = None, srv_url = []\<rparr>"]
  have n: "str ''other-server'' \<noteq> exampleServer" by (simp add: exampleServer_def str_def)
  have 1: "map_option buffer
     (heap (stdoutListener JSON_parse exampleServer 0 (exampleServer, firstPart @ secondPart)
              exampleRun) 0) = Some []"
    using T exampleRun_heap0 by blast
  have 2: "stdoutListener JSON_parse exampleServer 0 (exampleServer, firstPart @ secondPart) exampleRun =
     handleLine JSON_parse exampleServer (firstPart @ secondPart) exampleRun"
    using T exampleRun_heap0 by (simp add: splitOn_parts)
  have 3: "handleLine JSON_parse exampleServer firstPart exampleRun = exampleRun"
    using T by (simp add: JSON_parse_parts)
  have 4: "stdoutListener JSON_parse exampleServer 0 (str ''other-server'', firstPart @ secondPart)
     exampleRun = exampleRun"
    using T n by blast
  from 1 2 3 4 exampleRun_heap0 show ?thesis by simp
qed

section \<open>Verification of the decoder of streamed responses\<close>

subsection \<open>Lemmas and theorems\<close>

lemma decode_append:
  "decode d (xs @ ys) =
     (fst (decode (fst (decode d xs)) ys), snd (decode d xs) @ snd (decode (fst (decode d xs)) ys))"
  by (induction xs arbitrary: d) (simp_all add: case_prod_beta)

lemma splitOn_append:
  "splitOn sep (xs @ ys) = butlast (splitOn sep xs) @ splitOn sep (last (splitOn sep xs) @ ys)"
proof (induction xs)
  case Nil
  show ?case by simp
next
  case (Cons c cs)
  show ?case
  proof (cases "c = sep")
    case True
    then show ?thesis using Cons by simp
  next
    case False
    obtain l ls where s: "splitOn sep cs = l # ls" by (cases "splitOn sep cs") auto
    show ?thesis
    proof (cases ls)
      case Nil
      then show ?thesis using False s Cons by simp
    next
      case (Cons a as)
      then show ?thesis using False s Cons.IH by simp
    qed
  qed
qed

lemma deltas_append [simp]:
  "deltas p e (xs @ ys) = deltas p e xs @ deltas p e ys"
  by (simp add: deltas_def List.map_filter_def)

lemma deltas_simps [simp]:
  "deltas p e [] = []"
  "deltas p e (l # ls) = (case lineDelta p e l of None \<Rightarrow> deltas p e ls | Some t \<Rightarrow> t # deltas p e ls)"
  by (simp_all add: deltas_def map_filter_simps split: option.splits)

lemma processLine_delta:
  "processLine p e line st =
     (case lineDelta p e line of
        None \<Rightarrow> st
      | Some t \<Rightarrow> st\<lparr>fullText := fullText st @ t, onChunkCalls := onChunkCalls st @ [t]\<rparr>)"
  by (auto simp: processLine_def lineDelta_def Let_def split: option.splits)

lemma processLines:
  "foldl (\<lambda>st line. processLine p e line st) st ls =
     st\<lparr>fullText := fullText st @ concat (deltas p e ls),
        onChunkCalls := onChunkCalls st @ deltas p e ls\<rparr>"
proof (induction ls arbitrary: st)
  case Nil
  show ?case by simp
next
  case (Cons l ls)
  have "foldl (\<lambda>st line. processLine p e line st) st (l # ls) =
          foldl (\<lambda>st line. processLine p e line st) (processLine p e l st) ls"
    by simp
  also have "\<dots> = (processLine p e l st)
          \<lparr>fullText := fullText (processLine p e l st) @ concat (deltas p e ls),
           onChunkCalls := onChunkCalls (processLine p e l st) @ deltas p e ls\<rparr>"
    by (rule Cons.IH)
  also have "\<dots> = st\<lparr>fullText := fullText st @ concat (deltas p e (l # ls)),
        onChunkCalls := onChunkCalls st @ deltas p e (l # ls)\<rparr>"
    by (cases "lineDelta p e l") (simp_all add: processLine_delta)
  finally show ?case .
qed

lemma readChunk_stateAfter:
  "readChunk p e (stateAfter p e bs) c = stateAfter p e (bs @ c)"
proof -
  define T where "T = decodedText bs"
  define t where "t = snd (decode (fst (decode newTextDecoder bs)) c)"
  define L where "L = splitOn 0x0A (last (splitOn 0x0A T) @ t)"
  have d: "decodedText (bs @ c) = T @ t"
    by (simp add: decodedText_def decode_append T_def t_def)
  have f: "fst (decode newTextDecoder (bs @ c)) = fst (decode (fst (decode newTextDecoder bs)) c)"
    by (simp add: decode_append)
  have s: "splitOn 0x0A (T @ t) = butlast (splitOn 0x0A T) @ L"
    unfolding L_def by (rule splitOn_append)
  have ne: "L \<noteq> []" by (simp add: L_def)
  have bl: "butlast (splitOn 0x0A (T @ t)) = butlast (splitOn 0x0A T) @ butlast L"
    and la: "last (splitOn 0x0A (T @ t)) = last L"
    using ne by (simp_all add: s butlast_append)
  show ?thesis
    unfolding readChunk_def
    by (simp add: stateAfter_def case_prod_beta Let_def processLines popOr_def ne
          d f bl la T_def[symmetric] t_def[symmetric] L_def[symmetric])
qed

lemma readLoop_chunks:
  "readLoop p e (stateAfter p e bs) (map Chunk chunks) = (None, stateAfter p e (bs @ concat chunks))"
  by (induction chunks arbitrary: bs) (simp_all add: readChunk_stateAfter)

lemma readLoop_failed:
  "readLoop p e (stateAfter p e bs) (map Chunk chunks @ ReadError err # rest) =
     (Some err, stateAfter p e (bs @ concat chunks))"
  by (induction chunks arbitrary: bs) (simp_all add: readChunk_stateAfter)

lemma stateAfter_Nil:
  "stateAfter p e [] = \<lparr>decoder = newTextDecoder, fullText = [], lineBuffer = [], onChunkCalls = []\<rparr>"
  by (simp add: stateAfter_def decodedText_def)

lemma streamSSEResponse_chunks:
  "streamSSEResponse p e (map Chunk chunks) =
     (Inr (concat (deltas p e (splitOn 0x0A (decodedText (concat chunks))))),
      deltas p e (splitOn 0x0A (decodedText (concat chunks))))"
proof -
  define L where "L = splitOn 0x0A (decodedText (concat chunks))"
  have ne: "L \<noteq> []" by (simp add: L_def)
  have ap: "butlast L @ [last L] = L" using ne by simp
  have "deltas p e L = deltas p e (butlast L) @ deltas p e [last L]"
    using ap deltas_append[of p e "butlast L" "[last L]"] by simp
  then show ?thesis
    using readLoop_chunks[of p e "[]" chunks, unfolded stateAfter_Nil]
    by (cases "lineDelta p e (last L)")
       (simp_all add: streamSSEResponse_def Let_def processLine_delta stateAfter_def
          L_def[symmetric])
qed

lemma streamSSEResponse_failed:
  "streamSSEResponse p e (map Chunk chunks @ ReadError err # rest) =
     (Inl err, deltas p e (butlast (splitOn 0x0A (decodedText (concat chunks)))))"
  using readLoop_failed[of p e "[]" chunks err rest, unfolded stateAfter_Nil]
  by (simp add: streamSSEResponse_def Let_def stateAfter_def)

lemma bomSeen_idem: "bomSeen d \<Longrightarrow> d\<lparr>bomSeen := True\<rparr> = d"
  by (cases d) simp

lemma decodeByte_ascii:
  assumes "bytesNeeded d = 0" "b \<le> 0x7F"
  shows "decodeByte d b = (d\<lparr>bomSeen := True\<rparr>, [ucast b])"
proof -
  have "unat b \<le> 127" using assms(2) by (simp add: word_le_nat_alt)
  then have n: "unat b \<noteq> 65279" "unat b < 65536" by simp_all
  have h: "utf8Handler d b = (CodePoint (unat b), False, d)"
    using assms by (simp add: utf8Handler_def)
  have c: "codeUnits (unat b) = [ucast b]"
    using n(2) by (simp add: codeUnits_def)
  have s: "serializeItem d (unat b) = (d\<lparr>bomSeen := True\<rparr>, [ucast b])"
    using n(1) by (simp add: serializeItem_def c bomSeen_idem)
  show ?thesis
    by (simp add: decodeByte_def h processResult_def s)
qed

lemma decode_ascii:
  assumes "bytesNeeded d = 0" "\<forall>b \<in> set bs. b \<le> 0x7F"
  shows "snd (decode d bs) = map ucast bs"
  using assms
proof (induction bs arbitrary: d)
  case Nil
  show ?case by simp
next
  case (Cons b bs)
  have "bytesNeeded (d\<lparr>bomSeen := True\<rparr>) = 0" using Cons.prems by simp
  from Cons.IH[OF this] Cons.prems show ?case
    by (simp add: decodeByte_ascii case_prod_beta)
qed

lemma decodedText_ascii:
  "\<forall>b \<in> set bs. b \<le> 0x7F \<Longrightarrow> decodedText bs = map ucast bs"
  by (simp add: decodedText_def decode_ascii newTextDecoder_def)

lemma JSON_parse_Hi:
  "JSON_parse (str ''{\"text\":\"Hi\"}'') = Some (JObj [(str ''text'', JStr (str ''Hi''))])"
  by (simp add: JSON_parse_def str_def skipSpace_def isJsonSpace_def)

lemma lineDelta_Hi:
  "lineDelta JSON_parse textField (str ''data: {\"text\":\"Hi\"}'') = Some (str ''Hi'')"
proof -
  have a: "startsWith (str ''data: {\"text\":\"Hi\"}'') (str ''data: '')"
    by (simp add: startsWith_def str_def)
  have b: "jsTrim (drop 6 (str ''data: {\"text\":\"Hi\"}'')) = str ''{\"text\":\"Hi\"}''"
    by (simp add: jsTrim_def str_def isWhiteSpace_def)
  have c: "str ''{\"text\":\"Hi\"}'' \<noteq> []" "str ''{\"text\":\"Hi\"}'' \<noteq> str ''[DONE]''"
    "str ''Hi'' \<noteq> []"
    by (simp_all add: str_def)
  have d: "textField (JObj [(str ''text'', JStr (str ''Hi''))]) = Some (str ''Hi'')"
    by (simp add: textField_def asString_def str_def)
  show ?thesis
    unfolding lineDelta_def b using a c by (simp add: JSON_parse_Hi d)
qed

lemma lineDelta_empty: "lineDelta p e [] = None"
  by (simp add: lineDelta_def startsWith_def str_def)

lemma decoded_Hi:
  "decodedText (bytes ''data: {\"te'' @ bytes ''xt\":\"Hi\"}'' @ [0x0A, 0x0A]) =
     str ''data: {\"text\":\"Hi\"}'' @ [0x0A, 0x0A]"
  by (subst decodedText_ascii) (simp_all add: bytes_def str_def)

lemma splitOn_Hi:
  "splitOn 0x0A (str ''data: {\"text\":\"Hi\"}'' @ [0x0A, 0x0A]) = [str ''data: {\"text\":\"Hi\"}'', [], []]"
  by (simp add: str_def)

text \<open>
  Claim C2.  The result of \<open>streamSSEResponse\<close>, that is the text returned together
  with the sequence of the texts handed to \<open>onChunk\<close>, depends only on the
  concatenation of the chunks read: two ways of slicing the same bytes give the same
  result, for every parser and extractor, also when a read fails after these bytes.  Fed
  with the chunks \<open>data: {"te\<close> and \<open>xt":"Hi"}\<close> followed by two newlines, with the
  extractor that reads the field \<open>text\<close>, it returns \<open>Hi\<close> after exactly one call
  of \<open>onChunk\<close>, with \<open>Hi\<close>.
\<close>

theorem sse_chunking_invariant:
  "(concat chunks = concat chunks' \<longrightarrow>
      streamSSEResponse parse extractText (map Chunk chunks) =
      streamSSEResponse parse extractText (map Chunk chunks') \<and>
      streamSSEResponse parse extractText (map Chunk chunks @ ReadError err # rest) =
      streamSSEResponse parse extractText (map Chunk chunks' @ ReadError err # rest')) \<and>
   streamSSEResponse JSON_parse textField
     [Chunk (bytes ''data: {\"te''), Chunk (bytes ''xt\":\"Hi\"}'' @ [0x0A, 0x0A])] =
     (Inr (str ''Hi''), [str ''Hi''])"
proof -
  have "streamSSEResponse JSON_parse textField
     (map Chunk [bytes ''data: {\"te'', bytes ''xt\":\"Hi\"}'' @ [0x0A, 0x0A]]) =
     (Inr (str ''Hi''), [str ''Hi''])"
    unfolding streamSSEResponse_chunks
    by (simp add: decoded_Hi splitOn_Hi lineDelta_Hi lineDelta_empty)
  then show ?thesis by (simp add: streamSSEResponse_chunks streamSSEResponse_failed)
qed

text \<open>The same bytes in five chunks, one of them empty.\<close>

theorem sse_chunking_invariant_witness:
  "concat [bytes ''data: {\"te'', bytes ''xt\":\"Hi\"}'' @ [0x0A, 0x0A]] =
     concat [bytes ''data: '', [], bytes ''{\"text\":\"Hi\"}'', [0x0A], [0x0A]] \<and>
   streamSSEResponse JSON_parse textField
     [Chunk (bytes ''data: ''), Chunk [], Chunk (bytes ''{\"text\":\"Hi\"}''), Chunk [0x0A],
      Chunk [0x0A]] =
     (Inr (str ''Hi''), [str ''Hi''])"
proof -
  have c: "concat [bytes ''data: {\"te'', bytes ''xt\":\"Hi\"}'' @ [0x0A, 0x0A]] =
     concat [bytes ''data: '', [], bytes ''{\"text\":\"Hi\"}'', [0x0A], [0x0A]]"
    by (simp add: bytes_def)
  note T = sse_chunking_invariant[where chunks="[bytes ''data: {\"te'', bytes ''xt\":\"Hi\"}'' @ [0x0A, 0x0A]]"
      and chunks'="[bytes ''data: '', [], bytes ''{\"text\":\"Hi\"}'', [0x0A], [0x0A]]"
      and parse=JSON_parse and extractText=textField]
  note e = T[THEN conjunct1, THEN mp, OF c, THEN conjunct1, unfolded list.map]
  note v = T[THEN conjunct2]
  from e[symmetric] v have "streamSSEResponse JSON_parse textField
     [Chunk (bytes ''data: ''), Chunk [], Chunk (bytes ''{\"text\":\"Hi\"}''), Chunk [0x0A],
      Chunk [0x0A]] =
     (Inr (str ''Hi''), [str ''Hi''])"
    by (rule trans)
  with c show ?thesis by (rule conjI)
qed

lemma splitOn_no_sep: "sep \<notin> set xs \<Longrightarrow> splitOn sep xs = [xs]"
  by (induction xs) auto

lemma splitOn_line_sep:
  "sep \<notin> set l \<Longrightarrow> splitOn sep (l @ sep # rest) = l # splitOn sep rest"
  by (induction l) auto

lemma splitOn_textOfLines:
  "ls \<noteq> [] \<Longrightarrow> \<forall>l \<in> set ls. 0x0A \<notin> set l \<Longrightarrow> splitOn 0x0A (textOfLines ls) = ls"
proof (induction ls rule: textOfLines.induct)
  case 1
  then show ?case by simp
next
  case (2 l)
  then show ?case by (simp add: splitOn_no_sep)
next
  case (3 l l' ls)
  then show ?case by (simp add: splitOn_line_sep)
qed

lemma streamSSEResponse_lines:
  assumes "ls \<noteq> []" "\<forall>l \<in> set ls. 0x0A \<notin> set l" "decodedText (concat chunks) = textOfLines ls"
  shows "streamSSEResponse p e (map Chunk chunks) = (Inr (concat (deltas p e ls)), deltas p e ls)"
  by (simp add: streamSSEResponse_chunks assms(3) splitOn_textOfLines[OF assms(1,2)])

lemma streamSSEResponse_latin_lines:
  assumes "ls \<noteq> []" "\<forall>l \<in> set ls. 0x0A \<notin> set l" "\<forall>b \<in> set (concat chunks). b \<le> 0x7F"
    "map ucast (concat chunks) = textOfLines ls"
  shows "streamSSEResponse p e (map Chunk chunks) = (Inr (concat (deltas p e ls)), deltas p e ls)"
  using streamSSEResponse_lines[OF assms(1,2), of chunks p e] decodedText_ascii[OF assms(3)] assms(4)
  by simp

lemma streamSSEResponse_unterminated:
  assumes "0x0A \<notin> set (decodedText (concat chunks))"
  shows "streamSSEResponse p e (map Chunk chunks) =
     (case lineDelta p e (decodedText (concat chunks)) of
        None \<Rightarrow> (Inr [], [])
      | Some t \<Rightarrow> (Inr t, [t]))"
  by (simp add: streamSSEResponse_chunks splitOn_no_sep[OF assms] split: option.splits)

lemma deltas_nonempty: "\<forall>t \<in> set (deltas p e ls). t \<noteq> []"
proof (induction ls)
  case Nil
  show ?case by simp
next
  case (Cons l ls)
  show ?case
  proof (cases "lineDelta p e l")
    case None
    then show ?thesis using Cons by simp
  next
    case (Some t)
    then have "t \<noteq> []" by (auto simp: lineDelta_def split: option.splits if_splits)
    then show ?thesis using Some Cons by simp
  qed
qed

lemma jsTrim_blank:
  assumes "blank s"
  shows "jsTrim s = []"
proof -
  have d: "dropWhile isWhiteSpace s = []"
    using assms by (simp add: blank_def dropWhile_eq_Nil_conv)
  show ?thesis unfolding jsTrim_def d by simp
qed

lemma dropWhile_blank_prefix:
  assumes "blank pre" "xs \<noteq> []" "\<not> isWhiteSpace (hd xs)"
  shows "dropWhile isWhiteSpace (pre @ xs) = xs"
proof -
  obtain y ys where x: "xs = y # ys" using assms(2) by (cases xs) auto
  have "dropWhile isWhiteSpace pre = []"
    using assms(1) by (simp add: blank_def dropWhile_eq_Nil_conv)
  then show ?thesis using assms(3) x by (simp add: dropWhile_append3)
qed

lemma jsTrim_padded:
  assumes "blank pre" "blank post" "trimmed payload"
  shows "jsTrim (pre @ payload @ post) = payload"
proof -
  have p: "payload \<noteq> []" "\<not> isWhiteSpace (hd payload)" "\<not> isWhiteSpace (last payload)"
    using assms(3) by (simp_all add: trimmed_def)
  have 1: "dropWhile isWhiteSpace (pre @ payload @ post) = payload @ post"
    using dropWhile_blank_prefix[OF assms(1), of "payload @ post"] p by simp
  have b: "blank (rev post)" using assms(2) by (simp add: blank_def)
  have 2: "dropWhile isWhiteSpace (rev post @ rev payload) = rev payload"
    using dropWhile_blank_prefix[OF b, of "rev payload"] p by (simp add: hd_rev)
  show ?thesis by (simp add: jsTrim_def 1 2)
qed

lemma dataPrefix:
  "startsWith (str ''data: '' @ r) (str ''data: '')" "drop 6 (str ''data: '' @ r) = r"
  "length (str ''data: '') = 6"
  by (simp_all add: startsWith_def str_def)

lemma lineDelta_prefix:
  "lineDelta p e (str ''data: '' @ r) =
     (if jsTrim r \<noteq> [] \<and> jsTrim r \<noteq> str ''[DONE]''
      then (case Option.bind (p (jsTrim r)) e of
              None \<Rightarrow> None
            | Some t \<Rightarrow> if t = [] then None else Some t)
      else None)"
  unfolding lineDelta_def dataPrefix(2) using dataPrefix(1)[of r] by simp

lemma lineDelta_data:
  assumes "blank pre" "blank post" "trimmed payload"
  shows "lineDelta p e (str ''data: '' @ pre @ payload @ post) =
     (if payload = str ''[DONE]'' then None
      else case p payload of
             None \<Rightarrow> None
           | Some d \<Rightarrow> (case e d of None \<Rightarrow> None | Some t \<Rightarrow> if t = [] then None else Some t))"
proof -
  have n: "payload \<noteq> []" using assms(3) by (simp add: trimmed_def)
  show ?thesis
    unfolding lineDelta_prefix jsTrim_padded[OF assms]
    using n by (simp split: option.splits)
qed

lemma lineDelta_blank:
  "blank pre \<Longrightarrow> lineDelta p e (str ''data: '' @ pre) = None"
  unfolding lineDelta_prefix by (simp add: jsTrim_blank)

lemma lineDelta_other:
  "take 6 line \<noteq> str ''data: '' \<Longrightarrow> lineDelta p e line = None"
  by (simp add: lineDelta_def startsWith_def dataPrefix(3))

text \<open>
  Claim C8.  When the decoded text of a stream that is read to its end consists of the
  lines \<open>lines\<close>, none of them containing a newline, separated by newlines, then the
  texts handed to \<open>onChunk\<close> are the deltas of these lines in their order, one call
  for each delta, the rest after the last newline included, and the value returned is
  their concatenation; for bytes below 128 the decoded text is the bytes themselves.  A
  line \<open>data: \<close> followed by a payload between white space has the delta \<open>t\<close>
  when the payload is not \<open>[DONE]\<close>, parses, and the extractor yields the text
  \<open>t\<close>, which is not empty.  It has no delta, and nothing is thrown, when the payload
  does not parse, when the extractor yields the empty text or throws, when the payload is
  \<open>[DONE]\<close> or blank, and when the line does not start with \<open>data: \<close>.  A stream
  without any newline is given the one parse attempt after the loop.  The value returned
  is always the concatenation of the texts handed to \<open>onChunk\<close>, none of which is
  empty.  The extractor for Google reads \<open>candidates[0].content.parts[0].text\<close>, the
  one for OpenAI and Groq \<open>choices[0].delta.content\<close>, and both yield the empty text
  when a part of the path is missing.
\<close>

theorem sse_data_lines_extracted:
  "(lines \<noteq> [] \<and> (\<forall>l \<in> set lines. 0x0A \<notin> set l) \<and>
    decodedText (concat chunks) = textOfLines lines \<longrightarrow>
      streamSSEResponse parse extractText (map Chunk chunks) =
        (Inr (concat (deltas parse extractText lines)), deltas parse extractText lines)) \<and>
   (lines \<noteq> [] \<and> (\<forall>l \<in> set lines. 0x0A \<notin> set l) \<and>
    (\<forall>b \<in> set (concat chunks). b \<le> 0x7F) \<and> map ucast (concat chunks) = textOfLines lines \<longrightarrow>
      streamSSEResponse parse extractText (map Chunk chunks) =
        (Inr (concat (deltas parse extractText lines)), deltas parse extractText lines)) \<and>
   deltas parse extractText [] = [] \<and>
   deltas parse extractText (line # lines) =
     (case lineDelta parse extractText line of
        None \<Rightarrow> deltas parse extractText lines
      | Some t \<Rightarrow> t # deltas parse extractText lines) \<and>
   (blank pre \<and> blank post \<and> trimmed payload \<and> payload \<noteq> str ''[DONE]'' \<and>
    parse payload = Some d \<and> extractText d = Some t \<and> t \<noteq> [] \<longrightarrow>
      lineDelta parse extractText (str ''data: '' @ pre @ payload @ post) = Some t) \<and>
   (blank pre \<and> blank post \<and> trimmed payload \<and> parse payload = None \<longrightarrow>
      lineDelta parse extractText (str ''data: '' @ pre @ payload @ post) = None) \<and>
   (blank pre \<and> blank post \<and> trimmed payload \<and> parse payload = Some d \<and>
    (extractText d = Some [] \<or> extractText d = None) \<longrightarrow>
      lineDelta parse extractText (str ''data: '' @ pre @ payload @ post) = None) \<and>
   (blank pre \<and> blank post \<longrightarrow>
      lineDelta parse extractText (str ''data: '' @ pre @ str ''[DONE]'' @ post) = None) \<and>
   (blank pre \<longrightarrow> lineDelta parse extractText (str ''data: '' @ pre) = None) \<and>
   (take 6 line \<noteq> str ''data: '' \<longrightarrow> lineDelta parse extractText line = None) \<and>
   (0x0A \<notin> set (decodedText (concat chunks)) \<longrightarrow>
      streamSSEResponse parse extractText (map Chunk chunks) =
        (case lineDelta parse extractText (decodedText (concat chunks)) of
           None \<Rightarrow> (Inr [], [])
         | Some t \<Rightarrow> (Inr t, [t]))) \<and>
   fst (streamSSEResponse parse extractText (map Chunk chunks)) =
     Inr (concat (snd (streamSSEResponse parse extractText (map Chunk chunks)))) \<and>
   (\<forall>t \<in> set (snd (streamSSEResponse parse extractText (map Chunk chunks))). t \<noteq> []) \<and>
   extractGoogleText
     \<lparr>candidates = Some (\<lparr>candidate_content =
        Some \<lparr>parts = Some (\<lparr>part_text = Some t\<rparr> # ps)\<rparr>\<rparr> # cs)\<rparr> = t \<and>
   extractGoogleText \<lparr>candidates = None\<rparr> = [] \<and>
   extractGoogleText \<lparr>candidates = Some []\<rparr> = [] \<and>
   extractGoogleText \<lparr>candidates = Some [\<lparr>candidate_content = None\<rparr>]\<rparr> = [] \<and>
   extractOpenAIText
     \<lparr>choices = Some (\<lparr>delta = Some \<lparr>delta_content = Some t\<rparr>\<rparr> # os)\<rparr> = t \<and>
   extractOpenAIText \<lparr>choices = None\<rparr> = [] \<and>
   extractOpenAIText \<lparr>choices = Some []\<rparr> = [] \<and>
   extractOpenAIText \<lparr>choices = Some [\<lparr>delta = None\<rparr>]\<rparr> = [] \<and>
   extractGroqText = extractOpenAIText"
proof -
  have g: "extractGoogleText
     \<lparr>candidates = Some (\<lparr>candidate_content =
        Some \<lparr>parts = Some (\<lparr>part_text = Some t\<rparr> # ps)\<rparr>\<rparr> # cs)\<rparr> = t"
    "extractGoogleText \<lparr>candidates = None\<rparr> = []"
    "extractGoogleText \<lparr>candidates = Some []\<rparr> = []"
    "extractGoogleText \<lparr>candidates = Some [\<lparr>candidate_content = None\<rparr>]\<rparr> = []"
    by (simp_all add: extractGoogleText_def)
  have o: "extractOpenAIText
     \<lparr>choices = Some (\<lparr>delta = Some \<lparr>delta_content = Some t\<rparr>\<rparr> # os)\<rparr> = t"
    "extractOpenAIText \<lparr>choices = None\<rparr> = []"
    "extractOpenAIText \<lparr>choices = Some []\<rparr> = []"
    "extractOpenAIText \<lparr>choices = Some [\<lparr>delta = None\<rparr>]\<rparr> = []"
    "extractGroqText = extractOpenAIText"
    by (simp_all add: extractOpenAIText_def extractGroqText_def)
  have a1: "lines \<noteq> [] \<and> (\<forall>l \<in> set lines. 0x0A \<notin> set l) \<and>
    decodedText (concat chunks) = textOfLines lines \<longrightarrow>
      streamSSEResponse parse extractText (map Chunk chunks) =
        (Inr (concat (deltas parse extractText lines)), deltas parse extractText lines)"
    using streamSSEResponse_lines[of lines chunks parse extractText] by blast
  have a2: "lines \<noteq> [] \<and> (\<forall>l \<in> set lines. 0x0A \<notin> set l) \<and>
    (\<forall>b \<in> set (concat chunks). b \<le> 0x7F) \<and> map ucast (concat chunks) = textOfLines lines \<longrightarrow>
      streamSSEResponse parse extractText (map Chunk chunks) =
        (Inr (concat (deltas parse extractText lines)), deltas parse extractText lines)"
    using streamSSEResponse_latin_lines[of lines chunks parse extractText] by blast
  have b1: "blank pre \<and> blank post \<and> trimmed payload \<and> payload \<noteq> str ''[DONE]'' \<and>
    parse payload = Some d \<and> extractText d = Some t \<and> t \<noteq> [] \<longrightarrow>
      lineDelta parse extractText (str ''data: '' @ pre @ payload @ post) = Some t"
    using lineDelta_data[of pre post payload parse extractText] by simp
  have b2: "blank pre \<and> blank post \<and> trimmed payload \<and> parse payload = None \<longrightarrow>
      lineDelta parse extractText (str ''data: '' @ pre @ payload @ post) = None"
    using lineDelta_data[of pre post payload parse extractText] by simp
  have b3: "blank pre \<and> blank post \<and> trimmed payload \<and> parse payload = Some d \<and>
    (extractText d = Some [] \<or> extractText d = None) \<longrightarrow>
      lineDelta parse extractText (str ''data: '' @ pre @ payload @ post) = None"
    using lineDelta_data[of pre post payload parse extractText] by auto
  have tr: "trimmed (str ''[DONE]'')"
    by (simp add: trimmed_def str_def isWhiteSpace_def)
  have b4: "blank pre \<and> blank post \<longrightarrow>
      lineDelta parse extractText (str ''data: '' @ pre @ str ''[DONE]'' @ post) = None"
    using lineDelta_data[of pre post "str ''[DONE]''" parse extractText] tr by simp
  have b5: "blank pre \<longrightarrow> lineDelta parse extractText (str ''data: '' @ pre) = None"
    using lineDelta_blank[of pre parse extractText] by blast
  have b6: "take 6 line \<noteq> str ''data: '' \<longrightarrow> lineDelta parse extractText line = None"
    using lineDelta_other[of line parse extractText] by blast
  have u: "0x0A \<notin> set (decodedText (concat chunks)) \<longrightarrow>
      streamSSEResponse parse extractText (map Chunk chunks) =
        (case lineDelta parse extractText (decodedText (concat chunks)) of
           None \<Rightarrow> (Inr [], [])
         | Some t \<Rightarrow> (Inr t, [t]))"
    by (rule impI) (rule streamSSEResponse_unterminated)
  have c: "fst (streamSSEResponse parse extractText (map Chunk chunks)) =
     Inr (concat (snd (streamSSEResponse parse extractText (map Chunk chunks))))"
    by (simp add: streamSSEResponse_chunks)
  have n: "\<forall>t \<in> set (snd (streamSSEResponse parse extractText (map Chunk chunks))). t \<noteq> []"
    using deltas_nonempty[of parse extractText] by (simp add: streamSSEResponse_chunks)
  show ?thesis
    by (intro conjI a1 a2 deltas_simps b1 b2 b3 b4 b5 b6 u c n g o)
qed

lemma JSON_parse_texts:
  "JSON_parse (str ''{\"text\":\"Hello\"}'') = Some (JObj [(str ''text'', JStr (str ''Hello''))])"
  "JSON_parse (str ''{\"text\":\" world\"}'') = Some (JObj [(str ''text'', JStr (str '' world''))])"
  "JSON_parse (str ''{\"text\":\"\"}'') = Some (JObj [(str ''text'', JStr [])])"
  "JSON_parse (str ''invalid json'') = None"
  by (simp_all add: JSON_parse_def str_def skipSpace_def isJsonSpace_def parseNumber_def
        isDigit_def Let_def)

lemma textField_text: "textField (JObj [(str ''text'', JStr t)]) = Some t"
  by (simp add: textField_def asString_def)

lemma trimmed_payloads:
  "trimmed (str ''{\"text\":\"Hello\"}'')" "trimmed (str ''{\"text\":\" world\"}'')"
  "trimmed (str ''{\"text\":\"\"}'')" "trimmed (str ''{\"text\":\"Hi\"}'')"
  "trimmed (str ''invalid json'')" "blank []" "blank [0x0D]"
  by (simp_all add: trimmed_def blank_def str_def isWhiteSpace_def)

text \<open>The stream of the test of the repository (streaming.test 91-111): two data lines
  give two calls of \<open>onChunk\<close> in their order.  And a stream with a line that is not
  JSON, a line with an empty text that is cut by the chunks and ends in a carriage return,
  and a last line without a newline.\<close>

theorem sse_data_lines_extracted_witness:
  "streamSSEResponse JSON_parse textField
     [Chunk (bytes ''data: {\"text\":\"Hello\"}'' @ [0x0A, 0x0A]),
      Chunk (bytes ''data: {\"text\":\" world\"}'' @ [0x0A, 0x0A]),
      Chunk (bytes ''data: [DONE]'' @ [0x0A, 0x0A])] =
     (Inr (str ''Hello world''), [str ''Hello'', str '' world'']) \<and>
   streamSSEResponse JSON_parse textField
     [Chunk (bytes ''data: invalid json'' @ [0x0A] @ bytes ''data: {\"te''),
      Chunk (bytes ''xt\":\"\"}'' @ [0x0D, 0x0A] @ bytes ''data: {\"text\":\"Hi\"}'')] =
     (Inr (str ''Hi''), [str ''Hi''])"
proof -
  let ?hello = "str ''{\"text\":\"Hello\"}''"
  let ?world = "str ''{\"text\":\" world\"}''"
  let ?empty = "str ''{\"text\":\"\"}''"
  let ?hi = "str ''{\"text\":\"Hi\"}''"
  let ?ls1 = "[str ''data: '' @ ?hello, [], str ''data: '' @ ?world, [], str ''data: [DONE]'', [], []]"
  let ?cs1 = "[bytes ''data: {\"text\":\"Hello\"}'' @ [0x0A, 0x0A],
      bytes ''data: {\"text\":\" world\"}'' @ [0x0A, 0x0A], bytes ''data: [DONE]'' @ [0x0A, 0x0A]]"
  let ?ls2 = "[str ''data: '' @ str ''invalid json'', str ''data: '' @ ?empty @ [0x0D],
      str ''data: '' @ ?hi]"
  let ?cs2 = "[bytes ''data: invalid json'' @ [0x0A] @ bytes ''data: {\"te'',
      bytes ''xt\":\"\"}'' @ [0x0D, 0x0A] @ bytes ''data: {\"text\":\"Hi\"}'']"
  note T = sse_data_lines_extracted[where parse=JSON_parse and extractText=textField]
  have h1: "?ls1 \<noteq> [] \<and> (\<forall>l \<in> set ?ls1. 0x0A \<notin> set l) \<and>
      (\<forall>b \<in> set (concat ?cs1). b \<le> 0x7F) \<and> map ucast (concat ?cs1) = textOfLines ?ls1"
    by (simp add: bytes_def str_def)
  have h2: "?ls2 \<noteq> [] \<and> (\<forall>l \<in> set ?ls2. 0x0A \<notin> set l) \<and>
      (\<forall>b \<in> set (concat ?cs2). b \<le> 0x7F) \<and> map ucast (concat ?cs2) = textOfLines ?ls2"
    by (simp add: bytes_def str_def)
  note a1 = T[where lines="?ls1" and chunks="?cs1", THEN conjunct2, THEN conjunct1, THEN mp, OF h1,
      unfolded list.map]
  note a2 = T[where lines="?ls2" and chunks="?cs2", THEN conjunct2, THEN conjunct1, THEN mp, OF h2,
      unfolded list.map]
  have ne: "?hello \<noteq> str ''[DONE]''" "?world \<noteq> str ''[DONE]''" "?empty \<noteq> str ''[DONE]''"
    "?hi \<noteq> str ''[DONE]''" "str ''invalid json'' \<noteq> str ''[DONE]''"
    "str ''Hello'' \<noteq> []" "str '' world'' \<noteq> []" "str ''Hi'' \<noteq> []"
    by (simp_all add: str_def)
  note bl = trimmed_payloads(6)
  have d1: "lineDelta JSON_parse textField (str ''data: '' @ ?hello) = Some (str ''Hello'')"
    using lineDelta_data[OF bl bl trimmed_payloads(1), of JSON_parse textField] ne
    by (simp add: JSON_parse_texts textField_text)
  have d2: "lineDelta JSON_parse textField (str ''data: '' @ ?world) = Some (str '' world'')"
    using lineDelta_data[OF bl bl trimmed_payloads(2), of JSON_parse textField] ne
    by (simp add: JSON_parse_texts textField_text)
  have d3: "lineDelta JSON_parse textField (str ''data: [DONE]'') = None"
    by (simp add: lineDelta_def startsWith_def jsTrim_def isWhiteSpace_def str_def)
  have d4: "lineDelta JSON_parse textField [] = None"
    by (rule lineDelta_other) (simp add: str_def)
  have d5: "lineDelta JSON_parse textField (str ''data: '' @ str ''invalid json'') = None"
    using lineDelta_data[OF bl bl trimmed_payloads(5), of JSON_parse textField] ne
    by (simp add: JSON_parse_texts)
  have d6: "lineDelta JSON_parse textField (str ''data: '' @ ?empty @ [0x0D]) = None"
    using lineDelta_data[OF bl trimmed_payloads(7) trimmed_payloads(3), of JSON_parse textField] ne
    by (simp add: JSON_parse_texts textField_text)
  have d7: "lineDelta JSON_parse textField (str ''data: '' @ ?hi) = Some (str ''Hi'')"
    using lineDelta_data[OF bl bl trimmed_payloads(4), of JSON_parse textField] ne
    by (simp add: JSON_parse_Hi textField_text)
  have r1: "deltas JSON_parse textField ?ls1 = [str ''Hello'', str '' world'']"
    by (simp add: d1 d2 d3 d4)
  have r2: "deltas JSON_parse textField ?ls2 = [str ''Hi'']"
    by (simp add: d5 d6 d7)
  have c1: "concat [str ''Hello'', str '' world''] = str ''Hello world''" by (simp add: str_def)
  have c2: "concat [str ''Hi''] = str ''Hi''" by simp
  from a1 have e1: "streamSSEResponse JSON_parse textField
     [Chunk (bytes ''data: {\"text\":\"Hello\"}'' @ [0x0A, 0x0A]),
      Chunk (bytes ''data: {\"text\":\" world\"}'' @ [0x0A, 0x0A]),
      Chunk (bytes ''data: [DONE]'' @ [0x0A, 0x0A])] =
     (Inr (str ''Hello world''), [str ''Hello'', str '' world''])"
    unfolding r1 c1 .
  from a2 have e2: "streamSSEResponse JSON_parse textField
     [Chunk (bytes ''data: invalid json'' @ [0x0A] @ bytes ''data: {\"te''),
      Chunk (bytes ''xt\":\"\"}'' @ [0x0D, 0x0A] @ bytes ''data: {\"text\":\"Hi\"}'')] =
     (Inr (str ''Hi''), [str ''Hi''])"
    unfolding r2 c2 .
  from e1 e2 show ?thesis by (rule conjI)
qed


end
